theory Spec2Isabelle
  imports Main "HOL-Library.AList"
begin

section \<open>The queue store (src/lib/db.ts)\<close>

text \<open>
  The two SQLite tables are lists of rows in rowid order. A timestamp is the
  integer that \<^verbatim>\<open>Date.now()\<close> returned; every function that reads the clock
  takes the reading as an argument, one argument per read. The \<^verbatim>\<open>files\<close> and
  \<^verbatim>\<open>metadata\<close> columns hold JSON text in the database; here they hold the value
  that \<^verbatim>\<open>JSON.stringify\<close> was given. The surrogate key \<^verbatim>\<open>id\<close> is called
  \<open>rowid\<close>.
\<close>

datatype msg_status = Pending | Processing | Completed | Dead

datatype resp_status = RPending | Acked

record DbMessage =
  rowid :: nat
  message_id :: string
  channel :: string
  sender :: string
  sender_id :: "string option"
  message :: string
  agent :: "string option"
  files :: "string list option"
  conversation_id :: "string option"
  from_agent :: "string option"
  status :: msg_status
  retry_count :: nat
  last_error :: "string option"
  created_at :: int
  updated_at :: int
  claimed_by :: "string option"

type_synonym HookMetadata = "(string \<times> string) list"

record DbResponse =
  r_rowid :: nat
  r_message_id :: string
  r_channel :: string
  r_sender :: string
  r_sender_id :: "string option"
  r_message :: string
  r_original_message :: string
  r_agent :: "string option"
  r_files :: "string list option"
  r_metadata :: "HookMetadata option"
  r_status :: resp_status
  r_created_at :: int
  r_acked_at :: "int option"

record EnqueueMessageData =
  em_channel :: string
  em_sender :: string
  em_senderId :: "string option"
  em_message :: string
  em_messageId :: string
  em_agent :: "string option"
  em_files :: "string list option"
  em_conversationId :: "string option"
  em_fromAgent :: "string option"

record EnqueueResponseData =
  er_channel :: string
  er_sender :: string
  er_senderId :: "string option"
  er_message :: string
  er_originalMessage :: string
  er_messageId :: string
  er_agent :: "string option"
  er_files :: "string list option"
  er_metadata :: "HookMetadata option"

text \<open>
  The database: both tables, and for each the counter that SQLite keeps for an
  \<^verbatim>\<open>AUTOINCREMENT\<close> key (the largest key ever handed out).
\<close>

record queue_db =
  messages :: "DbMessage list"
  messages_seq :: nat
  responses :: "DbResponse list"
  responses_seq :: nat

datatype db_error = UniqueConstraint string

definition MAX_RETRIES :: nat where
  "MAX_RETRIES = 5"

text \<open>\<^verbatim>\<open>UPDATE t SET ... WHERE p\<close>: every row that satisfies \<open>p\<close> is rewritten.\<close>

definition update_where :: "('r \<Rightarrow> bool) \<Rightarrow> ('r \<Rightarrow> 'r) \<Rightarrow> 'r list \<Rightarrow> 'r list" where
  "update_where p f rows = map (\<lambda>r. if p r then f r else r) rows"

text \<open>The number SQLite reports in \<^verbatim>\<open>changes\<close>: the rows the statement matched.\<close>

definition changes :: "('r \<Rightarrow> bool) \<Rightarrow> 'r list \<Rightarrow> nat" where
  "changes p rows = length (filter p rows)"

text \<open>The key of a new row: one more than every key in the table and the counter.\<close>

definition next_rowid :: "nat list \<Rightarrow> nat \<Rightarrow> nat" where
  "next_rowid ids seq = Suc (fold max ids seq)"

definition enqueueMessage ::
  "EnqueueMessageData \<Rightarrow> int \<Rightarrow> queue_db \<Rightarrow> db_error + (nat \<times> queue_db)" where
  "enqueueMessage data now d =
     (if em_messageId data \<in> set (map message_id (messages d))
      then Inl (UniqueConstraint ''messages.message_id'')
      else
        let rid = next_rowid (map rowid (messages d)) (messages_seq d);
            row = \<lparr> rowid = rid,
                    message_id = em_messageId data,
                    channel = em_channel data,
                    sender = em_sender data,
                    sender_id = em_senderId data,
                    message = em_message data,
                    agent = em_agent data,
                    files = em_files data,
                    conversation_id = em_conversationId data,
                    from_agent = em_fromAgent data,
                    status = Pending,
                    retry_count = 0,
                    last_error = None,
                    created_at = now,
                    updated_at = now,
                    claimed_by = None \<rparr>
        in Inr (rid, d\<lparr> messages := messages d @ [row], messages_seq := rid \<rparr>))"

text \<open>
  The \<^verbatim>\<open>WHERE\<close> clause of the claim query. In SQL \<^verbatim>\<open>agent = ?\<close> is not true
  of a \<^verbatim>\<open>NULL\<close> agent.
\<close>

definition claim_where :: "string \<Rightarrow> DbMessage \<Rightarrow> bool" where
  "claim_where agentId r \<longleftrightarrow>
     status r = Pending \<and>
     (agent r = Some agentId \<or> (agent r = None \<and> agentId = ''default''))"

text \<open>
  \<^verbatim>\<open>ORDER BY created_at ASC LIMIT 1\<close>: the first row of the matching rows
  sorted by \<open>created_at\<close>. The sort is stable, so among rows created at the same
  millisecond the one with the smallest rowid is taken; SQL leaves that choice
  open.
\<close>

definition select_oldest :: "string \<Rightarrow> DbMessage list \<Rightarrow> DbMessage option" where
  "select_oldest agentId rows =
     (case sort_key created_at (filter (claim_where agentId) rows) of
        [] \<Rightarrow> None
      | r # _ \<Rightarrow> Some r)"

definition claimNextMessage ::
  "string \<Rightarrow> int \<Rightarrow> queue_db \<Rightarrow> DbMessage option \<times> queue_db" where
  "claimNextMessage agentId now d =
     (case select_oldest agentId (messages d) of
        None \<Rightarrow> (None, d)
      | Some row \<Rightarrow>
          (Some (row\<lparr> status := Processing, claimed_by := Some agentId \<rparr>),
           d\<lparr> messages :=
                update_where (\<lambda>r. rowid r = rowid row)
                  (\<lambda>r. r\<lparr> status := Processing, claimed_by := Some agentId,
                           updated_at := now \<rparr>)
                  (messages d) \<rparr>))"

definition completeMessage :: "nat \<Rightarrow> int \<Rightarrow> queue_db \<Rightarrow> queue_db" where
  "completeMessage rowId now d =
     d\<lparr> messages :=
          update_where (\<lambda>r. rowid r = rowId)
            (\<lambda>r. r\<lparr> status := Completed, updated_at := now \<rparr>)
            (messages d) \<rparr>"

definition failMessage :: "nat \<Rightarrow> string \<Rightarrow> int \<Rightarrow> queue_db \<Rightarrow> queue_db" where
  "failMessage rowId err now d =
     (case find (\<lambda>r. rowid r = rowId) (messages d) of
        None \<Rightarrow> d
      | Some msg \<Rightarrow>
          let newCount = retry_count msg + 1;
              newStatus = (if newCount \<ge> MAX_RETRIES then Dead else Pending)
          in d\<lparr> messages :=
                  update_where (\<lambda>r. rowid r = rowId)
                    (\<lambda>r. r\<lparr> status := newStatus, retry_count := newCount,
                             last_error := Some err, claimed_by := None,
                             updated_at := now \<rparr>)
                    (messages d) \<rparr>)"

definition enqueueResponse :: "EnqueueResponseData \<Rightarrow> int \<Rightarrow> queue_db \<Rightarrow> nat \<times> queue_db" where
  "enqueueResponse data now d =
     (let rid = next_rowid (map r_rowid (responses d)) (responses_seq d);
          row = \<lparr> r_rowid = rid,
                  r_message_id = er_messageId data,
                  r_channel = er_channel data,
                  r_sender = er_sender data,
                  r_sender_id = er_senderId data,
                  r_message = er_message data,
                  r_original_message = er_originalMessage data,
                  r_agent = er_agent data,
                  r_files = er_files data,
                  r_metadata = er_metadata data,
                  r_status = RPending,
                  r_created_at = now,
                  r_acked_at = None \<rparr>
      in (rid, d\<lparr> responses := responses d @ [row], responses_seq := rid \<rparr>))"

definition ackResponse :: "nat \<Rightarrow> int \<Rightarrow> queue_db \<Rightarrow> queue_db" where
  "ackResponse responseId now d =
     d\<lparr> responses :=
          update_where (\<lambda>r. r_rowid r = responseId)
            (\<lambda>r. r\<lparr> r_status := Acked, r_acked_at := Some now \<rparr>)
            (responses d) \<rparr>"

definition retry_where :: "nat \<Rightarrow> DbMessage \<Rightarrow> bool" where
  "retry_where rowId r \<longleftrightarrow> rowid r = rowId \<and> status r = Dead"

definition retryDeadMessage :: "nat \<Rightarrow> int \<Rightarrow> queue_db \<Rightarrow> bool \<times> queue_db" where
  "retryDeadMessage rowId now d =
     (changes (retry_where rowId) (messages d) > 0,
      d\<lparr> messages :=
           update_where (retry_where rowId)
             (\<lambda>r. r\<lparr> status := Pending, retry_count := 0, claimed_by := None,
                      updated_at := now \<rparr>)
             (messages d) \<rparr>)"

definition deleteDeadMessage :: "nat \<Rightarrow> queue_db \<Rightarrow> bool \<times> queue_db" where
  "deleteDeadMessage rowId d =
     (changes (retry_where rowId) (messages d) > 0,
      d\<lparr> messages := filter (\<lambda>r. \<not> retry_where rowId r) (messages d) \<rparr>)"

text \<open>
  \<^verbatim>\<open>recoverStaleMessages\<close> reads the clock twice: \<open>now1\<close> for the cutoff, then
  \<open>now2\<close> for the new \<open>updated_at\<close>.
\<close>

definition stale_where :: "int \<Rightarrow> DbMessage \<Rightarrow> bool" where
  "stale_where cutoff r \<longleftrightarrow> status r = Processing \<and> updated_at r < cutoff"

definition recoverStaleMessages :: "int \<Rightarrow> int \<Rightarrow> int \<Rightarrow> queue_db \<Rightarrow> nat \<times> queue_db" where
  "recoverStaleMessages thresholdMs now1 now2 d =
     (let cutoff = now1 - thresholdMs
      in (changes (stale_where cutoff) (messages d),
          d\<lparr> messages :=
               update_where (stale_where cutoff)
                 (\<lambda>r. r\<lparr> status := Pending, claimed_by := None, updated_at := now2 \<rparr>)
                 (messages d) \<rparr>))"

definition default_thresholdMs :: int where
  "default_thresholdMs = 10 * 60 * 1000"

subsection \<open>Histories of claims and failures of one message\<close>

text \<open>
  A history of the dispatcher's calls that concern one row: claims by any agent
  at any time, and failures of the row \<open>rid\<close>.
\<close>

datatype queue_op = Claim string int | Fail string int

primrec apply_op :: "nat \<Rightarrow> queue_op \<Rightarrow> queue_db \<Rightarrow> queue_db" where
  "apply_op rid (Claim a t) d = snd (claimNextMessage a t d)"
| "apply_op rid (Fail e t) d = failMessage rid e t d"

primrec is_fail :: "queue_op \<Rightarrow> bool" where
  "is_fail (Claim a t) = False"
| "is_fail (Fail e t) = True"

definition failures :: "queue_op list \<Rightarrow> nat" where
  "failures ops = length (filter is_fail ops)"

subsection \<open>The row invariants\<close>

text \<open>
  The properties of a message row that the operations are checked against: a
  row being processed has a claimer, a pending row has none, and a dead row has
  used up its retries.
\<close>

definition row_invariant :: "DbMessage \<Rightarrow> bool" where
  "row_invariant r \<longleftrightarrow>
     (status r = Processing \<longrightarrow> claimed_by r \<noteq> None) \<and>
     (status r = Pending \<longrightarrow> claimed_by r = None) \<and>
     (status r = Dead \<longrightarrow> retry_count r \<ge> MAX_RETRIES)"

definition db_invariant :: "queue_db \<Rightarrow> bool" where
  "db_invariant d \<longleftrightarrow> (\<forall>r\<in>set (messages d). row_invariant r)"

subsection \<open>Sample data\<close>

definition empty_db :: queue_db where
  "empty_db = \<lparr> messages = [], messages_seq = 0, responses = [], responses_seq = 0 \<rparr>"

definition ex_response :: EnqueueResponseData where
  "ex_response = \<lparr> er_channel = ''telegram'', er_sender = ''Alice'', er_senderId = None,
      er_message = ''pong'', er_originalMessage = ''ping'', er_messageId = ''m1'',
      er_agent = Some ''assistant'', er_files = None, er_metadata = None \<rparr>"

definition ex_row ::
  "nat \<Rightarrow> string \<Rightarrow> string option \<Rightarrow> msg_status \<Rightarrow> nat \<Rightarrow> int \<Rightarrow> int \<Rightarrow> string option \<Rightarrow> DbMessage" where
  "ex_row rid mid ag st rc cr up cl =
     \<lparr> rowid = rid, message_id = mid, channel = ''telegram'', sender = ''Alice'',
       sender_id = None, message = ''ping'', agent = ag, files = None,
       conversation_id = None, from_agent = None, status = st, retry_count = rc,
       last_error = None, created_at = cr, updated_at = up, claimed_by = cl \<rparr>"

definition ex_db :: queue_db where
  "ex_db = \<lparr> messages =
       [ex_row 1 ''m1'' (Some ''coder'') Pending 0 300 300 None,
        ex_row 2 ''m2'' (Some ''coder'') Pending 0 200 200 None,
        ex_row 3 ''m3'' None Pending 0 100 100 None,
        ex_row 4 ''m4'' (Some ''coder'') Processing 0 50 50 (Some ''coder''),
        ex_row 5 ''m5'' (Some ''coder'') Dead 5 10 60 None,
        ex_row 6 ''m6'' (Some ''writer'') Processing 1 40 900 (Some ''writer'')],
     messages_seq = 6, responses = [], responses_seq = 0 \<rparr>"

definition ex_message :: EnqueueMessageData where
  "ex_message = \<lparr> em_channel = ''telegram'', em_sender = ''Alice'', em_senderId = None,
      em_message = ''ping'', em_messageId = ''m7'', em_agent = None, em_files = None,
      em_conversationId = None, em_fromAgent = None \<rparr>"

definition ex_ops :: "queue_op list" where
  "ex_ops = [Claim ''coder'' 1000, Fail ''exit 1'' 1001, Claim ''coder'' 1002, Fail ''exit 1'' 1003,
             Claim ''coder'' 1004, Fail ''exit 1'' 1005, Claim ''coder'' 1006, Fail ''exit 1'' 1007,
             Claim ''coder'' 1008, Fail ''exit 1'' 1009]"

definition ex_db1 :: queue_db where
  "ex_db1 = \<lparr> messages = [ex_row 1 ''m1'' (Some ''coder'') Pending 0 300 300 None],
     messages_seq = 1, responses = [], responses_seq = 0 \<rparr>"

section \<open>Strings\<close>

text \<open>
  A string is the list of its bytes in UTF-8, and \<open>chars\<close> cuts it into its
  characters: a byte that is no continuation byte, with the continuation bytes
  that follow it. A character beyond the Basic Multilingual Plane is two code
  units for the engine, both of them no white space, so that the regular
  expressions and \<^verbatim>\<open>trim\<close> see the same on either reading.
\<close>

definition is_cont :: "char \<Rightarrow> bool" where
  "is_cont c \<longleftrightarrow> digit7 c \<and> \<not> digit6 c"

function chars :: "string \<Rightarrow> string list" where
  "chars [] = []"
| "chars (c # cs) = (c # takeWhile is_cont cs) # chars (dropWhile is_cont cs)"
  by pat_completeness auto
termination
  by (relation "measure length") (auto simp: le_imp_less_Suc length_dropWhile_le)

text \<open>
  The white space of the engine, which is the class \<^verbatim>\<open>\s\<close> of its regular
  expressions and what \<^verbatim>\<open>trim\<close> strips: TAB, LF, VT, FF, CR, SP, U+00A0,
  U+1680, U+2000 to U+200A, U+2028, U+2029, U+202F, U+205F, U+3000 and U+FEFF.
\<close>

definition white_space :: "string list" where
  "white_space =
     [[CHR 0x09], [CHR 0x0A], [CHR 0x0B], [CHR 0x0C], [CHR 0x0D], [CHR 0x20],
      [CHR 0xC2, CHR 0xA0],
      [CHR 0xE1, CHR 0x9A, CHR 0x80],
      [CHR 0xE2, CHR 0x80, CHR 0x80], [CHR 0xE2, CHR 0x80, CHR 0x81],
      [CHR 0xE2, CHR 0x80, CHR 0x82], [CHR 0xE2, CHR 0x80, CHR 0x83],
      [CHR 0xE2, CHR 0x80, CHR 0x84], [CHR 0xE2, CHR 0x80, CHR 0x85],
      [CHR 0xE2, CHR 0x80, CHR 0x86], [CHR 0xE2, CHR 0x80, CHR 0x87],
      [CHR 0xE2, CHR 0x80, CHR 0x88], [CHR 0xE2, CHR 0x80, CHR 0x89],
      [CHR 0xE2, CHR 0x80, CHR 0x8A],
      [CHR 0xE2, CHR 0x80, CHR 0xA8], [CHR 0xE2, CHR 0x80, CHR 0xA9],
      [CHR 0xE2, CHR 0x80, CHR 0xAF],
      [CHR 0xE2, CHR 0x81, CHR 0x9F],
      [CHR 0xE3, CHR 0x80, CHR 0x80],
      [CHR 0xEF, CHR 0xBB, CHR 0xBF]]"

definition is_space :: "string \<Rightarrow> bool" where
  "is_space ch \<longleftrightarrow> ch \<in> set white_space"

text \<open>\<^verbatim>\<open>s.trim()\<close>\<close>

definition trim :: "string \<Rightarrow> string" where
  "trim s = concat (rev (dropWhile is_space (rev (dropWhile is_space (chars s)))))"

text \<open>
  \<^verbatim>\<open>s.toLowerCase()\<close> is the engine's, with the case mappings of Unicode. The
  functions that call it take it as the argument \<open>lc\<close>. On a text in ASCII it
  is \<open>ascii_toLowerCase\<close>, which the examples use.
\<close>

type_synonym case_mapping = "string \<Rightarrow> string"

definition lower_char :: "char \<Rightarrow> char" where
  "lower_char c =
     (case map_of (zip ''ABCDEFGHIJKLMNOPQRSTUVWXYZ'' ''abcdefghijklmnopqrstuvwxyz'') c of
        Some l \<Rightarrow> l
      | None \<Rightarrow> c)"

definition ascii_toLowerCase :: case_mapping where
  "ascii_toLowerCase s = map lower_char s"

text \<open>\<^verbatim>\<open>xs.join(sep)\<close>\<close>

fun join :: "string \<Rightarrow> string list \<Rightarrow> string" where
  "join sep [] = []"
| "join sep [x] = x"
| "join sep (x # y # ys) = x @ sep @ join sep (y # ys)"

text \<open>The decimal numeral of a number, as a template literal prints it.\<close>

function show_nat :: "nat \<Rightarrow> string" where
  "show_nat n =
     (if n < 10 then [''0123456789'' ! n]
      else show_nat (n div 10) @ [''0123456789'' ! (n mod 10)])"
  by pat_completeness auto
termination
  by (relation "measure id") auto

declare show_nat.simps [simp del]

definition show_int :: "int \<Rightarrow> string" where
  "show_int i = (if i < 0 then ''-'' @ show_nat (nat (- i)) else show_nat (nat i))"

definition nl :: string where
  "nl = [CHR 0x0A]"
section \<open>Routing (the queue processor with the file queue)\<close>

text \<open>
  The registry \<^verbatim>\<open>Record<string, AgentConfig>\<close> is the list of its entries in
  the order of \<^verbatim>\<open>Object.entries\<close>, with distinct keys.
\<close>

record AgentConfig =
  name :: string
  provider :: string
  model :: string
  working_directory :: string
  system_prompt :: "string option"
  prompt_file :: "string option"

record TeamConfig =
  team_name :: string
  team_agents :: "string list"
  leader_agent :: string

type_synonym agent_registry = "(string \<times> AgentConfig) list"

type_synonym team_registry = "(string \<times> TeamConfig) list"

text \<open>
  The registry is a plain object, parsed from the settings file or written as
  an object literal, so that \<^verbatim>\<open>agents[k]\<close> also finds what the object inherits
  from \<^verbatim>\<open>Object.prototype\<close>: eleven functions and, under \<^verbatim>\<open>__proto__\<close>, the
  prototype itself. All of these are truthy, as the configurations are.
\<close>

definition Object_prototype_keys :: "string list" where
  "Object_prototype_keys =
     [''constructor'', ''__defineGetter__'', ''__defineSetter__'', ''hasOwnProperty'',
      ''__lookupGetter__'', ''__lookupSetter__'', ''isPrototypeOf'', ''propertyIsEnumerable'',
      ''toString'', ''valueOf'', ''__proto__'', ''toLocaleString'']"

text \<open>\<^verbatim>\<open>agents[k]\<close> is truthy.\<close>

definition has_key :: "(string \<times> 'v) list \<Rightarrow> string \<Rightarrow> bool" where
  "has_key reg k \<longleftrightarrow>
     (case map_of reg k of Some v \<Rightarrow> True | None \<Rightarrow> k \<in> set Object_prototype_keys)"

text \<open>
  \<^verbatim>\<open>message.match(/@(\S+)/g)\<close>: scanning from the left, every \<^verbatim>\<open>@\<close> that is
  followed by a character other than white space starts a match, which runs to
  the next white space or the end; the scan goes on after the match. The
  function returns the matches without their \<^verbatim>\<open>@\<close>.
\<close>

function mention_scan :: "string list \<Rightarrow> string list" where
  "mention_scan [] = []"
| "mention_scan (c # cs) =
     (if c = ''@'' \<and> takeWhile (\<lambda>x. \<not> is_space x) cs \<noteq> []
      then concat (takeWhile (\<lambda>x. \<not> is_space x) cs) #
           mention_scan (dropWhile (\<lambda>x. \<not> is_space x) cs)
      else mention_scan cs)"
  by pat_completeness auto
termination
  by (relation "measure length") (auto simp: le_imp_less_Suc length_dropWhile_le)

definition mention_tokens :: "string \<Rightarrow> string list" where
  "mention_tokens msg = mention_scan (chars msg)"

definition detectMultipleTeams :: "case_mapping \<Rightarrow> string \<Rightarrow> agent_registry \<Rightarrow> string list" where
  "detectMultipleTeams lc msg agents =
     filter (has_key agents) (map lc (mention_tokens msg))"

text \<open>
  The reply for several targets. The four symbols of the text are the bytes
  that the source file holds for them.
\<close>

definition emoji_rocket :: string where
  "emoji_rocket = [CHR 0xC3, CHR 0xB0, CHR 0xC5, CHR 0xB8, CHR 0xC5, CHR 0xA1, CHR 0xE2, CHR 0x82, CHR 0xAC]"

definition emoji_sparkles :: string where
  "emoji_sparkles = [CHR 0xC3, CHR 0xA2, CHR 0xC5, CHR 0x93, CHR 0xC2, CHR 0xA8]"

definition emoji_bullet :: string where
  "emoji_bullet = [CHR 0xC3, CHR 0xA2, CHR 0xE2, CHR 0x82, CHR 0xAC, CHR 0xC2, CHR 0xA2]"

definition emoji_party :: string where
  "emoji_party = [CHR 0xC3, CHR 0xB0, CHR 0xC5, CHR 0xB8, CHR 0xC5, CHR 0xBD, CHR 0xE2, CHR 0x80, CHR 0xB0]"

definition multi_team_message :: "string list \<Rightarrow> string" where
  "multi_team_message mentionedTeams =
     (let teamList = join '', '' (map (\<lambda>t. ''@'' @ t) mentionedTeams) in
      emoji_rocket @ '' **Team-to-Team Collaboration - Coming Soon!**'' @ nl @ nl @
      ''You mentioned multiple teams: '' @ teamList @ nl @ nl @
      ''Right now, I can only route to one team at a time. But we'' @ [CHR 0x27] @
      ''re working on something cool:'' @ nl @ nl @
      emoji_sparkles @ '' **Multi-Team Coordination** - Teams will be able to collaborate on complex tasks!'' @ nl @
      emoji_sparkles @ '' **Smart Routing** - Send instructions to multiple teams at once!'' @ nl @
      emoji_sparkles @ '' **Team Handoffs** - One team can delegate to another!'' @ nl @ nl @
      ''For now, please send separate messages to each team:'' @ nl @
      join nl (map (\<lambda>t. emoji_bullet @ '' `@'' @ t @ '' [your message]`'') mentionedTeams) @
      nl @ nl @
      ''_Stay tuned for updates! '' @ emoji_party @ ''_'')"

text \<open>
  \<^verbatim>\<open>rawMessage.match(/^@(\S+)\s+([\s\S]*)$/)\<close>: the text starts with \<^verbatim>\<open>@\<close>, a
  non-empty run without white space (group 1, greedy) and a non-empty run of
  white space (greedy); group 2 is everything after that run.
\<close>

definition match_agent_prefix :: "string \<Rightarrow> (string \<times> string) option" where
  "match_agent_prefix rawMessage =
     (case chars rawMessage of
        [] \<Rightarrow> None
      | c # cs \<Rightarrow>
          if c \<noteq> ''@'' then None
          else
            let m1 = takeWhile (\<lambda>x. \<not> is_space x) cs;
                after = dropWhile (\<lambda>x. \<not> is_space x) cs
            in if m1 = [] \<or> after = [] then None
               else Some (concat m1, concat (dropWhile is_space after)))"

text \<open>The result \<^verbatim>\<open>{ agentId, message }\<close> is the pair of the two.\<close>

definition parseAgentRouting :: "case_mapping \<Rightarrow> string \<Rightarrow> agent_registry \<Rightarrow> string \<times> string" where
  "parseAgentRouting lc rawMessage agents =
     (let mentionedTeams = detectMultipleTeams lc rawMessage agents in
      if length mentionedTeams > 1 then (''error'', multi_team_message mentionedTeams)
      else
        case match_agent_prefix rawMessage of
          None \<Rightarrow> (''default'', rawMessage)
        | Some (m1, m2) \<Rightarrow>
            let candidateId = lc m1 in
            if has_key agents candidateId then (candidateId, m2)
            else
              (case find (\<lambda>(aid, config). lc (name config) = candidateId) agents of
                 Some (aid, config) \<Rightarrow> (aid, m2)
               | None \<Rightarrow> (''default'', rawMessage)))"

subsection \<open>Sample registry\<close>

definition ex_agent :: "string \<Rightarrow> AgentConfig" where
  "ex_agent n = \<lparr> name = n, provider = ''anthropic'', model = ''sonnet'',
                  working_directory = [], system_prompt = None, prompt_file = None \<rparr>"

definition ex_agents :: agent_registry where
  "ex_agents = [(''coder'', ex_agent ''Code Monkey''), (''writer'', ex_agent ''Scribe'')]"

section \<open>The hook pipeline (src/lib/plugins.ts)\<close>

record HookContext =
  hc_channel :: string
  hc_sender :: string
  hc_messageId :: string
  hc_originalMessage :: string

record HookResult =
  hr_text :: string
  hr_metadata :: HookMetadata

text \<open>
  A hook is user code. What one call of it does is a function of its two
  arguments: it returns a string, returns an object with a text and a metadata
  object, or throws (for a hook that returns a promise: the promise rejects).
  Of the value thrown, the \<^verbatim>\<open>catch\<close> block evaluates
  \<^verbatim>\<open>${(error as Error).message}\<close> and nothing else. For an \<^verbatim>\<open>Error\<close> that
  prints its message, and \<^verbatim>\<open>undefined\<close> for a value without the property:
  \<open>Message\<close> of what is printed. For \<^verbatim>\<open>undefined\<close> and \<^verbatim>\<open>null\<close> reading the
  property throws a \<^verbatim>\<open>TypeError\<close>, as does printing a message that does not
  convert to a string: \<open>NoMessage\<close> of the message of that second error.
\<close>

datatype thrown = Message string | NoMessage string

datatype hook_return = ReturnsString string | ReturnsResult string HookMetadata

type_synonym hook = "string \<Rightarrow> HookContext \<Rightarrow> thrown + hook_return"

record LoadedPlugin =
  plugin_name :: string
  transformOutgoing :: "hook option"
  transformIncoming :: "hook option"

text \<open>A line of the log: the level and the text.\<close>

type_synonym log_entry = "string \<times> string"

text \<open>
  \<^verbatim>\<open>{ ...a, ...b }\<close> on objects kept as lists of their entries: a key of \<open>b\<close>
  that \<open>a\<close> has keeps its place and takes the value from \<open>b\<close>; a new key goes to
  the end. That is the order of the engine for keys that are not array indices;
  those it lists first.
\<close>

definition spread :: "HookMetadata \<Rightarrow> HookMetadata \<Rightarrow> HookMetadata" where
  "spread a b = fold (\<lambda>(k, v). AList.update k v) b a"

text \<open>
  The outcome of a run so far: the text and metadata, or \<open>Inl\<close> of the message
  of the error with which the function rejects; and the lines logged.
\<close>

type_synonym hooks_run = "(string + HookResult) \<times> log_entry list"

text \<open>
  The body of the \<^verbatim>\<open>for\<close> loop, which the two functions share but for the hook
  they call and its name in the log line. An error thrown in the \<^verbatim>\<open>catch\<close>
  block leaves the loop and the function: no further hook is called.
\<close>

definition hook_step ::
  "string \<Rightarrow> (LoadedPlugin \<Rightarrow> hook option) \<Rightarrow> HookContext \<Rightarrow> LoadedPlugin \<Rightarrow>
   hooks_run \<Rightarrow> hooks_run" where
  "hook_step hookName sel ctx plugin st =
     (case fst st of
        Inl err \<Rightarrow> st
      | Inr r \<Rightarrow>
          (case sel plugin of
             None \<Rightarrow> st
           | Some h \<Rightarrow>
               (case h (hr_text r) ctx of
                  Inl (NoMessage err) \<Rightarrow> (Inl err, snd st)
                | Inl (Message m) \<Rightarrow>
                    (Inr r,
                     snd st @ [(''ERROR'', ''Plugin '' @ [CHR 0x27] @ plugin_name plugin @ [CHR 0x27] @
                                           '' '' @ hookName @ '' error: '' @ m)])
                | Inr (ReturnsString s) \<Rightarrow> (Inr (r\<lparr> hr_text := s \<rparr>), snd st)
                | Inr (ReturnsResult s m) \<Rightarrow>
                    (Inr \<lparr> hr_text = s, hr_metadata = spread (hr_metadata r) m \<rparr>, snd st))))"

definition runOutgoingHooks :: "LoadedPlugin list \<Rightarrow> string \<Rightarrow> HookContext \<Rightarrow> hooks_run" where
  "runOutgoingHooks loadedPlugins msg ctx =
     fold (hook_step ''transformOutgoing'' transformOutgoing ctx) loadedPlugins
       (Inr \<lparr> hr_text = msg, hr_metadata = [] \<rparr>, [])"

definition runIncomingHooks :: "LoadedPlugin list \<Rightarrow> string \<Rightarrow> HookContext \<Rightarrow> hooks_run" where
  "runIncomingHooks loadedPlugins msg ctx =
     fold (hook_step ''transformIncoming'' transformIncoming ctx) loadedPlugins
       (Inr \<lparr> hr_text = msg, hr_metadata = [] \<rparr>, [])"

subsection \<open>Sample plugins\<close>

definition ex_ctx :: HookContext where
  "ex_ctx = \<lparr> hc_channel = ''telegram'', hc_sender = ''Alice'', hc_messageId = ''m1'',
             hc_originalMessage = ''ping'' \<rparr>"

definition ex_shout :: LoadedPlugin where
  "ex_shout = \<lparr> plugin_name = ''shout'',
       transformOutgoing = Some (\<lambda>t c. Inr (ReturnsString (t @ ''!''))),
       transformIncoming = Some (\<lambda>t c. Inr (ReturnsString (t @ ''?''))) \<rparr>"

definition ex_markdown :: LoadedPlugin where
  "ex_markdown = \<lparr> plugin_name = ''markdown'',
       transformOutgoing =
         Some (\<lambda>t c. Inr (ReturnsResult (''*'' @ t @ ''*'') [(''parseMode'', ''markdown''), (''a'', ''1'')])),
       transformIncoming =
         Some (\<lambda>t c. Inr (ReturnsResult (''*'' @ t @ ''*'') [(''parseMode'', ''markdown''), (''a'', ''1'')])) \<rparr>"

definition ex_html :: LoadedPlugin where
  "ex_html = \<lparr> plugin_name = ''html'',
       transformOutgoing =
         Some (\<lambda>t c. Inr (ReturnsResult (''<b>'' @ t @ ''</b>'') [(''parseMode'', ''html'')])),
       transformIncoming =
         Some (\<lambda>t c. Inr (ReturnsResult (''<b>'' @ t @ ''</b>'') [(''parseMode'', ''html'')])) \<rparr>"

definition ex_broken :: LoadedPlugin where
  "ex_broken = \<lparr> plugin_name = ''broken'',
       transformOutgoing = Some (\<lambda>t c. Inl (Message ''boom'')),
       transformIncoming = Some (\<lambda>t c. Inl (Message ''boom'')) \<rparr>"

text \<open>
  Two plugins with a hook that returns \<^verbatim>\<open>Promise.reject()\<close>, one on the way
  out and one on the way in: the value thrown is \<^verbatim>\<open>undefined\<close>, and the error
  of the \<^verbatim>\<open>catch\<close> block has the message that Node.js gives it.
\<close>

definition undefined_message_error :: string where
  "undefined_message_error =
     ''Cannot read properties of undefined (reading '' @ [CHR 0x27] @ ''message'' @ [CHR 0x27] @ '')''"

definition ex_rejecting :: LoadedPlugin where
  "ex_rejecting = \<lparr> plugin_name = ''rejecting'',
       transformOutgoing = Some (\<lambda>t c. Inl (NoMessage undefined_message_error)),
       transformIncoming = None \<rparr>"

definition ex_rejecting_in :: LoadedPlugin where
  "ex_rejecting_in = \<lparr> plugin_name = ''rejecting_in'',
       transformOutgoing = None,
       transformIncoming = Some (\<lambda>t c. Inl (NoMessage undefined_message_error)) \<rparr>"
section \<open>Invoking an agent (the invoker of the queue processor)\<close>

text \<open>
  A value in the list of arguments of a command: a string, or what a lookup in
  a table of models gives under a name that the table inherits from
  \<^verbatim>\<open>Object.prototype\<close>, which is a function or an object.
\<close>

datatype arg = Str string | Inherited string

text \<open>
  The subprocess belongs to the environment. What \<^verbatim>\<open>spawn(command, args, {cwd})\<close>
  leads to is a function of the three: an error with its message (the \<^verbatim>\<open>error\<close>
  event, or the error that \<^verbatim>\<open>spawn\<close> throws for an argument that is no
  string; either rejects the promise), or the \<^verbatim>\<open>close\<close> event with the exit
  code (null when a signal ended the process) and all that was written to
  stdout and stderr.
\<close>

datatype proc_result =
    SpawnFails string
  | Closes "int option" string string

type_synonym spawner = "string \<Rightarrow> arg list \<Rightarrow> string \<Rightarrow> proc_result"

definition show_code :: "int option \<Rightarrow> string" where
  "show_code code = (case code of None \<Rightarrow> ''null'' | Some n \<Rightarrow> show_int n)"

text \<open>
  A rejected promise is \<open>Inl\<close> of the message of its error; \<open>scriptDir\<close> is the
  constant \<^verbatim>\<open>SCRIPT_DIR\<close> of the configuration module.
\<close>

definition runCommand ::
  "spawner \<Rightarrow> string \<Rightarrow> string \<Rightarrow> arg list \<Rightarrow> string option \<Rightarrow> string + string" where
  "runCommand spawn scriptDir command args cwd =
     (case spawn command args
             (case cwd of None \<Rightarrow> scriptDir | Some c \<Rightarrow> if c = [] then scriptDir else c) of
        SpawnFails err \<Rightarrow> Inl err
      | Closes code stdout stderr \<Rightarrow>
          if code = Some 0 then Inr stdout
          else
            let errorMessage =
                  (if trim stderr \<noteq> [] then trim stderr
                   else ''Command exited with code '' @ show_code code)
            in Inl errorMessage)"

definition CLAUDE_MODEL_IDS :: "(string \<times> string) list" where
  "CLAUDE_MODEL_IDS =
     [(''sonnet'', ''claude-sonnet-4-5''),
      (''opus'', ''claude-opus-4-6''),
      (''claude-sonnet-4-5'', ''claude-sonnet-4-5''),
      (''claude-opus-4-6'', ''claude-opus-4-6'')]"

definition CODEX_MODEL_IDS :: "(string \<times> string) list" where
  "CODEX_MODEL_IDS =
     [(''gpt-5.2'', ''gpt-5.2''),
      (''gpt-5.3-codex'', ''gpt-5.3-codex'')]"

definition OPENCODE_MODEL_IDS :: "(string \<times> string) list" where
  "OPENCODE_MODEL_IDS =
     [(''opencode/claude-opus-4-6'', ''opencode/claude-opus-4-6''),
      (''opencode/claude-sonnet-4-5'', ''opencode/claude-sonnet-4-5''),
      (''opencode/gemini-3-flash'', ''opencode/gemini-3-flash''),
      (''opencode/gemini-3-pro'', ''opencode/gemini-3-pro''),
      (''opencode/glm-5'', ''opencode/glm-5''),
      (''opencode/kimi-k2.5'', ''opencode/kimi-k2.5''),
      (''opencode/kimi-k2.5-free'', ''opencode/kimi-k2.5-free''),
      (''opencode/minimax-m2.5'', ''opencode/minimax-m2.5''),
      (''opencode/minimax-m2.5-free'', ''opencode/minimax-m2.5-free''),
      (''anthropic/claude-opus-4-6'', ''anthropic/claude-opus-4-6''),
      (''anthropic/claude-sonnet-4-5'', ''anthropic/claude-sonnet-4-5''),
      (''openai/gpt-5.2'', ''openai/gpt-5.2''),
      (''openai/gpt-5.3-codex'', ''openai/gpt-5.3-codex''),
      (''openai/gpt-5.3-codex-spark'', ''openai/gpt-5.3-codex-spark''),
      (''sonnet'', ''opencode/claude-sonnet-4-5''),
      (''opus'', ''opencode/claude-opus-4-6'')]"

text \<open>
  \<^verbatim>\<open>TABLE[model] || model || ''\<close>, the tables being object literals, and
  whether the result is truthy.
\<close>

definition resolve_model :: "(string \<times> string) list \<Rightarrow> string \<Rightarrow> arg" where
  "resolve_model table m =
     (case map_of table m of
        Some v \<Rightarrow> Str v
      | None \<Rightarrow> if m \<in> set Object_prototype_keys then Inherited m else Str m)"

definition arg_truthy :: "arg \<Rightarrow> bool" where
  "arg_truthy a \<longleftrightarrow> (case a of Str s \<Rightarrow> s \<noteq> [] | Inherited k \<Rightarrow> True)"

definition resolveClaudeModel :: "string \<Rightarrow> arg" where
  "resolveClaudeModel m = resolve_model CLAUDE_MODEL_IDS m"

definition resolveCodexModel :: "string \<Rightarrow> arg" where
  "resolveCodexModel m = resolve_model CODEX_MODEL_IDS m"

text \<open>
  Modelled from the spec: \<^verbatim>\<open>resolveOpenCodeModel\<close> of the configuration module is
  not among the sources. Each provider maps short aliases to model identifiers,
  and an alias it does not know is passed through as it is.
\<close>

definition resolveOpenCodeModel :: "string \<Rightarrow> arg" where
  "resolveOpenCodeModel m = resolve_model OPENCODE_MODEL_IDS m"

text \<open>
  \<^verbatim>\<open>path.join\<close> and \<^verbatim>\<open>path.isAbsolute\<close> on POSIX paths; the normalisation that
  \<^verbatim>\<open>path.join\<close> does is left out.
\<close>

definition path_join :: "string \<Rightarrow> string \<Rightarrow> string" where
  "path_join a b = a @ ''/'' @ b"

definition path_isAbsolute :: "string \<Rightarrow> bool" where
  "path_isAbsolute p \<longleftrightarrow> (case p of [] \<Rightarrow> False | c # _ \<Rightarrow> c = CHR ''/'')"

text \<open>\<^verbatim>\<open>s.split('\n')\<close>\<close>

fun split_lines :: "string \<Rightarrow> string list" where
  "split_lines [] = [[]]"
| "split_lines (c # cs) =
     (if c = CHR 0x0A then [] # split_lines cs
      else (case split_lines cs of [] \<Rightarrow> [[c]] | l # ls \<Rightarrow> (c # l) # ls))"

text \<open>
  The loop over the lines of the output: a line that \<^verbatim>\<open>JSON.parse\<close> accepts and
  that has the shape looked for replaces the response; any other line is
  passed over. \<open>line_text\<close> says which lines have the shape, and what text
  they carry.
\<close>

definition last_line_text :: "(string \<Rightarrow> string option) \<Rightarrow> string \<Rightarrow> string" where
  "last_line_text line_text output =
     fold (\<lambda>line response. case line_text line of Some t \<Rightarrow> t | None \<Rightarrow> response)
       (split_lines (trim output)) []"

text \<open>
  What \<^verbatim>\<open>invokeAgent\<close> takes from its surroundings: the subprocesses, the
  constant \<^verbatim>\<open>SCRIPT_DIR\<close>, what the two helpers of the agent module
  (\<^verbatim>\<open>ensureAgentDirectory\<close>, \<^verbatim>\<open>updateAgentTeammates\<close>, which work on the file
  system and are not among the sources) throw for an agent directory, if
  anything, and the two readings of a JSON line.
\<close>

record invoker =
  inv_spawn :: spawner
  inv_SCRIPT_DIR :: string
  inv_prepare :: "string \<Rightarrow> string option"
  inv_codex_line :: "string \<Rightarrow> string option"
  inv_opencode_line :: "string \<Rightarrow> string option"

definition invokeAgent ::
  "invoker \<Rightarrow> AgentConfig \<Rightarrow> string \<Rightarrow> string \<Rightarrow> string \<Rightarrow> bool \<Rightarrow> string + string" where
  "invokeAgent iv agentCfg agentId prompt workspacePath shouldReset =
     (let agentDir = path_join workspacePath agentId in
      case inv_prepare iv agentDir of
        Some err \<Rightarrow> Inl err
      | None \<Rightarrow>
          let workingDir =
                (if working_directory agentCfg \<noteq> []
                 then (if path_isAbsolute (working_directory agentCfg)
                       then working_directory agentCfg
                       else path_join workspacePath (working_directory agentCfg))
                 else agentDir);
              prov = (if provider agentCfg \<noteq> [] then provider agentCfg else ''anthropic'')
          in
          if prov = ''openai'' then
            (let modelId = resolveCodexModel (model agentCfg);
                 codexArgs = [Str ''exec''] @
                   (if \<not> shouldReset then [Str ''resume'', Str ''--last''] else []) @
                   (if arg_truthy modelId then [Str ''--model'', modelId] else []) @
                   [Str ''--skip-git-repo-check'', Str ''--dangerously-bypass-approvals-and-sandbox'',
                    Str ''--json'', Str prompt]
             in case runCommand (inv_spawn iv) (inv_SCRIPT_DIR iv) ''codex'' codexArgs (Some workingDir) of
                  Inl err \<Rightarrow> Inl err
                | Inr codexOutput \<Rightarrow>
                    let response = last_line_text (inv_codex_line iv) codexOutput
                    in Inr (if response \<noteq> [] then response
                            else ''Sorry, I could not generate a response from Codex.''))
          else if prov = ''opencode'' then
            (let modelId = resolveOpenCodeModel (model agentCfg);
                 opencodeArgs = [Str ''run'', Str ''--format'', Str ''json''] @
                   (if arg_truthy modelId then [Str ''--model'', modelId] else []) @
                   (if \<not> shouldReset then [Str ''-c''] else []) @
                   [Str prompt]
             in case runCommand (inv_spawn iv) (inv_SCRIPT_DIR iv) ''opencode'' opencodeArgs (Some workingDir) of
                  Inl err \<Rightarrow> Inl err
                | Inr opencodeOutput \<Rightarrow>
                    let response = last_line_text (inv_opencode_line iv) opencodeOutput
                    in Inr (if response \<noteq> [] then response
                            else ''Sorry, I could not generate a response from OpenCode.''))
          else
            (let modelId = resolveClaudeModel (model agentCfg);
                 claudeArgs = [Str ''--dangerously-skip-permissions''] @
                   (if arg_truthy modelId then [Str ''--model'', modelId] else []) @
                   (if \<not> shouldReset then [Str ''-c''] else []) @
                   [Str ''-p'', Str prompt]
             in runCommand (inv_spawn iv) (inv_SCRIPT_DIR iv) ''claude'' claudeArgs (Some workingDir)))"

section \<open>The dispatcher (the queue processor over the SQLite queue)\<close>

subsection \<open>Conversations\<close>

text \<open>
  A conversation of a team, as the type module declares it. The set of files is
  the list of its members in the order they were added; the map of outgoing
  mentions is the list of its entries.
\<close>

record Conversation =
  conv_id :: string
  conv_channel :: string
  conv_sender :: string
  conv_originalMessage :: string
  conv_messageId :: string
  pending :: int
  conv_responses :: "(string \<times> string) list"
  conv_files :: "string list"
  totalMessages :: nat
  maxMessages :: nat
  teamContext :: "string \<times> TeamConfig"
  startTime :: int
  outgoingMentions :: "(string \<times> nat) list"

text \<open>
  The state that a call of \<^verbatim>\<open>processMessage\<close> reads and writes: the queue
  database, the map of conversations (a list of entries with distinct keys),
  the reset-flag files that exist, the lines of level \<^verbatim>\<open>WARN\<close> and
  \<^verbatim>\<open>ERROR\<close> written to the log, the types of the events emitted, and the
  calls of \<^verbatim>\<open>invokeAgent\<close> made, each with the agent id, the prompt and the
  reset flag.
\<close>

record world =
  db :: queue_db
  conversations :: "(string \<times> Conversation) list"
  reset_flags :: "string list"
  logs :: "log_entry list"
  events :: "string list"
  invocations :: "(string \<times> string \<times> bool) list"

text \<open>
  What \<^verbatim>\<open>processMessage\<close> takes from its surroundings. The settings give the
  agents, the teams and the workspace path; the plugins are those loaded. The
  modules for routing, responses and conversations are not among the sources:
  \<^verbatim>\<open>parseAgentRouting\<close> with three arguments (its result is the agent id, the
  message and the \<^verbatim>\<open>isTeam\<close> flag), \<^verbatim>\<open>extractTeammateMentions\<close> (its result
  is the list of pairs of a teammate id and a message), \<^verbatim>\<open>collectFiles\<close> (the
  files it adds to the set), \<^verbatim>\<open>handleLongResponse\<close>, the constant
  \<^verbatim>\<open>MAX_CONVERSATION_MESSAGES\<close>, the id that an internal message is given,
  and the text that a finished conversation is composed into are parameters.
\<close>

record env =
  env_agents :: agent_registry
  env_teams :: team_registry
  env_workspacePath :: string
  env_plugins :: "LoadedPlugin list"
  env_invoker :: invoker
  env_parseAgentRouting :: "string \<Rightarrow> agent_registry \<Rightarrow> team_registry \<Rightarrow> string \<times> string \<times> bool"
  env_extractTeammateMentions ::
    "string \<Rightarrow> string \<Rightarrow> string \<Rightarrow> team_registry \<Rightarrow> agent_registry \<Rightarrow> (string \<times> string) list"
  env_collectFiles :: "string \<Rightarrow> string list"
  env_handleLongResponse :: "string \<Rightarrow> string list \<Rightarrow> string \<times> string list"
  env_MAX_CONVERSATION_MESSAGES :: nat
  env_internalMessageId :: "string \<Rightarrow> string \<Rightarrow> string \<Rightarrow> queue_db \<Rightarrow> string"
  env_composeReply :: "agent_registry \<Rightarrow> (string \<times> string) list \<Rightarrow> string"

definition log_line :: "string \<Rightarrow> string \<Rightarrow> world \<Rightarrow> world" where
  "log_line level txt w = w\<lparr> logs := logs w @ [(level, txt)] \<rparr>"

definition emitEvent :: "string \<Rightarrow> world \<Rightarrow> world" where
  "emitEvent type w = w\<lparr> events := events w @ [type] \<rparr>"

text \<open>A JavaScript string used as a condition: null and the empty string are falsy.\<close>

definition truthy :: "string option \<Rightarrow> bool" where
  "truthy s \<longleftrightarrow> (case s of None \<Rightarrow> False | Some t \<Rightarrow> t \<noteq> [])"

text \<open>\<^verbatim>\<open>set.add(x)\<close> for each \<open>x\<close> of a list, on a set kept in insertion order.\<close>

definition add_all :: "string list \<Rightarrow> string list \<Rightarrow> string list" where
  "add_all s xs = fold (\<lambda>x acc. if x \<in> set acc then acc else acc @ [x]) xs s"

text \<open>
  Modelled from the spec: \<^verbatim>\<open>findTeamForAgent\<close> of the routing module is not
  among the sources. It gives the first team of which the agent is a member, if
  any.
\<close>

definition findTeamForAgent :: "string \<Rightarrow> team_registry \<Rightarrow> (string \<times> TeamConfig) option" where
  "findTeamForAgent agentId teams = find (\<lambda>(tid, t). agentId \<in> set (team_agents t)) teams"

text \<open>
  Modelled from the spec: \<^verbatim>\<open>incrementPending\<close> and \<^verbatim>\<open>decrementPending\<close> of
  the conversation module are not among the sources. The first adds the number
  of mentions to the pending branch counter; the second takes one from it and
  tells whether it has reached zero.
\<close>

definition incrementPending :: "Conversation \<Rightarrow> nat \<Rightarrow> Conversation" where
  "incrementPending conv n = conv\<lparr> pending := pending conv + int n \<rparr>"

definition decrementPending :: "Conversation \<Rightarrow> bool \<times> Conversation" where
  "decrementPending conv =
     (let conv' = conv\<lparr> pending := pending conv - 1 \<rparr> in (pending conv' = 0, conv'))"

text \<open>
  Modelled from the spec: \<^verbatim>\<open>enqueueInternalMessage\<close> of the conversation module
  is not among the sources. It enqueues one follow-up message for the teammate,
  tagged with the conversation id and the agent it comes from; channel, sender
  and sender id are those of the message being processed.
\<close>

definition enqueueInternalMessage ::
  "env \<Rightarrow> string \<Rightarrow> string \<Rightarrow> string \<Rightarrow> string \<Rightarrow> DbMessage \<Rightarrow> int \<Rightarrow> queue_db \<Rightarrow>
   db_error + (nat \<times> queue_db)" where
  "enqueueInternalMessage e conversationId fromAgent targetAgent msg original now d =
     enqueueMessage
       \<lparr> em_channel = channel original,
         em_sender = sender original,
         em_senderId = sender_id original,
         em_message = msg,
         em_messageId = env_internalMessageId e conversationId fromAgent targetAgent d,
         em_agent = Some targetAgent,
         em_files = None,
         em_conversationId = Some conversationId,
         em_fromAgent = Some fromAgent \<rparr>
       now d"

text \<open>
  Modelled from the spec: \<^verbatim>\<open>completeConversation\<close> of the conversation module
  is not among the sources. The reply is composed from the step responses in
  the order they were produced; the files collected are the attachments; the
  outgoing hooks are applied once to the composed text; a single response row
  is enqueued whose message id is that of the message the conversation began
  with; \<^verbatim>\<open>team_chain_end\<close> is emitted; the conversation is removed from the
  map. The agent of the response row is the leader of the team. The run of the
  hooks is the function of the plugin module: if it rejects, nothing is
  enqueued and the conversation stays in the map. \<^verbatim>\<open>processMessage\<close> calls
  \<^verbatim>\<open>completeConversation\<close> without awaiting it, so that such a rejection does
  not reach its \<^verbatim>\<open>catch\<close> block.
\<close>

definition completeConversation :: "env \<Rightarrow> Conversation \<Rightarrow> int \<Rightarrow> world \<Rightarrow> world" where
  "completeConversation e conv now w =
     (let composed = env_composeReply e (env_agents e) (conv_responses conv) in
      case runOutgoingHooks (env_plugins e) composed
             \<lparr> hc_channel = conv_channel conv, hc_sender = conv_sender conv,
               hc_messageId = conv_messageId conv,
               hc_originalMessage = conv_originalMessage conv \<rparr> of
        (Inl err, hookLogs) \<Rightarrow> w\<lparr> logs := logs w @ hookLogs \<rparr>
      | (Inr hooked, hookLogs) \<Rightarrow>
          let (rid, d') =
                enqueueResponse
                  \<lparr> er_channel = conv_channel conv,
                    er_sender = conv_sender conv,
                    er_senderId = None,
                    er_message = hr_text hooked,
                    er_originalMessage = conv_originalMessage conv,
                    er_messageId = conv_messageId conv,
                    er_agent = Some (leader_agent (snd (teamContext conv))),
                    er_files = (if conv_files conv \<noteq> [] then Some (conv_files conv) else None),
                    er_metadata = (if hr_metadata hooked \<noteq> [] then Some (hr_metadata hooked) else None) \<rparr>
                  now (db w)
          in emitEvent ''team_chain_end''
               (w\<lparr> db := d',
                   logs := logs w @ hookLogs,
                   conversations := AList.delete (conv_id conv) (conversations w) \<rparr>))"

subsection \<open>Processing one claimed message\<close>

definition apology :: string where
  "apology = ''Sorry, I encountered an error processing your request. Please check the queue logs.''"

definition undefined_agent_error :: string where
  "undefined_agent_error =
     ''Cannot read properties of undefined (reading '' @ [CHR 0x27] @ ''name'' @ [CHR 0x27] @ '')''"

text \<open>
  \<^verbatim>\<open>agents[k]\<close>: the configuration under a key of the registry. Under a name
  that the registry inherits the value is a function or the prototype, of
  which the code reads the properties of a configuration: they are undefined,
  but for the name of a function.
\<close>

definition inherited_value :: "string \<Rightarrow> AgentConfig" where
  "inherited_value k =
     \<lparr> name = (if k = ''constructor'' then ''Object'' else if k = ''__proto__'' then [] else k),
       provider = [], model = [], working_directory = [], system_prompt = None,
       prompt_file = None \<rparr>"

definition lookup_agent :: "agent_registry \<Rightarrow> string \<Rightarrow> AgentConfig option" where
  "lookup_agent agents k =
     (case map_of agents k of
        Some cfg \<Rightarrow> Some cfg
      | None \<Rightarrow> if k \<in> set Object_prototype_keys then Some (inherited_value k) else None)"

text \<open>
  Routing, with its two fallbacks. When no agent is configured at all, reading
  \<^verbatim>\<open>agent.name\<close> throws; the result is then \<open>Inl\<close> of the message of that
  error. Otherwise the result is the agent id, its configuration, the prompt
  and the flag \<^verbatim>\<open>isTeamRouted\<close>.
\<close>

definition resolve_agent ::
  "env \<Rightarrow> DbMessage \<Rightarrow> string + (string \<times> AgentConfig \<times> string \<times> bool)" where
  "resolve_agent e dbMsg =
     (let rawMessage = message dbMsg;
          agents = env_agents e;
          (agentId0, prompt0, isTeamRouted) =
            (if truthy (agent dbMsg) \<and> has_key agents (the (agent dbMsg))
             then (the (agent dbMsg), rawMessage, False)
             else env_parseAgentRouting e rawMessage agents (env_teams e));
          (agentId1, prompt1) =
            (if \<not> has_key agents agentId0 then (''default'', rawMessage)
             else (agentId0, prompt0));
          agentId2 =
            (if \<not> has_key agents agentId1
             then (case agents of [] \<Rightarrow> None | (k, cfg) # rest \<Rightarrow> Some k)
             else Some agentId1)
      in case agentId2 of
           None \<Rightarrow> Inl undefined_agent_error
         | Some agentId \<Rightarrow>
             (case lookup_agent agents agentId of
                Some cfg \<Rightarrow> Inr (agentId, cfg, prompt1, isTeamRouted)
              | None \<Rightarrow> Inl undefined_agent_error))"

definition isInternal :: "DbMessage \<Rightarrow> bool" where
  "isInternal dbMsg \<longleftrightarrow> truthy (conversation_id dbMsg)"

definition team_context_of ::
  "env \<Rightarrow> world \<Rightarrow> DbMessage \<Rightarrow> string \<Rightarrow> bool \<Rightarrow> (string \<times> TeamConfig) option" where
  "team_context_of e w dbMsg agentId isTeamRouted =
     (if isInternal dbMsg then
        (case map_of (conversations w) (the (conversation_id dbMsg)) of
           Some conv \<Rightarrow> Some (teamContext conv)
         | None \<Rightarrow> None)
      else
        (case (if isTeamRouted
               then find (\<lambda>(tid, t). leader_agent t = agentId \<and> agentId \<in> set (team_agents t))
                      (env_teams e)
               else None) of
           Some tc \<Rightarrow> Some tc
         | None \<Rightarrow> findTeamForAgent agentId (env_teams e)))"

definition getAgentResetFlag :: "string \<Rightarrow> string \<Rightarrow> string" where
  "getAgentResetFlag agentId workspacePath =
     path_join (path_join workspacePath agentId) ''reset_flag''"

text \<open>The note for an internal message while other branches are pending.\<close>

definition pending_note :: "world \<Rightarrow> DbMessage \<Rightarrow> string \<Rightarrow> string" where
  "pending_note w dbMsg prompt =
     (if isInternal dbMsg then
        (case map_of (conversations w) (the (conversation_id dbMsg)) of
           Some conv \<Rightarrow>
             let othersPending = pending conv - 1 in
             if othersPending > 0 then
               prompt @ nl @ nl @ ''------'' @ nl @ nl @ ''['' @ show_int othersPending @
               '' other teammate response(s) are still being processed and will be delivered when ready. Do not re-mention teammates who haven'' @
               [CHR 0x27] @ ''t responded yet.]''
             else prompt
         | None \<Rightarrow> prompt)
      else prompt)"

definition providerLabel :: "AgentConfig \<Rightarrow> string" where
  "providerLabel agentCfg =
     (let prov = (if provider agentCfg \<noteq> [] then provider agentCfg else ''anthropic'')
      in if prov = ''openai'' then ''Codex''
         else if prov = ''opencode'' then ''OpenCode''
         else ''Claude'')"

text \<open>
  The call of the agent with its \<^verbatim>\<open>try\<close> and \<^verbatim>\<open>catch\<close>: the response, and the
  state with the two events, the call recorded, and the error logged if there
  was one.
\<close>

definition invoke_step ::
  "env \<Rightarrow> AgentConfig \<Rightarrow> string \<Rightarrow> string \<Rightarrow> bool \<Rightarrow> world \<Rightarrow> string \<times> world" where
  "invoke_step e agentCfg agentId prompt shouldReset w =
     (let w1 = emitEvent ''chain_step_start'' w;
          w2 = w1\<lparr> invocations := invocations w1 @ [(agentId, prompt, shouldReset)] \<rparr>;
          (response, w3) =
            (case invokeAgent (env_invoker e) agentCfg agentId prompt (env_workspacePath e) shouldReset of
               Inr out \<Rightarrow> (out, w2)
             | Inl err \<Rightarrow>
                 (apology,
                  log_line ''ERROR''
                    (providerLabel agentCfg @ '' error (agent: '' @ agentId @ ''): '' @ err) w2))
      in (response, emitEvent ''chain_step_done'' w3))"

text \<open>
  \<^verbatim>\<open>s.replace(/\[send_file:\s*[^\]]+\]/g, '')\<close>: a tag is \<^verbatim>\<open>[send_file:\<close>, at
  least one character other than \<^verbatim>\<open>]\<close>, and \<^verbatim>\<open>]\<close>.
\<close>

function strip_send_file :: "string \<Rightarrow> string" where
  "strip_send_file [] = []"
| "strip_send_file (c # cs) =
     (let body = takeWhile (\<lambda>x. x \<noteq> CHR '']'') (drop 10 cs);
          after = dropWhile (\<lambda>x. x \<noteq> CHR '']'') (drop 10 cs)
      in if c = CHR ''['' \<and> take 10 cs = ''send_file:'' \<and> body \<noteq> [] \<and> after \<noteq> []
         then strip_send_file (tl after)
         else c # strip_send_file cs)"
  by pat_completeness auto
termination
proof (relation "measure length")
  show "wf (measure length)" by simp
next
  fix c :: char and cs x xa :: string
  assume "xa = dropWhile (\<lambda>x. x \<noteq> CHR '']'') (drop 10 cs)"
  then have "length (tl xa) \<le> length cs"
    by (simp add: le_diff_conv trans_le_add1 order_trans [OF length_dropWhile_le])
  then show "(tl xa, c # cs) \<in> measure length" by simp
next
  fix c :: char and cs x xa :: string
  show "(cs, c # cs) \<in> measure length" by simp
qed

text \<open>
  The reply to the user when there is no team context. The run of the outgoing
  hooks is awaited: if it rejects, the error is thrown here.
\<close>

definition direct_reply ::
  "env \<Rightarrow> DbMessage \<Rightarrow> string \<Rightarrow> string \<Rightarrow> int \<Rightarrow> world \<Rightarrow> (string \<times> world) + world" where
  "direct_reply e dbMsg agentId response now w =
     (let finalResponse0 = trim response;
          outboundFiles = add_all [] (env_collectFiles e finalResponse0);
          finalResponse =
            (if outboundFiles \<noteq> [] then trim (strip_send_file finalResponse0)
             else finalResponse0)
      in
      case runOutgoingHooks (env_plugins e) finalResponse
             \<lparr> hc_channel = channel dbMsg, hc_sender = sender dbMsg,
               hc_messageId = message_id dbMsg, hc_originalMessage = message dbMsg \<rparr> of
        (Inl err, hookLogs) \<Rightarrow> Inl (err, w\<lparr> logs := logs w @ hookLogs \<rparr>)
      | (Inr hooked, hookLogs) \<Rightarrow>
          let (responseMessage, allFiles) = env_handleLongResponse e (hr_text hooked) outboundFiles;
              (rid, d') =
                enqueueResponse
                  \<lparr> er_channel = channel dbMsg,
                    er_sender = sender dbMsg,
                    er_senderId = sender_id dbMsg,
                    er_message = responseMessage,
                    er_originalMessage = message dbMsg,
                    er_messageId = message_id dbMsg,
                    er_agent = Some agentId,
                    er_files = (if allFiles \<noteq> [] then Some allFiles else None),
                    er_metadata = (if hr_metadata hooked \<noteq> [] then Some (hr_metadata hooked) else None) \<rparr>
                  now (db w);
              w1 = emitEvent ''response_ready'' (w\<lparr> db := d', logs := logs w @ hookLogs \<rparr>)
          in Inr (w1\<lparr> db := completeMessage (rowid dbMsg) now (db w1) \<rparr>))"

text \<open>
  The loop over the mentions. An \<^verbatim>\<open>INSERT\<close> that the unique index rejects
  throws; the result is then \<open>Inl\<close> of the message and the state reached.
\<close>

fun enqueue_mentions ::
  "env \<Rightarrow> Conversation \<Rightarrow> string \<Rightarrow> DbMessage \<Rightarrow> int \<Rightarrow> (string \<times> string) list \<Rightarrow> world \<Rightarrow>
   (string \<times> world) + world" where
  "enqueue_mentions e conv agentId dbMsg now [] w = Inr w"
| "enqueue_mentions e conv agentId dbMsg now ((teammateId, msg) # rest) w =
     (let w1 = emitEvent ''chain_handoff'' w;
          internalMsg = ''[Message from teammate @'' @ agentId @ '']:'' @ nl @ msg
      in case enqueueInternalMessage e (conv_id conv) agentId teammateId internalMsg dbMsg now (db w1) of
           Inl (UniqueConstraint col) \<Rightarrow> Inl (''UNIQUE constraint failed: '' @ col, w1)
         | Inr (rid, d') \<Rightarrow> enqueue_mentions e conv agentId dbMsg now rest (w1\<lparr> db := d' \<rparr>))"

text \<open>
  A conversation is an object that the map holds by reference; here the changed
  conversation is written back under its id.
\<close>

definition store_conversation :: "Conversation \<Rightarrow> world \<Rightarrow> world" where
  "store_conversation conv w =
     w\<lparr> conversations := AList.update (conv_id conv) conv (conversations w) \<rparr>"

definition max_messages_warning :: "Conversation \<Rightarrow> string" where
  "max_messages_warning conv =
     ''Conversation '' @ conv_id conv @ '' hit max messages ('' @ show_nat (maxMessages conv) @
     '') '' @ [CHR 0xE2, CHR 0x80, CHR 0x94] @ '' not enqueuing further mentions''"

text \<open>
  The conversation that a message with a team context belongs to: the one its
  conversation id names, if the message is internal and the map has it, and
  otherwise a new one, which is put into the map.
\<close>

definition get_or_create_conversation ::
  "env \<Rightarrow> DbMessage \<Rightarrow> string \<times> TeamConfig \<Rightarrow> int \<Rightarrow> world \<Rightarrow> Conversation \<times> world" where
  "get_or_create_conversation e dbMsg tc now w =
     (case (if isInternal dbMsg then map_of (conversations w) (the (conversation_id dbMsg))
            else None) of
        Some c \<Rightarrow> (c, w)
      | None \<Rightarrow>
          let convId = message_id dbMsg @ ''_'' @ show_int now;
              c = \<lparr> conv_id = convId,
                    conv_channel = channel dbMsg,
                    conv_sender = sender dbMsg,
                    conv_originalMessage = message dbMsg,
                    conv_messageId = message_id dbMsg,
                    pending = 1,
                    conv_responses = [],
                    conv_files = [],
                    totalMessages = 0,
                    maxMessages = env_MAX_CONVERSATION_MESSAGES e,
                    teamContext = tc,
                    startTime = now,
                    outgoingMentions = [] \<rparr>
          in (c, emitEvent ''team_chain_start'' (store_conversation c w)))"

text \<open>Recording the response of the agent in the conversation.\<close>

definition record_response :: "env \<Rightarrow> Conversation \<Rightarrow> string \<Rightarrow> string \<Rightarrow> Conversation" where
  "record_response e conv agentId response =
     conv\<lparr> conv_responses := conv_responses conv @ [(agentId, response)],
           totalMessages := totalMessages conv + 1,
           conv_files := add_all (conv_files conv) (env_collectFiles e response) \<rparr>"

text \<open>
  The part of \<^verbatim>\<open>processMessage\<close> for a message with a team context, from
  getting or creating the conversation to marking the row completed.
\<close>

definition team_reply ::
  "env \<Rightarrow> DbMessage \<Rightarrow> string \<Rightarrow> string \<Rightarrow> string \<times> TeamConfig \<Rightarrow> int \<Rightarrow> world \<Rightarrow>
   (string \<times> world) + world" where
  "team_reply e dbMsg agentId response tc now w =
     (let (conv0, w1) = get_or_create_conversation e dbMsg tc now w;
          conv1 = record_response e conv0 agentId response;
          teammateMentions =
            env_extractTeammateMentions e response agentId (fst (teamContext conv1))
              (env_teams e) (env_agents e)
      in
      case (if teammateMentions \<noteq> [] \<and> totalMessages conv1 < maxMessages conv1 then
              (let conv2 = (incrementPending conv1 (length teammateMentions))
                             \<lparr> outgoingMentions :=
                                 AList.update agentId (length teammateMentions)
                                   (outgoingMentions conv1) \<rparr>
               in case enqueue_mentions e conv2 agentId dbMsg now teammateMentions w1 of
                    Inl (err, w2) \<Rightarrow> Inl (err, conv2, w2)
                  | Inr w2 \<Rightarrow> Inr (conv2, w2))
            else if teammateMentions \<noteq> [] then
              Inr (conv1, log_line ''WARN'' (max_messages_warning conv1) w1)
            else Inr (conv1, w1)) of
        Inl (err, conv2, w2) \<Rightarrow> Inl (err, store_conversation conv2 w2)
      | Inr (conv2, w2) \<Rightarrow>
          let (shouldComplete, conv3) = decrementPending conv2;
              w3 = store_conversation conv3 w2;
              w4 = (if shouldComplete then completeConversation e conv3 now w3 else w3)
          in Inr (w4\<lparr> db := completeMessage (rowid dbMsg) now (db w4) \<rparr>))"

text \<open>
  Between routing and the call of the agent: the reset flag of the agent is
  looked for and consumed, the note on pending branches is appended, and the
  incoming hooks are run. The result is the prompt, the flag
  \<^verbatim>\<open>shouldReset\<close> and the state, or the error with which the run of the
  hooks rejects and the state then.
\<close>

definition prepare_invocation ::
  "env \<Rightarrow> DbMessage \<Rightarrow> string \<Rightarrow> string \<Rightarrow> world \<Rightarrow>
   (string \<times> world) + (string \<times> bool \<times> world)" where
  "prepare_invocation e dbMsg agentId prompt0 w =
     (let agentResetFlag = getAgentResetFlag agentId (env_workspacePath e);
          shouldReset = (agentResetFlag \<in> set (reset_flags w));
          w2 = (if shouldReset
                then w\<lparr> reset_flags := removeAll agentResetFlag (reset_flags w) \<rparr>
                else w);
          prompt1 = pending_note w2 dbMsg prompt0
      in
      case runIncomingHooks (env_plugins e) prompt1
             \<lparr> hc_channel = channel dbMsg, hc_sender = sender dbMsg,
               hc_messageId = message_id dbMsg, hc_originalMessage = message dbMsg \<rparr> of
        (Inl err, inLogs) \<Rightarrow> Inl (err, w2\<lparr> logs := logs w2 @ inLogs \<rparr>)
      | (Inr hookedIn, inLogs) \<Rightarrow> Inr (hr_text hookedIn, shouldReset, w2\<lparr> logs := logs w2 @ inLogs \<rparr>))"

text \<open>
  The body of the \<^verbatim>\<open>try\<close> block: \<open>Inl\<close> is an error thrown, with the state
  reached when it was thrown. One call is taken on its own, with one reading of
  the clock; the listener that reacts to \<^verbatim>\<open>message:enqueued\<close> and other calls
  that run between the \<^verbatim>\<open>await\<close>s are not part of it.
\<close>

definition processMessage_body :: "env \<Rightarrow> DbMessage \<Rightarrow> int \<Rightarrow> world \<Rightarrow> (string \<times> world) + world" where
  "processMessage_body e dbMsg now w =
     (let w0 = (if \<not> isInternal dbMsg then emitEvent ''message_received'' w else w) in
      case resolve_agent e dbMsg of
        Inl err \<Rightarrow> Inl (err, w0)
      | Inr (agentId, agentCfg, prompt0, isTeamRouted) \<Rightarrow>
          let w1 = (if \<not> isInternal dbMsg then emitEvent ''agent_routed'' w0 else w0);
              tc = team_context_of e w1 dbMsg agentId isTeamRouted
          in case prepare_invocation e dbMsg agentId prompt0 w1 of
               Inl (err, w3) \<Rightarrow> Inl (err, w3)
             | Inr (prompt, shouldReset, w3) \<Rightarrow>
                 let (response, w4) = invoke_step e agentCfg agentId prompt shouldReset w3
                 in case tc of
                      None \<Rightarrow> direct_reply e dbMsg agentId response now w4
                    | Some t \<Rightarrow> team_reply e dbMsg agentId response t now w4)"

definition processMessage :: "env \<Rightarrow> DbMessage \<Rightarrow> int \<Rightarrow> world \<Rightarrow> world" where
  "processMessage e dbMsg now w =
     (case processMessage_body e dbMsg now w of
        Inr w' \<Rightarrow> w'
      | Inl (err, w') \<Rightarrow>
          let w'' = log_line ''ERROR'' (''Processing error: '' @ err) w'
          in w''\<lparr> db := failMessage (rowid dbMsg) err now (db w'') \<rparr>)"

text \<open>
  What \<^verbatim>\<open>processQueue\<close> does for one agent with pending work: it claims the
  next message of the agent and, if there is one, has it processed.
\<close>

definition dispatch :: "env \<Rightarrow> string \<Rightarrow> int \<Rightarrow> world \<Rightarrow> world" where
  "dispatch e agentId now w =
     (case claimNextMessage agentId now (db w) of
        (None, d') \<Rightarrow> w
      | (Some dbMsg, d') \<Rightarrow> processMessage e dbMsg now (w\<lparr> db := d' \<rparr>))"

subsection \<open>Notions for stating the properties\<close>

text \<open>The line that a failed call of the agent adds to the log, if it fails.\<close>

definition invoke_log :: "env \<Rightarrow> AgentConfig \<Rightarrow> string \<Rightarrow> string \<Rightarrow> bool \<Rightarrow> log_entry list" where
  "invoke_log e cfg aid p r =
     (case invokeAgent (env_invoker e) cfg aid p (env_workspacePath e) r of
        Inr out \<Rightarrow> []
      | Inl err \<Rightarrow> [(''ERROR'', providerLabel cfg @ '' error (agent: '' @ aid @ ''): '' @ err)])"

text \<open>The run of the outgoing hooks when a conversation is completed.\<close>

definition completion_hooks :: "env \<Rightarrow> Conversation \<Rightarrow> hooks_run" where
  "completion_hooks e c =
     runOutgoingHooks (env_plugins e) (env_composeReply e (env_agents e) (conv_responses c))
       \<lparr> hc_channel = conv_channel c, hc_sender = conv_sender c,
         hc_messageId = conv_messageId c, hc_originalMessage = conv_originalMessage c \<rparr>"

text \<open>The run of the outgoing hooks in a direct reply to the response \<open>resp\<close>.\<close>

definition reply_hooks :: "env \<Rightarrow> DbMessage \<Rightarrow> string \<Rightarrow> hooks_run" where
  "reply_hooks e dbMsg resp =
     runOutgoingHooks (env_plugins e)
       (if add_all [] (env_collectFiles e (trim resp)) \<noteq> [] then trim (strip_send_file (trim resp))
        else trim resp)
       \<lparr> hc_channel = channel dbMsg, hc_sender = sender dbMsg,
         hc_messageId = message_id dbMsg, hc_originalMessage = message dbMsg \<rparr>"

text \<open>
  A router for the examples, the module of the router not being among the
  sources: the prefix routing of the older queue processor, which does not look
  at the teams and sets no \<^verbatim>\<open>isTeam\<close> flag.
\<close>

definition legacy_routing ::
  "case_mapping \<Rightarrow> string \<Rightarrow> agent_registry \<Rightarrow> team_registry \<Rightarrow> string \<times> string \<times> bool" where
  "legacy_routing lc rawMessage agents teams =
     (case parseAgentRouting lc rawMessage agents of (agentId, msg) \<Rightarrow> (agentId, msg, False))"

text \<open>The state in which the \<^verbatim>\<open>try\<close> block ends, whether it threw or not.\<close>

definition final_world :: "(string \<times> world) + world \<Rightarrow> world" where
  "final_world x = (case x of Inl (err, w') \<Rightarrow> w' | Inr w' \<Rightarrow> w')"

section \<open>The queue processor with the file queue\<close>

text \<open>
  The older queue processor keeps the queue in three directories and routes
  with \<^verbatim>\<open>parseAgentRouting\<close> of its own file. Its \<^verbatim>\<open>runCommand\<close>,
  \<^verbatim>\<open>resolveClaudeModel\<close>, \<^verbatim>\<open>resolveCodexModel\<close> and \<^verbatim>\<open>getAgentResetFlag\<close>
  are the functions above.
\<close>

record MessageData =
  md_channel :: string
  md_sender :: string
  md_senderId :: "string option"
  md_message :: string
  md_timestamp :: int
  md_messageId :: string
  md_agent :: "string option"
  md_files :: "string list option"

record ResponseData =
  rd_channel :: string
  rd_sender :: string
  rd_message :: string
  rd_originalMessage :: string
  rd_timestamp :: int
  rd_messageId :: string
  rd_agent :: "string option"
  rd_files :: "string list option"

text \<open>
  What a file of the queue holds: a message, or something else, for which
  reading the file, parsing it or taking the text of the message throws an error
  with the message given.
\<close>

datatype queue_file = Holds MessageData | Unreadable string

text \<open>
  The part of the file system that \<^verbatim>\<open>processMessage\<close> works on: the files of
  the directories \<^verbatim>\<open>incoming\<close> and \<^verbatim>\<open>processing\<close> by their base names, the
  response files written to \<^verbatim>\<open>outgoing\<close> by their names, and the other paths
  that exist (reset flags, the directories of the teams, files that a response
  refers to); with it the lines of level \<^verbatim>\<open>ERROR\<close> written to the log and the
  subprocesses started, each with the command, the arguments and the working
  directory.
\<close>

record file_queue =
  incoming :: "(string \<times> queue_file) list"
  processing :: "(string \<times> queue_file) list"
  outgoing :: "(string \<times> ResponseData) list"
  existing :: "string list"
  fq_logs :: "log_entry list"
  spawned :: "(string \<times> arg list \<times> string) list"

text \<open>
  What \<^verbatim>\<open>processMessage\<close> takes from its surroundings: the registry that
  \<^verbatim>\<open>getAgents\<close> returns for the settings as they are at the call, which is
  never empty; the workspace path; the subprocesses; the constants
  \<^verbatim>\<open>SCRIPT_DIR\<close> and \<^verbatim>\<open>RESET_FLAG\<close>; the paths that
  \<^verbatim>\<open>ensureTeamDirectory\<close> creates below a new directory when it copies the
  templates; the reading of a line of Codex output; the message of the error
  that \<^verbatim>\<open>renameSync\<close> throws for a file that is not there; and the engine's \<^verbatim>\<open>toLowerCase\<close>, \<^verbatim>\<open>length\<close> and
  \<^verbatim>\<open>substring(0, n)\<close>, the last two counting in UTF-16 code units.
\<close>

record fq_env =
  fq_agents :: agent_registry
  fq_workspacePath :: string
  fq_spawn :: spawner
  fq_SCRIPT_DIR :: string
  fq_RESET_FLAG :: string
  fq_templates :: "string \<Rightarrow> string list"
  fq_codex_line :: "string \<Rightarrow> string option"
  fq_rename_error :: "string \<Rightarrow> string"
  fq_toLowerCase :: case_mapping
  fq_length :: "string \<Rightarrow> nat"
  fq_substring :: "string \<Rightarrow> nat \<Rightarrow> string"

text \<open>
  The paths in the tags \<^verbatim>\<open>[send_file: path]\<close> of a response, in order: group 1
  of each match of \<^verbatim>\<open>/\[send_file:\s*([^\]]+)\]/g\<close>, trimmed. A tag is
  \<^verbatim>\<open>[send_file:\<close>, at least one character other than \<^verbatim>\<open>]\<close>, and \<^verbatim>\<open>]\<close>;
  group 1 is what stands between, without the white space it begins with, or
  the last character of that if there is nothing else: trimmed, it is what
  stands between, trimmed.
\<close>

function send_file_paths :: "string \<Rightarrow> string list" where
  "send_file_paths [] = []"
| "send_file_paths (c # cs) =
     (let body = takeWhile (\<lambda>x. x \<noteq> CHR '']'') (drop 10 cs);
          after = dropWhile (\<lambda>x. x \<noteq> CHR '']'') (drop 10 cs)
      in if c = CHR ''['' \<and> take 10 cs = ''send_file:'' \<and> body \<noteq> [] \<and> after \<noteq> []
         then trim body # send_file_paths (tl after)
         else send_file_paths cs)"
  by pat_completeness auto
termination
proof (relation "measure length")
  show "wf (measure length)" by simp
next
  fix c :: char and cs x xa :: string
  assume "xa = dropWhile (\<lambda>x. x \<noteq> CHR '']'') (drop 10 cs)"
  then have "length (tl xa) \<le> length cs"
    by (simp add: le_diff_conv trans_le_add1 order_trans [OF length_dropWhile_le])
  then show "(tl xa, c # cs) \<in> measure length" by simp
next
  fix c :: char and cs x xa :: string
  show "(cs, c # cs) \<in> measure length" by simp
qed

text \<open>
  The reply for several targets: the response file has the base name of the
  message file; the file in \<^verbatim>\<open>processing\<close> is removed; no agent is called.
\<close>

definition easter_egg_reply ::
  "string \<Rightarrow> MessageData \<Rightarrow> string \<Rightarrow> int \<Rightarrow> file_queue \<Rightarrow> file_queue" where
  "easter_egg_reply f messageData msg now w =
     (let responseData =
            \<lparr> rd_channel = md_channel messageData,
              rd_sender = md_sender messageData,
              rd_message = msg,
              rd_originalMessage = md_message messageData,
              rd_timestamp = now,
              rd_messageId = md_messageId messageData,
              rd_agent = None,
              rd_files = None \<rparr>
      in w\<lparr> outgoing := AList.update f responseData (outgoing w),
            processing := AList.delete f (processing w) \<rparr>)"

text \<open>
  The call of the provider with its \<^verbatim>\<open>try\<close> and \<^verbatim>\<open>catch\<close>: the response, and
  the state with the subprocess recorded and the error logged if there was one.
\<close>

definition call_provider ::
  "fq_env \<Rightarrow> AgentConfig \<Rightarrow> string \<Rightarrow> string \<Rightarrow> string \<Rightarrow> bool \<Rightarrow> file_queue \<Rightarrow>
   string \<times> file_queue" where
  "call_provider e agentCfg agentId msg workingDir shouldReset w =
     (let prov = (if provider agentCfg \<noteq> [] then provider agentCfg else ''anthropic'');
          command = (if prov = ''openai'' then ''codex'' else ''claude'');
          args =
            (if prov = ''openai'' then
               (let modelId = resolveCodexModel (model agentCfg) in
                [Str ''exec''] @
                (if \<not> shouldReset then [Str ''resume'', Str ''--last''] else []) @
                (if arg_truthy modelId then [Str ''--model'', modelId] else []) @
                [Str ''--skip-git-repo-check'', Str ''--dangerously-bypass-approvals-and-sandbox'',
                 Str ''--json'', Str msg])
             else
               (let modelId = resolveClaudeModel (model agentCfg) in
                [Str ''--dangerously-skip-permissions''] @
                (if arg_truthy modelId then [Str ''--model'', modelId] else []) @
                (if \<not> shouldReset then [Str ''-c''] else []) @
                [Str ''-p'', Str msg]));
          w1 = w\<lparr> spawned := spawned w @
                   [(command, args, if workingDir = [] then fq_SCRIPT_DIR e else workingDir)] \<rparr>
      in case runCommand (fq_spawn e) (fq_SCRIPT_DIR e) command args (Some workingDir) of
           Inl err \<Rightarrow>
             (''Sorry, I encountered an error processing your request. Please check the queue logs.'',
              w1\<lparr> fq_logs := fq_logs w1 @
                     [(''ERROR'', (if prov = ''openai'' then ''Codex'' else ''Claude'') @
                                 '' error (agent: '' @ agentId @ ''): '' @ err)] \<rparr>)
         | Inr out \<Rightarrow>
             (if prov = ''openai'' then
                (let response = last_line_text (fq_codex_line e) out
                 in if response \<noteq> [] then response
                    else ''Sorry, I could not generate a response from Codex.'')
              else out,
              w1))"

text \<open>
  From the response to the response file. The clock is read for the time
  stamp and again for the name of the file.
\<close>

definition write_response ::
  "fq_env \<Rightarrow> string \<Rightarrow> MessageData \<Rightarrow> string \<Rightarrow> string \<Rightarrow> int \<Rightarrow> int \<Rightarrow> file_queue \<Rightarrow> file_queue" where
  "write_response e f messageData agentId response0 now1 now2 w =
     (let response1 = trim response0;
          outboundFiles =
            add_all [] (filter (\<lambda>filePath. filePath \<in> set (existing w)) (send_file_paths response1));
          response2 = (if outboundFiles \<noteq> [] then trim (strip_send_file response1) else response1);
          response3 =
            (if fq_length e response2 > 4000
             then fq_substring e response2 3900 @ nl @ nl @ ''[Response truncated...]''
             else response2);
          responseData =
            \<lparr> rd_channel = md_channel messageData,
              rd_sender = md_sender messageData,
              rd_message = response3,
              rd_originalMessage = md_message messageData,
              rd_timestamp = now1,
              rd_messageId = md_messageId messageData,
              rd_agent = Some agentId,
              rd_files = (if outboundFiles \<noteq> [] then Some outboundFiles else None) \<rparr>;
          responseFile =
            (if md_channel messageData = ''heartbeat'' then md_messageId messageData @ ''.json''
             else md_channel messageData @ ''_'' @ md_messageId messageData @ ''_'' @
                  show_int now2 @ ''.json'')
      in w\<lparr> outgoing := AList.update responseFile responseData (outgoing w),
            processing := AList.delete f (processing w) \<rparr>)"

text \<open>
  The body of the \<^verbatim>\<open>try\<close> block of \<^verbatim>\<open>processMessage\<close> for the file with the
  base name \<open>f\<close> in \<^verbatim>\<open>incoming\<close>: \<open>Inl\<close> is an error thrown, with the state
  reached when it was thrown.
\<close>

definition processMessage_try ::
  "fq_env \<Rightarrow> string \<Rightarrow> int \<Rightarrow> int \<Rightarrow> file_queue \<Rightarrow> (string \<times> file_queue) + file_queue" where
  "processMessage_try e f now1 now2 w =
     (case map_of (incoming w) f of
        None \<Rightarrow> Inl (fq_rename_error e f, w)
      | Some content \<Rightarrow>
          let w1 = w\<lparr> incoming := AList.delete f (incoming w),
                      processing := AList.update f content (processing w) \<rparr>
          in case content of
               Unreadable err \<Rightarrow> Inl (err, w1)
             | Holds messageData \<Rightarrow>
                 let rawMessage = md_message messageData;
                     agents = fq_agents e;
                     (agentId0, message0) =
                       (if truthy (md_agent messageData) \<and> has_key agents (the (md_agent messageData))
                        then (the (md_agent messageData), rawMessage)
                        else parseAgentRouting (fq_toLowerCase e) rawMessage agents)
                 in if agentId0 = ''error'' then Inr (easter_egg_reply f messageData message0 now1 w1)
                    else
                      let (agentId1, message1) =
                            (if \<not> has_key agents agentId0 then (''default'', rawMessage)
                             else (agentId0, message0));
                          agentId2 =
                            (if \<not> has_key agents agentId1
                             then (case agents of [] \<Rightarrow> None | (k, cfg) # rest \<Rightarrow> Some k)
                             else Some agentId1)
                      in case (case agentId2 of
                                 None \<Rightarrow> None
                               | Some agentId \<Rightarrow>
                                   (case lookup_agent agents agentId of
                                      None \<Rightarrow> None
                                    | Some agentCfg \<Rightarrow> Some (agentId, agentCfg))) of
                           None \<Rightarrow> Inl (undefined_agent_error, w1)
                         | Some (agentId, agentCfg) \<Rightarrow>
                             let teamDir = path_join (fq_workspacePath e) agentId;
                                 w2 = (if teamDir \<in> set (existing w1) then w1
                                       else w1\<lparr> existing := existing w1 @ [teamDir] @
                                                             fq_templates e teamDir \<rparr>);
                                 workingDir =
                                   (if working_directory agentCfg \<noteq> []
                                    then (if path_isAbsolute (working_directory agentCfg)
                                          then working_directory agentCfg
                                          else path_join (fq_workspacePath e) (working_directory agentCfg))
                                    else teamDir);
                                 agentResetFlag = getAgentResetFlag agentId (fq_workspacePath e);
                                 shouldReset = (fq_RESET_FLAG e \<in> set (existing w2) \<or>
                                                agentResetFlag \<in> set (existing w2));
                                 w3 = (if shouldReset
                                       then w2\<lparr> existing :=
                                                 removeAll agentResetFlag
                                                   (removeAll (fq_RESET_FLAG e) (existing w2)) \<rparr>
                                       else w2);
                                 (response, w4) =
                                   call_provider e agentCfg agentId message1 workingDir shouldReset w3
                             in Inr (write_response e f messageData agentId response now1 now2 w4))"

text \<open>
  \<^verbatim>\<open>processMessage\<close>, with its \<^verbatim>\<open>catch\<close> block: the error is logged, and the
  file, if it is in \<^verbatim>\<open>processing\<close>, is moved back to \<^verbatim>\<open>incoming\<close>.
\<close>

definition processMessage_file_queue ::
  "fq_env \<Rightarrow> string \<Rightarrow> int \<Rightarrow> int \<Rightarrow> file_queue \<Rightarrow> file_queue" where
  "processMessage_file_queue e f now1 now2 w =
     (case processMessage_try e f now1 now2 w of
        Inr w' \<Rightarrow> w'
      | Inl (err, w') \<Rightarrow>
          let w'' = w'\<lparr> fq_logs := fq_logs w' @ [(''ERROR'', ''Processing error: '' @ err)] \<rparr>
          in case map_of (processing w'') f of
               None \<Rightarrow> w''
             | Some content \<Rightarrow>
                 w''\<lparr> processing := AList.delete f (processing w''),
                       incoming := AList.update f content (incoming w'') \<rparr>)"

subsection \<open>Sample queue\<close>

definition ex_fq_env :: "proc_result \<Rightarrow> fq_env" where
  "ex_fq_env res =
     \<lparr> fq_agents = ex_agents,
       fq_workspacePath = ''/ws'',
       fq_spawn = (\<lambda>command args cwd. res),
       fq_SCRIPT_DIR = ''/opt/tinyclaw'',
       fq_RESET_FLAG = ''/home/.tinyclaw/reset_flag'',
       fq_templates = (\<lambda>dir. []),
       fq_codex_line = (\<lambda>line. None),
       fq_rename_error = (\<lambda>f. ''ENOENT: no such file or directory, rename '' @ f),
       fq_toLowerCase = ascii_toLowerCase,
       fq_length = length,
       fq_substring = (\<lambda>s n. take n s) \<rparr>"

definition ex_message_data :: "string \<Rightarrow> MessageData" where
  "ex_message_data body =
     \<lparr> md_channel = ''telegram'', md_sender = ''Alice'', md_senderId = Some ''42'',
       md_message = body, md_timestamp = 1000, md_messageId = ''m1'', md_agent = None,
       md_files = None \<rparr>"

text \<open>The queue with one message in \<^verbatim>\<open>incoming\<close>.\<close>

definition ex_file_queue :: "string \<Rightarrow> file_queue" where
  "ex_file_queue body =
     \<lparr> incoming = [(''telegram_m1.json'', Holds (ex_message_data body))], processing = [],
       outgoing = [], existing = [], fq_logs = [], spawned = [] \<rparr>"
subsection \<open>Sample environment\<close>

definition ex_invoker :: "proc_result \<Rightarrow> invoker" where
  "ex_invoker res =
     \<lparr> inv_spawn = (\<lambda>command args cwd. res),
       inv_SCRIPT_DIR = ''/opt/tinyclaw'',
       inv_prepare = (\<lambda>dir. None),
       inv_codex_line = (\<lambda>line. None),
       inv_opencode_line = (\<lambda>line. None) \<rparr>"

definition ex_env :: "proc_result \<Rightarrow> env" where
  "ex_env res =
     \<lparr> env_agents = ex_agents,
       env_teams = [],
       env_workspacePath = ''/ws'',
       env_plugins = [],
       env_invoker = ex_invoker res,
       env_parseAgentRouting = legacy_routing ascii_toLowerCase,
       env_extractTeammateMentions = (\<lambda>response agentId teamId teams agents. []),
       env_collectFiles = (\<lambda>response. []),
       env_handleLongResponse = (\<lambda>response fs. (response, fs)),
       env_MAX_CONVERSATION_MESSAGES = 20,
       env_internalMessageId =
         (\<lambda>conversationId fromAgent targetAgent d.
            conversationId @ ''_'' @ targetAgent @ ''_'' @ replicate (length (messages d)) CHR ''i''),
       env_composeReply = (\<lambda>agents steps. concat (map snd steps)) \<rparr>"

definition ex_world :: "queue_db \<Rightarrow> world" where
  "ex_world d = \<lparr> db = d, conversations = [], reset_flags = [], logs = [], events = [],
                  invocations = [] \<rparr>"

definition ex_incoming :: "string \<Rightarrow> EnqueueMessageData" where
  "ex_incoming body =
     \<lparr> em_channel = ''telegram'', em_sender = ''Alice'', em_senderId = Some ''42'',
       em_message = body, em_messageId = ''m1'', em_agent = None, em_files = None,
       em_conversationId = None, em_fromAgent = None \<rparr>"

text \<open>The queue after one message with the text \<open>body\<close> has come in at time 1000.\<close>

definition ex_queue :: "string \<Rightarrow> queue_db" where
  "ex_queue body =
     (case enqueueMessage (ex_incoming body) 1000 empty_db of
        Inl err \<Rightarrow> empty_db
      | Inr (rid, d) \<Rightarrow> d)"

text \<open>
  A team of three whose agents answer every prompt with the same text, which
  mentions all three; the mentions taken from it are those of the two
  teammates of the agent that answered.
\<close>

definition ex_team_agents :: agent_registry where
  "ex_team_agents =
     [(''coder'', ex_agent ''Coder''), (''writer'', ex_agent ''Writer''),
      (''reviewer'', ex_agent ''Reviewer'')]"

definition ex_dev_team :: TeamConfig where
  "ex_dev_team = \<lparr> team_name = ''Dev'', team_agents = [''coder'', ''writer'', ''reviewer''],
                   leader_agent = ''coder'' \<rparr>"

definition ex_fanout_text :: string where
  "ex_fanout_text = ''[@coder: go] [@writer: go] [@reviewer: go]''"

definition ex_team_env :: env where
  "ex_team_env =
     (ex_env (Closes (Some 0) ex_fanout_text []))
       \<lparr> env_agents := ex_team_agents,
         env_teams := [(''dev'', ex_dev_team)],
         env_extractTeammateMentions :=
           (\<lambda>response agentId teamId teams agents.
              if response = ex_fanout_text
              then map (\<lambda>m. (m, ''go'')) (filter (\<lambda>m. m \<noteq> agentId) [''coder'', ''writer'', ''reviewer''])
              else []) \<rparr>"

text \<open>Dispatching for a list of agents in turn, the clock advancing by one each time.\<close>

fun dispatch_all :: "env \<Rightarrow> string list \<Rightarrow> int \<Rightarrow> world \<Rightarrow> world" where
  "dispatch_all e [] now w = w"
| "dispatch_all e (a # as) now w = dispatch_all e as (now + 1) (dispatch e a now w)"

text \<open>
  The queue after a message has come in at time 1000 that the channel client
  has routed to \<^verbatim>\<open>coder\<close>.
\<close>

definition ex_routed_queue :: queue_db where
  "ex_routed_queue =
     (case enqueueMessage ((ex_incoming ''fix the login bug'')\<lparr> em_agent := Some ''coder'' \<rparr>)
             1000 empty_db of
        Inl err \<Rightarrow> empty_db
      | Inr (rid, d) \<Rightarrow> d)"

text \<open>
  A conversation of the sample team one step below its bound, with three
  branches pending, and an internal message of it, claimed by \<^verbatim>\<open>writer\<close>.
\<close>

definition ex_conv :: Conversation where
  "ex_conv =
     \<lparr> conv_id = ''m1_2000'', conv_channel = ''telegram'', conv_sender = ''Alice'',
       conv_originalMessage = ''@coder build it'', conv_messageId = ''m1'', pending = 3,
       conv_responses = [], conv_files = [], totalMessages = 19, maxMessages = 20,
       teamContext = (''dev'', ex_dev_team), startTime = 2000, outgoingMentions = [] \<rparr>"

definition ex_internal :: DbMessage where
  "ex_internal =
     (ex_row 7 ''m1_2000_writer_i'' (Some ''writer'') Processing 0 2001 2002 (Some ''writer''))
       \<lparr> conversation_id := Some ''m1_2000'', from_agent := Some ''coder'' \<rparr>"

definition ex_team_world :: world where
  "ex_team_world =
     \<lparr> db = \<lparr> messages = [ex_internal], messages_seq = 7, responses = [], responses_seq = 0 \<rparr>,
       conversations = [(''m1_2000'', ex_conv)], reset_flags = [], logs = [], events = [],
       invocations = [] \<rparr>"

definition ex_steps :: "string list" where
  "ex_steps =
     [''default'', ''writer'', ''reviewer'', ''coder'', ''writer'', ''reviewer'', ''coder'',
      ''writer'', ''reviewer'', ''coder'', ''writer'', ''reviewer'', ''coder'', ''writer'',
      ''reviewer'', ''coder'', ''writer'', ''reviewer'', ''coder'', ''writer'', ''reviewer'']"


text \<open>The same conversation with one branch pending, the one of that message.\<close>

definition ex_last_world :: world where
  "ex_last_world = ex_team_world\<lparr> conversations := [(''m1_2000'', ex_conv\<lparr> pending := 1 \<rparr>)] \<rparr>"
section \<open>Properties of the queue store\<close>

subsection \<open>Rows, keys and updates\<close>

lemma distinct_key_index:
  assumes "distinct (map k rows)" and "i < length rows" and "j < length rows"
    and "k (rows ! i) = k (rows ! j)"
  shows "i = j"
  using assms nth_eq_iff_index_eq [of "map k rows" i j] by simp

lemma update_where_nth:
  "i < length rows \<Longrightarrow>
   update_where p f rows ! i = (if p (rows ! i) then f (rows ! i) else rows ! i)"
  by (simp add: update_where_def)

lemma update_where_set:
  "r \<in> set (update_where p f rows) \<Longrightarrow> (\<exists>r0\<in>set rows. r = (if p r0 then f r0 else r0))"
  by (auto simp: update_where_def)

lemma update_where_distinct:
  assumes "distinct (map k rows)" and "i < length rows"
  shows "update_where (\<lambda>x. k x = k (rows ! i)) f rows = rows[i := f (rows ! i)]"
proof (rule nth_equalityI)
  show "length (update_where (\<lambda>x. k x = k (rows ! i)) f rows) = length (rows[i := f (rows ! i)])"
    by (simp add: update_where_def)
next
  fix j assume "j < length (update_where (\<lambda>x. k x = k (rows ! i)) f rows)"
  then have j: "j < length rows" by (simp add: update_where_def)
  have "k (rows ! j) = k (rows ! i) \<longleftrightarrow> j = i"
    using distinct_key_index [OF assms(1) j assms(2)] by blast
  then show "update_where (\<lambda>x. k x = k (rows ! i)) f rows ! j = rows[i := f (rows ! i)] ! j"
    using j assms(2) by (simp add: update_where_def nth_list_update)
qed

lemma update_where_twice:
  "(\<And>r. p r \<Longrightarrow> p (f r)) \<Longrightarrow> (\<And>r. p r \<Longrightarrow> g (f r) = g r) \<Longrightarrow>
   update_where p g (update_where p f rows) = update_where p g rows"
  by (induction rows) (auto simp: update_where_def)

lemma update_where_invariant:
  assumes "\<forall>r\<in>set rows. I r" and "\<And>r. I r \<Longrightarrow> p r \<Longrightarrow> I (f r)"
  shows "\<forall>r\<in>set (update_where p f rows). I r"
  using assms by (auto simp: update_where_def)

lemma changes_card: "changes p rows = card {i. i < length rows \<and> p (rows ! i)}"
  by (simp add: changes_def length_filter_conv_card)

lemma find_distinct:
  assumes "distinct (map k rows)" and "i < length rows"
  shows "find (\<lambda>x. k x = k (rows ! i)) rows = Some (rows ! i)"
proof -
  have "\<And>j. j < i \<Longrightarrow> k (rows ! j) \<noteq> k (rows ! i)"
  proof -
    fix j assume "j < i"
    then have "j < length rows" "j \<noteq> i" using assms(2) by auto
    then show "k (rows ! j) \<noteq> k (rows ! i)"
      using distinct_key_index [OF assms(1) _ assms(2), of j] by blast
  qed
  then show ?thesis
    unfolding find_Some_iff using assms(2) by blast
qed

subsection \<open>Claiming\<close>

lemma select_oldest_None:
  "select_oldest A rows = None \<longleftrightarrow> (\<forall>r\<in>set rows. \<not> claim_where A r)"
proof -
  have "sort_key created_at (filter (claim_where A) rows) = [] \<longleftrightarrow>
        filter (claim_where A) rows = []"
    by (metis set_empty set_sort)
  then show ?thesis
    by (auto simp: select_oldest_def filter_empty_conv split: list.splits)
qed

lemma select_oldest_Some:
  assumes "select_oldest A rows = Some r"
  shows "r \<in> set rows \<and> claim_where A r \<and>
         (\<forall>r'\<in>set rows. claim_where A r' \<longrightarrow> created_at r \<le> created_at r')"
proof -
  let ?c = "filter (claim_where A) rows"
  from assms obtain rest where s: "sort_key created_at ?c = r # rest"
    by (auto simp: select_oldest_def split: list.splits)
  have "set (sort_key created_at ?c) = set ?c" by simp
  with s have mem: "r \<in> set ?c" by (metis list.set_intros(1))
  have "sorted (map created_at (sort_key created_at ?c))" by (rule sorted_sort_key)
  with s have "\<forall>x\<in>set rest. created_at r \<le> created_at x" by simp
  moreover have "set ?c = insert r (set rest)" using s by (metis list.simps(15) set_sort)
  ultimately have "\<forall>x\<in>set ?c. created_at r \<le> created_at x" by auto
  with mem show ?thesis by auto
qed

text \<open>
  What one claim does to a table with distinct keys: nothing when no pending
  row is addressed to the agent; otherwise one row \<open>i\<close>, pending, addressed to
  the agent and no younger than any other such row, is rewritten.
\<close>

lemma claimNextMessage_effect:
  assumes "distinct (map rowid (messages d))"
  shows "(claimNextMessage A now d = (None, d) \<and>
          (\<forall>r\<in>set (messages d). \<not> claim_where A r)) \<or>
         (\<exists>i<length (messages d).
            claim_where A (messages d ! i) \<and>
            (\<forall>r'\<in>set (messages d). claim_where A r' \<longrightarrow>
               created_at (messages d ! i) \<le> created_at r') \<and>
            claimNextMessage A now d =
              (Some ((messages d ! i)\<lparr> status := Processing, claimed_by := Some A \<rparr>),
               d\<lparr> messages := (messages d)
                    [i := (messages d ! i)\<lparr> status := Processing, claimed_by := Some A,
                                           updated_at := now \<rparr>] \<rparr>))"
proof (cases "select_oldest A (messages d)")
  case None
  then show ?thesis
    using select_oldest_None [of A "messages d"] by (simp add: claimNextMessage_def)
next
  case (Some r)
  from select_oldest_Some [OF Some]
  have mem: "r \<in> set (messages d)" and cw: "claim_where A r"
    and least: "\<forall>r'\<in>set (messages d). claim_where A r' \<longrightarrow> created_at r \<le> created_at r'"
    by auto
  from mem obtain i where i: "i < length (messages d)" "messages d ! i = r"
    by (auto simp: in_set_conv_nth)
  have upd: "update_where (\<lambda>x. rowid x = rowid r)
               (\<lambda>r. r\<lparr> status := Processing, claimed_by := Some A, updated_at := now \<rparr>)
               (messages d)
             = (messages d)[i := r\<lparr> status := Processing, claimed_by := Some A,
                                    updated_at := now \<rparr>]"
    using update_where_distinct [OF assms i(1)] i(2) by simp
  have "claimNextMessage A now d =
          (Some (r\<lparr> status := Processing, claimed_by := Some A \<rparr>),
           d\<lparr> messages := (messages d)
                [i := r\<lparr> status := Processing, claimed_by := Some A, updated_at := now \<rparr>] \<rparr>)"
    using Some upd by (simp add: claimNextMessage_def)
  with i cw least show ?thesis by blast
qed

text \<open>
  Claim C1. \<^verbatim>\<open>claimNextMessage(A)\<close> on a table with distinct row ids: when no
  pending row has agent \<open>A\<close> (or a null agent while \<open>A\<close> is \<^verbatim>\<open>default\<close>), it
  returns null and changes nothing. Otherwise it picks one such pending row
  whose \<open>created_at\<close> is the smallest among them, rewrites exactly that row to
  status processing, \<open>claimed_by = A\<close>, \<open>updated_at = now\<close>, and returns the row
  with the new status and claimer. A row that was processing, completed or dead
  is never the one returned.
\<close>

theorem claimNextMessage_oldest_pending:
  assumes "distinct (map rowid (messages d))"
  shows "case claimNextMessage A now d of
           (None, d') \<Rightarrow>
             d' = d \<and>
             \<not> (\<exists>r\<in>set (messages d). status r = Pending \<and>
                   (agent r = Some A \<or> (agent r = None \<and> A = ''default'')))
         | (Some ret, d') \<Rightarrow>
             (\<exists>i<length (messages d).
                status (messages d ! i) = Pending \<and>
                (agent (messages d ! i) = Some A \<or>
                  (agent (messages d ! i) = None \<and> A = ''default'')) \<and>
                (\<forall>r'\<in>set (messages d).
                   status r' = Pending \<and>
                   (agent r' = Some A \<or> (agent r' = None \<and> A = ''default'')) \<longrightarrow>
                   created_at (messages d ! i) \<le> created_at r') \<and>
                ret = (messages d ! i)\<lparr> status := Processing, claimed_by := Some A \<rparr> \<and>
                d' = d\<lparr> messages := (messages d)
                       [i := (messages d ! i)\<lparr> status := Processing, claimed_by := Some A,
                                              updated_at := now \<rparr>] \<rparr>)"
proof -
  from claimNextMessage_effect [OF assms, of A now]
  consider (none) "claimNextMessage A now d = (None, d)"
      "\<forall>r\<in>set (messages d). \<not> claim_where A r"
    | (some) i where "i < length (messages d)" "claim_where A (messages d ! i)"
        "\<forall>r'\<in>set (messages d). claim_where A r' \<longrightarrow>
               created_at (messages d ! i) \<le> created_at r'"
        "claimNextMessage A now d =
              (Some ((messages d ! i)\<lparr> status := Processing, claimed_by := Some A \<rparr>),
               d\<lparr> messages := (messages d)
                    [i := (messages d ! i)\<lparr> status := Processing, claimed_by := Some A,
                                           updated_at := now \<rparr>] \<rparr>)"
    by blast
  then show ?thesis
  proof cases
    case none
    then show ?thesis by (simp add: claim_where_def)
  next
    case some
    have "status (messages d ! i) = Pending \<and>
          (agent (messages d ! i) = Some A \<or>
            (agent (messages d ! i) = None \<and> A = ''default'')) \<and>
          (\<forall>r'\<in>set (messages d).
             status r' = Pending \<and>
             (agent r' = Some A \<or> (agent r' = None \<and> A = ''default'')) \<longrightarrow>
             created_at (messages d ! i) \<le> created_at r')"
      using some(2,3) by (simp add: claim_where_def)
    with some(1) show ?thesis unfolding some(4) by auto
  qed
qed

lemma ex_db_distinct: "distinct (map rowid (messages ex_db))"
  by (simp add: ex_db_def ex_row_def)

theorem claimNextMessage_oldest_pending_witness:
  "distinct (map rowid (messages ex_db)) \<and>
   map_option rowid (fst (claimNextMessage ''coder'' 1000 ex_db)) = Some 2 \<and>
   map_option status (fst (claimNextMessage ''coder'' 1000 ex_db)) = Some Processing \<and>
   map_option claimed_by (fst (claimNextMessage ''coder'' 1000 ex_db)) = Some (Some ''coder'') \<and>
   map status (messages (snd (claimNextMessage ''coder'' 1000 ex_db)))
     = [Pending, Processing, Pending, Processing, Dead, Processing] \<and>
   map updated_at (messages (snd (claimNextMessage ''coder'' 1000 ex_db)))
     = [300, 1000, 100, 50, 60, 900]"
  using claimNextMessage_oldest_pending [OF ex_db_distinct, of "''coder''" 1000]
    ex_db_distinct
  by (simp add: claimNextMessage_def select_oldest_def claim_where_def update_where_def
      ex_db_def ex_row_def)

subsection \<open>Failing and the dead-letter state\<close>

lemma failMessage_row:
  assumes "distinct (map rowid (messages d))" and "i < length (messages d)"
  shows "messages (failMessage (rowid (messages d ! i)) e t d) =
         (messages d)[i := (messages d ! i)
            \<lparr> status := (if retry_count (messages d ! i) + 1 \<ge> MAX_RETRIES then Dead else Pending),
               retry_count := retry_count (messages d ! i) + 1,
               last_error := Some e, claimed_by := None, updated_at := t \<rparr>]"
  using find_distinct [OF assms] update_where_distinct [OF assms]
  by (simp add: failMessage_def Let_def)

lemma failMessage_nth:
  assumes "distinct (map rowid (messages d))" and "i < length (messages d)"
    and "rowid (messages d ! i) = rid"
  shows "messages (failMessage rid e t d) ! i =
         (messages d ! i)
            \<lparr> status := (if retry_count (messages d ! i) + 1 \<ge> MAX_RETRIES then Dead else Pending),
               retry_count := retry_count (messages d ! i) + 1,
               last_error := Some e, claimed_by := None, updated_at := t \<rparr>"
  using failMessage_row [OF assms(1,2), of e t] assms(2,3) by simp

lemma failMessage_ids:
  "map rowid (messages (failMessage rid e t d)) = map rowid (messages d)"
  by (auto simp: failMessage_def update_where_def Let_def split: option.splits)

lemma claimNextMessage_row:
  assumes "distinct (map rowid (messages d))" and "i < length (messages d)"
  shows "map rowid (messages (snd (claimNextMessage a t d))) = map rowid (messages d) \<and>
         retry_count (messages (snd (claimNextMessage a t d)) ! i) = retry_count (messages d ! i) \<and>
         (status (messages d ! i) \<noteq> Pending \<longrightarrow>
            messages (snd (claimNextMessage a t d)) ! i = messages d ! i)"
proof -
  from claimNextMessage_effect [OF assms(1), of a t]
  consider (none) "claimNextMessage a t d = (None, d)"
    | (some) j where "j < length (messages d)" "claim_where a (messages d ! j)"
        "snd (claimNextMessage a t d) =
           d\<lparr> messages := (messages d)
              [j := (messages d ! j)\<lparr> status := Processing, claimed_by := Some a,
                                      updated_at := t \<rparr>] \<rparr>"
    by fastforce
  then show ?thesis
  proof cases
    case none
    then show ?thesis by simp
  next
    case some
    have ids: "map rowid (messages (snd (claimNextMessage a t d))) = map rowid (messages d)"
      using some(1) by (simp add: some(3) map_update list_update_same_conv)
    have "retry_count (messages (snd (claimNextMessage a t d)) ! i) = retry_count (messages d ! i)"
      using assms(2) some(1) by (simp add: some(3) nth_list_update)
    moreover have "status (messages d ! i) \<noteq> Pending \<Longrightarrow>
        messages (snd (claimNextMessage a t d)) ! i = messages d ! i"
      using some(2) by (cases "i = j") (simp_all add: some(3) claim_where_def)
    ultimately show ?thesis using ids by simp
  qed
qed

lemma run_ops_row:
  assumes "distinct (map rowid (messages d))" and "i < length (messages d)"
    and "rowid (messages d ! i) = rid"
  shows "map rowid (messages (fold (apply_op rid) ops d)) = map rowid (messages d) \<and>
         retry_count (messages (fold (apply_op rid) ops d) ! i)
           = retry_count (messages d ! i) + failures ops \<and>
         (MAX_RETRIES \<le> failures ops \<longrightarrow>
            status (messages (fold (apply_op rid) ops d) ! i) = Dead)"
proof (induction ops rule: rev_induct)
  case Nil
  show ?case by (simp add: failures_def MAX_RETRIES_def)
next
  case (snoc op ops)
  let ?d = "fold (apply_op rid) ops d"
  from snoc have ids: "map rowid (messages ?d) = map rowid (messages d)"
    and rc: "retry_count (messages ?d ! i) = retry_count (messages d ! i) + failures ops"
    and dead: "MAX_RETRIES \<le> failures ops \<Longrightarrow> status (messages ?d ! i) = Dead"
    by auto
  have dist: "distinct (map rowid (messages ?d))" using ids assms(1) by simp
  have len: "i < length (messages ?d)" using ids assms(2) by (metis length_map)
  have rid: "rowid (messages ?d ! i) = rid"
    using ids assms(2,3) len by (metis nth_map)
  show ?case
  proof (cases op)
    case (Claim a t)
    then have f: "failures (ops @ [op]) = failures ops" by (simp add: failures_def)
    have step: "fold (apply_op rid) (ops @ [op]) d = snd (claimNextMessage a t ?d)"
      using Claim by simp
    from claimNextMessage_row [OF dist len, of a t]
    have c1: "map rowid (messages (snd (claimNextMessage a t ?d))) = map rowid (messages ?d)"
      and c2: "retry_count (messages (snd (claimNextMessage a t ?d)) ! i) = retry_count (messages ?d ! i)"
      and c3: "status (messages ?d ! i) \<noteq> Pending \<Longrightarrow>
            messages (snd (claimNextMessage a t ?d)) ! i = messages ?d ! i"
      by blast+
    have "MAX_RETRIES \<le> failures ops \<Longrightarrow>
          status (messages (snd (claimNextMessage a t ?d)) ! i) = Dead"
      using dead c3 by simp
    then show ?thesis unfolding step f using c1 c2 ids rc by simp
  next
    case (Fail e t)
    then have f: "failures (ops @ [op]) = failures ops + 1" by (simp add: failures_def)
    note row = failMessage_nth [OF dist len rid, of e t]
    have step: "fold (apply_op rid) (ops @ [op]) d = failMessage rid e t ?d"
      using Fail by simp
    have "MAX_RETRIES \<le> failures ops + 1 \<Longrightarrow>
          status (messages (failMessage rid e t ?d) ! i) = Dead"
      unfolding row using rc by simp
    moreover have "retry_count (messages (failMessage rid e t ?d) ! i)
                   = retry_count (messages d ! i) + (failures ops + 1)"
      unfolding row using rc by simp
    ultimately show ?thesis
      unfolding step f using failMessage_ids [of rid e t ?d] ids by simp
  qed
qed

lemma dead_row_not_claimed:
  assumes "distinct (map rowid (messages d))" and "i < length (messages d)"
    and "status (messages d ! i) = Dead"
    and "fst (claimNextMessage A now d) = Some ret"
  shows "rowid ret \<noteq> rowid (messages d ! i)"
proof
  assume eq: "rowid ret = rowid (messages d ! i)"
  from claimNextMessage_effect [OF assms(1), of A now] assms(4)
  obtain j where j: "j < length (messages d)" "claim_where A (messages d ! j)"
    "ret = (messages d ! j)\<lparr> status := Processing, claimed_by := Some A \<rparr>"
    by fastforce
  then have "rowid (messages d ! j) = rowid (messages d ! i)" using eq by simp
  then have "j = i" by (rule distinct_key_index [OF assms(1) j(1) assms(2)])
  with j(2) assms(3) show False by (simp add: claim_where_def)
qed

text \<open>
  Claim C2. On a table with distinct row ids, one \<^verbatim>\<open>failMessage\<close> of an
  existing row adds one to its \<open>retry_count\<close>; the status becomes dead when the
  new count is at least \<open>MAX_RETRIES = 5\<close>, and otherwise pending with
  \<open>claimed_by\<close> null. After any history of claims and failures of that row that
  holds at least \<open>MAX_RETRIES\<close> failures, the row is dead and no
  \<^verbatim>\<open>claimNextMessage\<close>, for any agent at any time, returns it.
\<close>

theorem failMessage_retries_then_dead:
  assumes "distinct (map rowid (messages d))" and "i < length (messages d)"
    and "rowid (messages d ! i) = rid"
  shows "retry_count (messages (failMessage rid e t d) ! i) = retry_count (messages d ! i) + 1 \<and>
         status (messages (failMessage rid e t d) ! i) =
           (if retry_count (messages d ! i) + 1 \<ge> MAX_RETRIES then Dead else Pending) \<and>
         (retry_count (messages d ! i) + 1 < MAX_RETRIES \<longrightarrow>
           claimed_by (messages (failMessage rid e t d) ! i) = None) \<and>
         MAX_RETRIES = 5 \<and>
         (MAX_RETRIES \<le> failures ops \<longrightarrow>
           status (messages (fold (apply_op rid) ops d) ! i) = Dead \<and>
           rowid (messages (fold (apply_op rid) ops d) ! i) = rid \<and>
           (\<forall>A now. case fst (claimNextMessage A now (fold (apply_op rid) ops d)) of
                       None \<Rightarrow> True
                     | Some ret \<Rightarrow> rowid ret \<noteq> rid))"
proof -
  note row = failMessage_nth [OF assms, of e t]
  have one: "retry_count (messages (failMessage rid e t d) ! i) = retry_count (messages d ! i) + 1"
    "status (messages (failMessage rid e t d) ! i) =
           (if retry_count (messages d ! i) + 1 \<ge> MAX_RETRIES then Dead else Pending)"
    "claimed_by (messages (failMessage rid e t d) ! i) = None"
    by (simp_all add: row)
  have five: "MAX_RETRIES = 5" by (simp add: MAX_RETRIES_def)
  have many: "status (messages (fold (apply_op rid) ops d) ! i) = Dead \<and>
           rowid (messages (fold (apply_op rid) ops d) ! i) = rid \<and>
           (\<forall>A now. case fst (claimNextMessage A now (fold (apply_op rid) ops d)) of
                       None \<Rightarrow> True
                     | Some ret \<Rightarrow> rowid ret \<noteq> rid)"
    if enough: "MAX_RETRIES \<le> failures ops"
  proof -
    let ?d = "fold (apply_op rid) ops d"
    from run_ops_row [OF assms, of ops] enough
    have ids: "map rowid (messages ?d) = map rowid (messages d)"
      and dead: "status (messages ?d ! i) = Dead" by auto
    have dist: "distinct (map rowid (messages ?d))" using ids assms(1) by simp
    have len: "i < length (messages ?d)" using ids assms(2) by (metis length_map)
    have rid: "rowid (messages ?d ! i) = rid"
      using ids assms(2,3) len by (metis nth_map)
    have "\<And>A now ret. fst (claimNextMessage A now ?d) = Some ret \<Longrightarrow> rowid ret \<noteq> rid"
      using dead_row_not_claimed [OF dist len dead] rid by simp
    then show ?thesis
      using dead rid by (simp split: option.splits)
  qed
  show ?thesis using one five many by simp
qed

lemma ex_db1_distinct: "distinct (map rowid (messages ex_db1))"
  by (simp add: ex_db1_def ex_row_def)

theorem failMessage_retries_then_dead_witness:
  "distinct (map rowid (messages ex_db1)) \<and> (0::nat) < length (messages ex_db1) \<and>
   rowid (messages ex_db1 ! 0) = 1 \<and> MAX_RETRIES \<le> failures ex_ops \<and>
   map status (messages (failMessage 1 ''exit 1'' 1001 ex_db1)) = [Pending] \<and>
   map retry_count (messages (failMessage 1 ''exit 1'' 1001 ex_db1)) = [1] \<and>
   map status (messages (fold (apply_op 1) ex_ops ex_db1)) = [Dead] \<and>
   map retry_count (messages (fold (apply_op 1) ex_ops ex_db1)) = [5] \<and>
   fst (claimNextMessage ''coder'' 1010 (fold (apply_op 1) ex_ops ex_db1)) = None"
proof -
  have h2: "(0::nat) < length (messages ex_db1)" by (simp add: ex_db1_def)
  have h3: "rowid (messages ex_db1 ! 0) = 1" by (simp add: ex_db1_def ex_row_def)
  have h4: "MAX_RETRIES \<le> failures ex_ops"
    by (simp add: ex_ops_def failures_def MAX_RETRIES_def)
  have run: "fold (apply_op 1) ex_ops ex_db1 =
      \<lparr> messages = [(ex_row 1 ''m1'' (Some ''coder'') Dead 5 300 1009 None)
                      \<lparr> last_error := Some ''exit 1'' \<rparr>],
        messages_seq = 1, responses = [], responses_seq = 0 \<rparr>"
    by (simp add: ex_ops_def ex_db1_def ex_row_def claimNextMessage_def select_oldest_def
        claim_where_def update_where_def failMessage_def MAX_RETRIES_def Let_def)
  have one: "failMessage 1 ''exit 1'' 1001 ex_db1 =
      \<lparr> messages = [(ex_row 1 ''m1'' (Some ''coder'') Pending 1 300 1001 None)
                      \<lparr> last_error := Some ''exit 1'' \<rparr>],
        messages_seq = 1, responses = [], responses_seq = 0 \<rparr>"
    by (simp add: ex_db1_def ex_row_def update_where_def failMessage_def MAX_RETRIES_def Let_def)
  have c: "fst (claimNextMessage ''coder'' 1010 (fold (apply_op 1) ex_ops ex_db1)) = None"
    unfolding run
    by (simp add: ex_row_def claimNextMessage_def select_oldest_def claim_where_def)
  have v1: "map status (messages (failMessage 1 ''exit 1'' 1001 ex_db1)) = [Pending]"
    and v2: "map retry_count (messages (failMessage 1 ''exit 1'' 1001 ex_db1)) = [1]"
    unfolding one by (simp_all add: ex_row_def)
  have v3: "map status (messages (fold (apply_op 1) ex_ops ex_db1)) = [Dead]"
    and v4: "map retry_count (messages (fold (apply_op 1) ex_ops ex_db1)) = [5]"
    unfolding run by (simp_all add: ex_row_def)
  show ?thesis
    using failMessage_retries_then_dead [OF ex_db1_distinct h2 h3, of "''exit 1''" 1001 ex_ops]
      ex_db1_distinct h2 h3 h4 c v1 v2 v3 v4
    by simp
qed

subsection \<open>Acknowledging a response\<close>

lemma ackResponse_row:
  assumes "r \<in> set (responses (ackResponse rid t d))" and "r_rowid r = rid"
  shows "r_status r = Acked \<and> r_acked_at r = Some t"
proof -
  from assms(1) obtain r0 where r0: "r0 \<in> set (responses d)"
    "r = (if r_rowid r0 = rid then r0\<lparr> r_status := Acked, r_acked_at := Some t \<rparr> else r0)"
    using update_where_set [of r "\<lambda>r. r_rowid r = rid"] by (fastforce simp: ackResponse_def)
  show ?thesis
  proof (cases "r_rowid r0 = rid")
    case True
    with r0 show ?thesis by simp
  next
    case False
    with r0 assms(2) show ?thesis by simp
  qed
qed

lemma ackResponse_ackResponse:
  "ackResponse rid t2 (ackResponse rid t1 d) = ackResponse rid t2 d"
proof -
  have "update_where (\<lambda>r. r_rowid r = rid) (\<lambda>r. r\<lparr> r_status := Acked, r_acked_at := Some t2 \<rparr>)
          (update_where (\<lambda>r. r_rowid r = rid) (\<lambda>r. r\<lparr> r_status := Acked, r_acked_at := Some t1 \<rparr>)
             (responses d))
        = update_where (\<lambda>r. r_rowid r = rid) (\<lambda>r. r\<lparr> r_status := Acked, r_acked_at := Some t2 \<rparr>)
            (responses d)"
    by (rule update_where_twice) simp_all
  then show ?thesis by (simp add: ackResponse_def)
qed

text \<open>
  Claim C3, as stated, fails: the \<^verbatim>\<open>UPDATE\<close> of \<^verbatim>\<open>ackResponse\<close> has no guard
  on the status, so a second ack writes \<open>acked_at\<close> again. A response enqueued
  at time 10 and acked at 100 and again at 200 ends with \<open>acked_at = 200\<close>.
\<close>

theorem ackResponse_twice_counterexample:
  "map r_acked_at (responses (ackResponse 1 200 (ackResponse 1 100 (snd (enqueueResponse ex_response 10 empty_db)))))
   \<noteq> map r_acked_at (responses (ackResponse 1 100 (snd (enqueueResponse ex_response 10 empty_db))))"
  by (simp add: ackResponse_def enqueueResponse_def empty_db_def next_rowid_def update_where_def)

text \<open>
  Claim C3, amended. Acking twice is the same as acking once at the later time:
  the status of the row is acked after either call, and \<open>acked_at\<close> is the time
  of the latest ack.
\<close>

theorem ackResponse_last_ack_wins:
  "ackResponse rid t2 (ackResponse rid t1 d) = ackResponse rid t2 d \<and>
   (\<forall>r\<in>set (responses (ackResponse rid t2 (ackResponse rid t1 d))).
      r_rowid r = rid \<longrightarrow> r_status r = Acked \<and> r_acked_at r = Some t2) \<and>
   (\<forall>r\<in>set (responses (ackResponse rid t1 d)).
      r_rowid r = rid \<longrightarrow> r_status r = Acked \<and> r_acked_at r = Some t1)"
  using ackResponse_ackResponse [of rid t2 t1 d]
    ackResponse_row [of _ rid t2 "ackResponse rid t1 d"] ackResponse_row [of _ rid t1 d]
  by blast

theorem ackResponse_last_ack_wins_witness:
  "r_rowid (hd (responses (snd (enqueueResponse ex_response 10 empty_db)))) = 1 \<and>
   map r_status (responses (ackResponse 1 200 (ackResponse 1 100 (snd (enqueueResponse ex_response 10 empty_db))))) = [Acked] \<and>
   map r_acked_at (responses (ackResponse 1 200 (ackResponse 1 100 (snd (enqueueResponse ex_response 10 empty_db))))) = [Some 200]"
  using ackResponse_last_ack_wins [of 1 200 100 "snd (enqueueResponse ex_response 10 empty_db)"]
  by (simp add: ackResponse_def enqueueResponse_def empty_db_def next_rowid_def update_where_def)

subsection \<open>Recovering stale claims\<close>

text \<open>
  Claim C4. \<^verbatim>\<open>recoverStaleMessages(threshold)\<close> rewrites exactly the rows that
  are processing with \<open>updated_at\<close> below the clock reading minus the threshold:
  they become pending with \<open>claimed_by\<close> null (and \<open>updated_at\<close> the second clock
  reading). Every other row, a processing row within the threshold included, is
  left as it was. The number returned is the number of rows that changed. The
  default threshold is 600000 ms, ten minutes.
\<close>

theorem recoverStaleMessages_resets_exactly_stale:
  assumes "recoverStaleMessages thresholdMs now1 now2 d = (n, d')"
  shows "length (messages d') = length (messages d) \<and>
         (\<forall>i<length (messages d).
            messages d' ! i =
              (if status (messages d ! i) = Processing \<and>
                  updated_at (messages d ! i) < now1 - thresholdMs
               then (messages d ! i)\<lparr> status := Pending, claimed_by := None, updated_at := now2 \<rparr>
               else messages d ! i)) \<and>
         n = card {i. i < length (messages d) \<and> status (messages d ! i) = Processing \<and>
                      updated_at (messages d ! i) < now1 - thresholdMs} \<and>
         n = card {i. i < length (messages d) \<and> messages d' ! i \<noteq> messages d ! i} \<and>
         responses d' = responses d \<and>
         default_thresholdMs = 600000"
proof -
  let ?p = "stale_where (now1 - thresholdMs)"
  let ?f = "\<lambda>r. r\<lparr> status := Pending, claimed_by := None, updated_at := now2 \<rparr>"
  from assms have n: "n = changes ?p (messages d)"
    and d': "d' = d\<lparr> messages := update_where ?p ?f (messages d) \<rparr>"
    by (simp_all add: recoverStaleMessages_def Let_def)
  have len: "length (messages d') = length (messages d)"
    by (simp add: d' update_where_def)
  have row: "\<And>i. i < length (messages d) \<Longrightarrow>
     messages d' ! i = (if ?p (messages d ! i) then ?f (messages d ! i) else messages d ! i)"
    by (simp add: d' update_where_nth)
  have changed: "\<And>i. i < length (messages d) \<Longrightarrow>
     (messages d' ! i \<noteq> messages d ! i) = ?p (messages d ! i)"
  proof -
    fix i assume i: "i < length (messages d)"
    have "?p (messages d ! i) \<Longrightarrow> status (?f (messages d ! i)) \<noteq> status (messages d ! i)"
      by (simp add: stale_where_def)
    then have "?p (messages d ! i) \<Longrightarrow> ?f (messages d ! i) \<noteq> messages d ! i"
      by metis
    then show "(messages d' ! i \<noteq> messages d ! i) = ?p (messages d ! i)"
      using row [OF i] by simp
  qed
  have "{i. i < length (messages d) \<and> messages d' ! i \<noteq> messages d ! i}
        = {i. i < length (messages d) \<and> ?p (messages d ! i)}"
    using changed by blast
  then have n2: "n = card {i. i < length (messages d) \<and> messages d' ! i \<noteq> messages d ! i}"
    by (simp add: n changes_card)
  have n1: "n = card {i. i < length (messages d) \<and> status (messages d ! i) = Processing \<and>
                      updated_at (messages d ! i) < now1 - thresholdMs}"
    by (simp add: n changes_card stale_where_def)
  have r: "responses d' = responses d" by (simp add: d')
  have dflt: "default_thresholdMs = 600000" by (simp add: default_thresholdMs_def)
  show ?thesis using len row n1 n2 r dflt by (simp add: stale_where_def)
qed

theorem recoverStaleMessages_witness:
  "fst (recoverStaleMessages default_thresholdMs 600500 600501 ex_db) = 1 \<and>
   map status (messages (snd (recoverStaleMessages default_thresholdMs 600500 600501 ex_db)))
     = [Pending, Pending, Pending, Pending, Dead, Processing] \<and>
   map updated_at (messages (snd (recoverStaleMessages default_thresholdMs 600500 600501 ex_db)))
     = [300, 200, 100, 600501, 60, 900]"
  using recoverStaleMessages_resets_exactly_stale [of default_thresholdMs 600500 600501 ex_db
     "fst (recoverStaleMessages default_thresholdMs 600500 600501 ex_db)"
     "snd (recoverStaleMessages default_thresholdMs 600500 600501 ex_db)"]
  by (simp add: recoverStaleMessages_def stale_where_def changes_def update_where_def
      default_thresholdMs_def ex_db_def ex_row_def)

subsection \<open>The row invariants are preserved\<close>

lemma enqueueMessage_invariant:
  assumes "db_invariant d" and "enqueueMessage data now d = Inr (rid, d')"
  shows "db_invariant d'"
proof -
  from assms(2) obtain row where row: "messages d' = messages d @ [row]"
    "status row = Pending" "claimed_by row = None"
    by (auto simp: enqueueMessage_def Let_def split: if_splits)
  then have "row_invariant row" by (simp add: row_invariant_def)
  with assms(1) row(1) show ?thesis by (auto simp: db_invariant_def)
qed

lemma claimNextMessage_invariant:
  assumes "db_invariant d"
  shows "db_invariant (snd (claimNextMessage a now d))"
proof (cases "select_oldest a (messages d)")
  case None
  with assms show ?thesis by (simp add: claimNextMessage_def)
next
  case (Some row)
  have "\<forall>r\<in>set (update_where (\<lambda>r. rowid r = rowid row)
           (\<lambda>r. r\<lparr> status := Processing, claimed_by := Some a, updated_at := now \<rparr>)
           (messages d)). row_invariant r"
    using assms unfolding db_invariant_def
    by (rule update_where_invariant) (simp add: row_invariant_def)
  with Some show ?thesis by (simp add: claimNextMessage_def db_invariant_def)
qed

lemma completeMessage_invariant:
  assumes "db_invariant d"
  shows "db_invariant (completeMessage rid now d)"
proof -
  have "\<forall>r\<in>set (update_where (\<lambda>r. rowid r = rid)
           (\<lambda>r. r\<lparr> status := Completed, updated_at := now \<rparr>) (messages d)). row_invariant r"
    using assms unfolding db_invariant_def
    by (rule update_where_invariant) (simp add: row_invariant_def)
  then show ?thesis by (simp add: completeMessage_def db_invariant_def)
qed

lemma failMessage_invariant:
  assumes "db_invariant d"
  shows "db_invariant (failMessage rid e now d)"
proof (cases "find (\<lambda>r. rowid r = rid) (messages d)")
  case None
  with assms show ?thesis by (simp add: failMessage_def)
next
  case (Some msg)
  let ?n = "retry_count msg + 1"
  have "\<forall>r\<in>set (update_where (\<lambda>r. rowid r = rid)
           (\<lambda>r. r\<lparr> status := (if ?n \<ge> MAX_RETRIES then Dead else Pending),
                    retry_count := ?n, last_error := Some e, claimed_by := None,
                    updated_at := now \<rparr>) (messages d)). row_invariant r"
    using assms unfolding db_invariant_def
    by (rule update_where_invariant) (simp add: row_invariant_def)
  with Some show ?thesis by (simp add: failMessage_def db_invariant_def Let_def)
qed

lemma retryDeadMessage_invariant:
  assumes "db_invariant d"
  shows "db_invariant (snd (retryDeadMessage rid now d))"
proof -
  have "\<forall>r\<in>set (update_where (retry_where rid)
           (\<lambda>r. r\<lparr> status := Pending, retry_count := 0, claimed_by := None,
                    updated_at := now \<rparr>) (messages d)). row_invariant r"
    using assms unfolding db_invariant_def
    by (rule update_where_invariant) (simp add: row_invariant_def)
  then show ?thesis by (simp add: retryDeadMessage_def db_invariant_def)
qed

lemma recoverStaleMessages_invariant:
  assumes "db_invariant d"
  shows "db_invariant (snd (recoverStaleMessages th now1 now2 d))"
proof -
  have "\<forall>r\<in>set (update_where (stale_where (now1 - th))
           (\<lambda>r. r\<lparr> status := Pending, claimed_by := None, updated_at := now2 \<rparr>)
           (messages d)). row_invariant r"
    using assms unfolding db_invariant_def
    by (rule update_where_invariant) (simp add: row_invariant_def)
  then show ?thesis by (simp add: recoverStaleMessages_def db_invariant_def Let_def)
qed

text \<open>
  Claim C10. Each of \<^verbatim>\<open>enqueueMessage\<close>, \<^verbatim>\<open>claimNextMessage\<close>,
  \<^verbatim>\<open>completeMessage\<close>, \<^verbatim>\<open>failMessage\<close>, \<^verbatim>\<open>retryDeadMessage\<close> and
  \<^verbatim>\<open>recoverStaleMessages\<close> takes a table in which every row satisfies the
  three row invariants to a table in which every row does. (An
  \<^verbatim>\<open>enqueueMessage\<close> that the unique index rejects writes nothing.)
\<close>

theorem queue_operations_preserve_row_invariants:
  assumes "db_invariant d"
  shows "(case enqueueMessage data now d of
            Inl err \<Rightarrow> True
          | Inr (rid', d') \<Rightarrow> db_invariant d') \<and>
         db_invariant (snd (claimNextMessage a now d)) \<and>
         db_invariant (completeMessage rid now d) \<and>
         db_invariant (failMessage rid e now d) \<and>
         db_invariant (snd (retryDeadMessage rid now d)) \<and>
         db_invariant (snd (recoverStaleMessages th now1 now2 d))"
proof -
  have "case enqueueMessage data now d of
            Inl err \<Rightarrow> True
          | Inr (rid', d') \<Rightarrow> db_invariant d'"
    using enqueueMessage_invariant [OF assms] by (auto split: sum.splits)
  then show ?thesis
    using claimNextMessage_invariant [OF assms] completeMessage_invariant [OF assms]
      failMessage_invariant [OF assms] retryDeadMessage_invariant [OF assms]
      recoverStaleMessages_invariant [OF assms]
    by blast
qed

lemma ex_db_invariant: "db_invariant ex_db"
  by (simp add: db_invariant_def ex_db_def ex_row_def row_invariant_def MAX_RETRIES_def)

theorem queue_operations_preserve_row_invariants_witness:
  "db_invariant ex_db \<and>
   isl (enqueueMessage (ex_message\<lparr> em_messageId := ''m1'' \<rparr>) 1000 ex_db) \<and>
   (case enqueueMessage ex_message 1000 ex_db of
            Inl err \<Rightarrow> False
          | Inr (rid', d') \<Rightarrow> rid' = 7 \<and> db_invariant d') \<and>
   db_invariant (snd (claimNextMessage ''coder'' 1000 ex_db)) \<and>
   db_invariant (completeMessage 4 1000 ex_db) \<and>
   db_invariant (failMessage 4 ''boom'' 1000 ex_db) \<and>
   db_invariant (snd (retryDeadMessage 5 1000 ex_db)) \<and>
   db_invariant (snd (recoverStaleMessages default_thresholdMs 1000000 1000001 ex_db))"
proof -
  have "isl (enqueueMessage (ex_message\<lparr> em_messageId := ''m1'' \<rparr>) 1000 ex_db)"
    by (simp add: enqueueMessage_def ex_message_def ex_db_def ex_row_def)
  moreover have "\<exists>d'. enqueueMessage ex_message 1000 ex_db = Inr (7, d')"
    by (simp add: enqueueMessage_def ex_message_def ex_db_def ex_row_def next_rowid_def Let_def)
  ultimately show ?thesis
    using queue_operations_preserve_row_invariants [OF ex_db_invariant,
        of ex_message 1000 "''coder''" 4 "''boom''" default_thresholdMs 1000000 1000001]
      queue_operations_preserve_row_invariants [OF ex_db_invariant,
        of ex_message 1000 "''coder''" 5 "''boom''" default_thresholdMs 1000000 1000001]
      ex_db_invariant
    by (auto split: sum.splits)
qed

section \<open>Properties of routing\<close>

lemma has_key_iff:
  "has_key reg k \<longleftrightarrow> map_of reg k \<noteq> None \<or> k \<in> set Object_prototype_keys"
  by (simp add: has_key_def split: option.splits)

lemmas eval_strings = is_cont_def is_space_def white_space_def nl_def
  ascii_toLowerCase_def lower_char_def

lemmas eval_routing = parseAgentRouting_def detectMultipleTeams_def mention_tokens_def
  match_agent_prefix_def has_key_iff Object_prototype_keys_def eval_strings
  ex_agents_def ex_agent_def Let_def

lemma concat_chars [simp]: "concat (chars s) = s"
  by (induction s rule: chars.induct) simp_all

text \<open>
  The shape of the texts that the prefix pattern matches: \<^verbatim>\<open>@\<close>, a slug without
  white space, a run of white space, and a rest that does not start with white
  space.
\<close>

lemma match_agent_prefix_shape:
  assumes raw: "chars raw = ''@'' # slug @ ws @ rest"
    and m1ne: "slug \<noteq> []" and a1: "\<forall>c\<in>set slug. \<not> is_space c"
    and wsne: "ws \<noteq> []" and a2: "\<forall>c\<in>set ws. is_space c"
    and a3: "rest = [] \<or> \<not> is_space (hd rest)"
  shows "match_agent_prefix raw = Some (concat slug, concat rest)"
proof -
  from wsne a2 obtain w ws' where ws: "ws = w # ws'" and w: "is_space w"
    by (cases ws) auto
  have tk: "takeWhile (\<lambda>x. \<not> is_space x) (slug @ ws @ rest) = slug"
    using a1 w by (simp add: takeWhile_append2 ws)
  have dr: "dropWhile (\<lambda>x. \<not> is_space x) (slug @ ws @ rest) = ws @ rest"
    using a1 w by (simp add: dropWhile_append2 ws)
  have "dropWhile is_space (ws @ rest) = dropWhile is_space rest"
    using a2 by (simp add: dropWhile_append2)
  also have "\<dots> = rest" using a3 by (cases rest) auto
  finally have dr2: "dropWhile is_space (ws @ rest) = rest" .
  show ?thesis
    unfolding match_agent_prefix_def raw list.case Let_def tk dr dr2 using m1ne wsne by simp
qed

lemma match_agent_prefix_SomeD:
  assumes m: "match_agent_prefix raw = Some (m1, m2)"
  shows "\<exists>slug ws rest. chars raw = ''@'' # slug @ ws @ rest \<and> m1 = concat slug \<and>
           m2 = concat rest \<and> slug \<noteq> [] \<and> (\<forall>c\<in>set slug. \<not> is_space c) \<and>
           ws \<noteq> [] \<and> (\<forall>c\<in>set ws. is_space c) \<and> (rest = [] \<or> \<not> is_space (hd rest))"
proof -
  from m obtain cs where raw: "chars raw = ''@'' # cs"
    by (auto simp: match_agent_prefix_def split: list.splits if_splits)
  let ?slug = "takeWhile (\<lambda>x. \<not> is_space x) cs"
  let ?after = "dropWhile (\<lambda>x. \<not> is_space x) cs"
  let ?rest = "dropWhile is_space ?after"
  from m raw have m1: "m1 = concat ?slug" and m1ne: "?slug \<noteq> []"
    and ane: "?after \<noteq> []" and m2: "m2 = concat ?rest"
    by (auto simp: match_agent_prefix_def Let_def split: if_splits)
  let ?ws = "takeWhile is_space ?after"
  have "cs = ?slug @ ?after" by simp
  also have "?after = ?ws @ ?rest" by simp
  finally have dec: "chars raw = ''@'' # ?slug @ ?ws @ ?rest" by (simp add: raw)
  have "is_space (hd ?after)" using ane hd_dropWhile [of "\<lambda>x. \<not> is_space x" cs] by simp
  then have wsne: "?ws \<noteq> []" using ane by (cases ?after) auto
  have a1: "\<forall>c\<in>set ?slug. \<not> is_space c" by (auto dest: set_takeWhileD)
  have a2: "\<forall>c\<in>set ?ws. is_space c" by (auto dest: set_takeWhileD)
  have a3: "?rest = [] \<or> \<not> is_space (hd ?rest)"
    using hd_dropWhile [of is_space ?after] by blast
  show ?thesis
    apply (rule exI [of _ ?slug], rule exI [of _ ?ws], rule exI [of _ ?rest])
    apply (intro conjI)
           apply (rule dec)
          apply (rule m1)
         apply (rule m2)
        apply (rule m1ne)
       apply (rule a1)
      apply (rule wsne)
     apply (rule a2)
    apply (rule a3)
    done
qed

text \<open>The slug of a text with the prefix is the first of its mention tokens.\<close>

lemma mention_tokens_shape:
  assumes raw: "chars raw = ''@'' # slug @ ws @ rest"
    and m1ne: "slug \<noteq> []" and a1: "\<forall>c\<in>set slug. \<not> is_space c"
    and wsne: "ws \<noteq> []" and a2: "\<forall>c\<in>set ws. is_space c"
  shows "concat slug \<in> set (mention_tokens raw)"
proof -
  from wsne a2 obtain w ws' where ws: "ws = w # ws'" and w: "is_space w"
    by (cases ws) auto
  have tk: "takeWhile (\<lambda>x. \<not> is_space x) (slug @ ws @ rest) = slug"
    using a1 w by (simp add: takeWhile_append2 ws)
  show ?thesis
    unfolding mention_tokens_def raw using m1ne by (simp add: tk)
qed

text \<open>
  When no token is the name of an inherited property, the targets detected are
  the tokens that are configured.
\<close>

lemma detectMultipleTeams_own:
  assumes "\<forall>t\<in>set (mention_tokens raw). lc t \<notin> set Object_prototype_keys"
  shows "detectMultipleTeams lc raw agents =
           filter (\<lambda>k. map_of agents k \<noteq> None) (map lc (mention_tokens raw))"
  unfolding detectMultipleTeams_def
  by (rule filter_cong) (use assms in \<open>auto simp: has_key_iff\<close>)

text \<open>
  Claim C5, as stated, fails: the check for several targets comes first. With
  agents \<^verbatim>\<open>coder\<close> and \<^verbatim>\<open>writer\<close>, the text
  \<^verbatim>\<open>@coder ask @writer for docs\<close> starts with a known slug and is not routed to
  \<^verbatim>\<open>coder\<close>, and the text \<^verbatim>\<open>ask @coder and @writer\<close> has no prefix and is not
  routed to \<^verbatim>\<open>default\<close>: both get the agent id \<^verbatim>\<open>error\<close>.
\<close>

theorem parseAgentRouting_counterexample:
  "parseAgentRouting ascii_toLowerCase ''@coder ask @writer for docs'' ex_agents
     \<noteq> (''coder'', ''ask @writer for docs'') \<and>
   fst (parseAgentRouting ascii_toLowerCase ''@coder ask @writer for docs'' ex_agents) = ''error'' \<and>
   parseAgentRouting ascii_toLowerCase ''ask @coder and @writer'' ex_agents
     \<noteq> (''default'', ''ask @coder and @writer'') \<and>
   fst (parseAgentRouting ascii_toLowerCase ''ask @coder and @writer'' ex_agents) = ''error''"
  by (simp add: eval_routing)

text \<open>
  Claim C5, amended. Let fewer than two \<^verbatim>\<open>@\<close>-tokens of the text be, in lower
  case, configured agent ids, and none of them the name of a property that the
  registry inherits. If the text is \<^verbatim>\<open>@\<close>, a slug, a run of white space and a
  rest, then: when the lower-cased slug is a configured agent id, the result is
  that id with the rest after the whole run of white space; failing that, when
  some agent's name in lower case equals the lower-cased slug, the result is the
  id of the first such agent with the same rest; failing that, \<^verbatim>\<open>default\<close> with
  the text unchanged. A text that is not of that shape gives \<^verbatim>\<open>default\<close> with
  the text unchanged. White space is that of the engine, and the statement holds
  for whatever \<^verbatim>\<open>toLowerCase\<close> computes.
\<close>

theorem parseAgentRouting_single_target:
  assumes own: "\<forall>t\<in>set (mention_tokens raw). lc t \<notin> set Object_prototype_keys"
    and single: "length (filter (\<lambda>t. map_of agents (lc t) \<noteq> None) (mention_tokens raw)) \<le> 1"
  shows "(\<forall>slug ws rest.
            chars raw = ''@'' # slug @ ws @ rest \<and> slug \<noteq> [] \<and> (\<forall>c\<in>set slug. \<not> is_space c) \<and>
            ws \<noteq> [] \<and> (\<forall>c\<in>set ws. is_space c) \<and> (rest = [] \<or> \<not> is_space (hd rest)) \<longrightarrow>
            parseAgentRouting lc raw agents =
              (if map_of agents (lc (concat slug)) \<noteq> None then (lc (concat slug), concat rest)
               else case find (\<lambda>(aid, config). lc (name config) = lc (concat slug)) agents of
                      Some (aid, config) \<Rightarrow> (aid, concat rest)
                    | None \<Rightarrow> (''default'', raw))) \<and>
         ((\<nexists>slug ws rest.
            chars raw = ''@'' # slug @ ws @ rest \<and> slug \<noteq> [] \<and> (\<forall>c\<in>set slug. \<not> is_space c) \<and>
            ws \<noteq> [] \<and> (\<forall>c\<in>set ws. is_space c) \<and> (rest = [] \<or> \<not> is_space (hd rest))) \<longrightarrow>
            parseAgentRouting lc raw agents = (''default'', raw))"
proof (intro conjI allI impI)
  have "length (detectMultipleTeams lc raw agents)
          = length (filter (\<lambda>t. map_of agents (lc t) \<noteq> None) (mention_tokens raw))"
    by (simp add: detectMultipleTeams_own [OF own] filter_map comp_def)
  with single have one: "\<not> 1 < length (detectMultipleTeams lc raw agents)" by simp
  {
    fix slug ws rest
    assume sh: "chars raw = ''@'' # slug @ ws @ rest \<and> slug \<noteq> [] \<and> (\<forall>c\<in>set slug. \<not> is_space c) \<and>
              ws \<noteq> [] \<and> (\<forall>c\<in>set ws. is_space c) \<and> (rest = [] \<or> \<not> is_space (hd rest))"
    then have m: "match_agent_prefix raw = Some (concat slug, concat rest)"
      using match_agent_prefix_shape [of raw slug ws rest] by blast
    from sh have "concat slug \<in> set (mention_tokens raw)"
      using mention_tokens_shape [of raw slug ws rest] by blast
    with own have "lc (concat slug) \<notin> set Object_prototype_keys" by blast
    then have k: "has_key agents (lc (concat slug)) \<longleftrightarrow> map_of agents (lc (concat slug)) \<noteq> None"
      by (simp add: has_key_iff)
    show "parseAgentRouting lc raw agents =
              (if map_of agents (lc (concat slug)) \<noteq> None then (lc (concat slug), concat rest)
               else case find (\<lambda>(aid, config). lc (name config) = lc (concat slug)) agents of
                      Some (aid, config) \<Rightarrow> (aid, concat rest)
                    | None \<Rightarrow> (''default'', raw))"
      using one m k by (simp add: parseAgentRouting_def Let_def split: option.splits)
  }
  assume no: "\<nexists>slug ws rest.
            chars raw = ''@'' # slug @ ws @ rest \<and> slug \<noteq> [] \<and> (\<forall>c\<in>set slug. \<not> is_space c) \<and>
            ws \<noteq> [] \<and> (\<forall>c\<in>set ws. is_space c) \<and> (rest = [] \<or> \<not> is_space (hd rest))"
  have "match_agent_prefix raw = None"
  proof (cases "match_agent_prefix raw")
    case None
    then show ?thesis .
  next
    case (Some p)
    obtain m1 m2 where "p = (m1, m2)" by (cases p)
    with Some have "match_agent_prefix raw = Some (m1, m2)" by simp
    from match_agent_prefix_SomeD [OF this] no show ?thesis by blast
  qed
  with one show "parseAgentRouting lc raw agents = (''default'', raw)"
    by (simp add: parseAgentRouting_def Let_def)
qed

theorem parseAgentRouting_single_target_witness:
  "list_all (\<lambda>t. ascii_toLowerCase t \<notin> set Object_prototype_keys)
     (mention_tokens ''@Scribe   hello @you'') \<and>
   length (filter (\<lambda>t. map_of ex_agents (ascii_toLowerCase t) \<noteq> None)
             (mention_tokens ''@Scribe   hello @you'')) \<le> 1 \<and>
   parseAgentRouting ascii_toLowerCase ''@Scribe   hello @you'' ex_agents = (''writer'', ''hello @you'') \<and>
   parseAgentRouting ascii_toLowerCase ''@coder fix the login bug'' ex_agents
     = (''coder'', ''fix the login bug'') \<and>
   parseAgentRouting ascii_toLowerCase (''@CODER'' @ [CHR 0xC2, CHR 0xA0] @ ''hello'') ex_agents
     = (''coder'', ''hello'') \<and>
   parseAgentRouting ascii_toLowerCase ''@unknown test'' ex_agents = (''default'', ''@unknown test'') \<and>
   parseAgentRouting ascii_toLowerCase ''help me'' ex_agents = (''default'', ''help me'')"
proof -
  have own: "\<forall>t\<in>set (mention_tokens ''@Scribe   hello @you''). ascii_toLowerCase t \<notin> set Object_prototype_keys"
    by (simp add: eval_routing)
  have single: "length (filter (\<lambda>t. map_of ex_agents (ascii_toLowerCase t) \<noteq> None)
             (mention_tokens ''@Scribe   hello @you'')) \<le> 1"
    by (simp add: eval_routing)
  have shape: "chars ''@Scribe   hello @you'' =
       ''@'' # chars ''Scribe'' @ chars ''   '' @ chars ''hello @you'' \<and>
     chars ''Scribe'' \<noteq> [] \<and> (\<forall>c\<in>set (chars ''Scribe''). \<not> is_space c) \<and> chars ''   '' \<noteq> [] \<and>
     (\<forall>c\<in>set (chars ''   ''). is_space c) \<and>
     (chars ''hello @you'' = [] \<or> \<not> is_space (hd (chars ''hello @you'')))"
    by (simp add: eval_strings)
  have key: "map_of ex_agents (ascii_toLowerCase ''Scribe'') = None"
    "find (\<lambda>(aid, config). ascii_toLowerCase (name config) = ascii_toLowerCase ''Scribe'') ex_agents
       = Some (''writer'', ex_agent ''Scribe'')"
    by (simp_all add: eval_routing)
  from parseAgentRouting_single_target [OF own single] shape
  have "parseAgentRouting ascii_toLowerCase ''@Scribe   hello @you'' ex_agents =
          (if map_of ex_agents (ascii_toLowerCase (concat (chars ''Scribe''))) \<noteq> None
           then (ascii_toLowerCase (concat (chars ''Scribe'')), concat (chars ''hello @you''))
           else case find (\<lambda>(aid, config). ascii_toLowerCase (name config)
                             = ascii_toLowerCase (concat (chars ''Scribe''))) ex_agents of
                  Some (aid, config) \<Rightarrow> (aid, concat (chars ''hello @you''))
                | None \<Rightarrow> (''default'', ''@Scribe   hello @you''))"
    by blast
  then have r1: "parseAgentRouting ascii_toLowerCase ''@Scribe   hello @you'' ex_agents
                 = (''writer'', ''hello @you'')"
    unfolding concat_chars using key by simp
  have rest:
    "parseAgentRouting ascii_toLowerCase ''@coder fix the login bug'' ex_agents
       = (''coder'', ''fix the login bug'')"
    "parseAgentRouting ascii_toLowerCase (''@CODER'' @ [CHR 0xC2, CHR 0xA0] @ ''hello'') ex_agents
       = (''coder'', ''hello'')"
    "parseAgentRouting ascii_toLowerCase ''@unknown test'' ex_agents = (''default'', ''@unknown test'')"
    "parseAgentRouting ascii_toLowerCase ''help me'' ex_agents = (''default'', ''help me'')"
    by (simp_all add: eval_routing)
  have own': "list_all (\<lambda>t. ascii_toLowerCase t \<notin> set Object_prototype_keys)
     (mention_tokens ''@Scribe   hello @you'')"
    using own by (simp only: list_all_iff)
  from own' single r1 rest show ?thesis by (simp only: simp_thms)
qed
section \<open>Properties of the hook pipeline\<close>

lemma map_of_rev_distinct:
  "distinct (map fst xs) \<Longrightarrow> map_of (rev xs) = map_of xs"
proof (induction xs)
  case Nil
  show ?case by simp
next
  case (Cons p xs)
  obtain k v where p: "p = (k, v)" by (cases p)
  from Cons have IH: "map_of (rev xs) = map_of xs" and nk: "k \<notin> fst ` set xs"
    by (simp_all add: p)
  have "map_of xs k = None" using nk by (simp add: map_of_eq_None_iff)
  then show ?case
    by (auto simp: p IH map_add_def fun_eq_iff split: option.splits)
qed

lemma map_of_spread: "map_of (spread a b) = map_of a ++ map_of (rev b)"
proof (induction b arbitrary: a)
  case Nil
  show ?case by (simp add: spread_def)
next
  case (Cons p b)
  obtain k v where p: "p = (k, v)" by (cases p)
  have "spread a (p # b) = spread (AList.update k v a) b"
    by (simp add: spread_def p)
  then have "map_of (spread a (p # b)) = (map_of a)(k \<mapsto> v) ++ map_of (rev b)"
    by (simp only: Cons.IH update_conv')
  also have "\<dots> = map_of a ++ map_of (rev (p # b))"
    by (simp add: p map_add_upd_left fun_eq_iff map_add_def split: option.splits)
  finally show ?case .
qed

lemma spread_right_biased:
  assumes "distinct (map fst b)"
  shows "map_of (spread a b) k = (case map_of b k of Some v \<Rightarrow> Some v | None \<Rightarrow> map_of a k)"
  by (simp add: map_of_spread map_of_rev_distinct [OF assms] map_add_def)

text \<open>The outcome of a run does not depend on the log so far.\<close>

lemma fold_hook_step_log:
  "fst (fold (hook_step nm sel ctx) ps (r, l)) = fst (fold (hook_step nm sel ctx) ps (r, l'))"
proof (induction ps arbitrary: r l l')
  case Nil
  show ?case by simp
next
  case (Cons p ps)
  obtain r1 l1 where s1: "hook_step nm sel ctx p (r, l) = (r1, l1)" by (cases "hook_step nm sel ctx p (r, l)")
  obtain r2 l2 where s2: "hook_step nm sel ctx p (r, l') = (r2, l2)" by (cases "hook_step nm sel ctx p (r, l')")
  have "r1 = r2" using s1 s2
    by (auto simp: hook_step_def split: option.splits sum.splits hook_return.splits thrown.splits)
  then show ?case using Cons.IH [of r1 l1 l2] by (simp add: s1 s2)
qed

text \<open>Once the function has rejected, no plugin changes that.\<close>

lemma fold_hook_step_rejected [simp]:
  "fold (hook_step nm sel ctx) ps (Inl e, l) = (Inl e, l)"
  by (induction ps) (simp_all add: hook_step_def)

lemma fold_hook_step_skip:
  assumes mid: "fst (fold (hook_step nm sel ctx) ps st) = Inr r"
    and p: "sel p = None \<or> (\<exists>h e. sel p = Some h \<and> h (hr_text r) ctx = Inl (Message e))"
  shows "fst (fold (hook_step nm sel ctx) (ps @ p # qs) st)
         = fst (fold (hook_step nm sel ctx) (ps @ qs) st)"
proof -
  obtain l where mid': "fold (hook_step nm sel ctx) ps st = (Inr r, l)"
    using mid by (cases "fold (hook_step nm sel ctx) ps st") simp
  obtain l' where "hook_step nm sel ctx p (Inr r, l) = (Inr r, l')"
    using p by (auto simp: hook_step_def)
  then show ?thesis
    using fold_hook_step_log [of nm sel ctx qs "Inr r" l' l] by (simp add: mid')
qed

text \<open>
  The properties of either loop: \<open>sel\<close> picks the hook the loop calls and
  \<open>nm\<close> is its name in the log. The plugin \<open>p\<close> runs after the plugins \<open>ps\<close>,
  which have left the text and metadata \<open>r\<close>. When the hook of \<open>p\<close> returns, or
  throws a value whose message can be printed, the run goes on as the
  documentation has it; when the message cannot be read, the function rejects,
  whatever plugins follow.
\<close>

lemma hook_pipeline:
  fixes nm sel ctx ps st p qs
  defines "run \<equiv> \<lambda>xs. fold (hook_step nm sel ctx) xs st"
  assumes mid: "fst (run ps) = Inr r" and h: "sel p = Some h"
  shows "(\<forall>s. h (hr_text r) ctx = Inr (ReturnsString s) \<longrightarrow>
            fst (run (ps @ [p])) = Inr (r\<lparr> hr_text := s \<rparr>))"
    and "(\<forall>s md. h (hr_text r) ctx = Inr (ReturnsResult s md) \<and> distinct (map fst md) \<longrightarrow>
            (\<exists>r'. fst (run (ps @ [p])) = Inr r' \<and> hr_text r' = s \<and>
                  (\<forall>k. map_of (hr_metadata r') k =
                        (case map_of md k of
                           Some v \<Rightarrow> Some v
                         | None \<Rightarrow> map_of (hr_metadata r) k))))"
    and "(\<forall>e. h (hr_text r) ctx = Inl (Message e) \<longrightarrow>
            fst (run (ps @ [p])) = Inr r \<and>
            fst (run (ps @ p # qs)) = fst (run (ps @ qs)) \<and>
            snd (run (ps @ [p])) =
              snd (run ps) @ [(''ERROR'', ''Plugin '' @ [CHR 0x27] @ plugin_name p @ [CHR 0x27] @
                                          '' '' @ nm @ '' error: '' @ e)])"
    and "(\<forall>e. h (hr_text r) ctx = Inl (NoMessage e) \<longrightarrow>
            run (ps @ p # qs) = (Inl e, snd (run ps)))"
proof -
  obtain l where st: "fold (hook_step nm sel ctx) ps st = (Inr r, l)"
    using mid unfolding run_def by (cases "fold (hook_step nm sel ctx) ps st") simp
  show "\<forall>s. h (hr_text r) ctx = Inr (ReturnsString s) \<longrightarrow>
            fst (run (ps @ [p])) = Inr (r\<lparr> hr_text := s \<rparr>)"
    using h by (simp add: run_def st hook_step_def)
  show "\<forall>s md. h (hr_text r) ctx = Inr (ReturnsResult s md) \<and> distinct (map fst md) \<longrightarrow>
            (\<exists>r'. fst (run (ps @ [p])) = Inr r' \<and> hr_text r' = s \<and>
                  (\<forall>k. map_of (hr_metadata r') k =
                        (case map_of md k of
                           Some v \<Rightarrow> Some v
                         | None \<Rightarrow> map_of (hr_metadata r) k)))"
    using h by (simp add: run_def st hook_step_def spread_right_biased)
  show "\<forall>e. h (hr_text r) ctx = Inl (Message e) \<longrightarrow>
            fst (run (ps @ [p])) = Inr r \<and>
            fst (run (ps @ p # qs)) = fst (run (ps @ qs)) \<and>
            snd (run (ps @ [p])) =
              snd (run ps) @ [(''ERROR'', ''Plugin '' @ [CHR 0x27] @ plugin_name p @ [CHR 0x27] @
                                          '' '' @ nm @ '' error: '' @ e)]"
  proof (intro allI impI conjI)
    fix e
    assume a: "h (hr_text r) ctx = Inl (Message e)"
    show "fst (run (ps @ [p])) = Inr r"
      using h a by (simp add: run_def st hook_step_def)
    show "fst (run (ps @ p # qs)) = fst (run (ps @ qs))"
      unfolding run_def
      by (rule fold_hook_step_skip [of nm sel ctx ps st r]) (use h a st in auto)
    show "snd (run (ps @ [p])) =
              snd (run ps) @ [(''ERROR'', ''Plugin '' @ [CHR 0x27] @ plugin_name p @ [CHR 0x27] @
                                          '' '' @ nm @ '' error: '' @ e)]"
      using h a by (simp add: run_def st hook_step_def)
  qed
  show "\<forall>e. h (hr_text r) ctx = Inl (NoMessage e) \<longrightarrow>
            run (ps @ p # qs) = (Inl e, snd (run ps))"
    using h by (simp add: run_def st hook_step_def)
qed

text \<open>Without plugins the hooks return the text as it is.\<close>

lemma runOutgoingHooks_Nil [simp]:
  "runOutgoingHooks [] m ctx = (Inr \<lparr> hr_text = m, hr_metadata = [] \<rparr>, [])"
  by (simp add: runOutgoingHooks_def)

lemma runIncomingHooks_Nil [simp]:
  "runIncomingHooks [] m ctx = (Inr \<lparr> hr_text = m, hr_metadata = [] \<rparr>, [])"
  by (simp add: runIncomingHooks_def)

lemmas eval_hooks = runOutgoingHooks_def runIncomingHooks_def hook_step_def spread_def
  ex_markdown_def ex_broken_def ex_html_def ex_shout_def ex_rejecting_def ex_rejecting_in_def

lemma hook_pipeline_example:
  "runOutgoingHooks [ex_markdown, ex_broken, ex_html, ex_shout] ''hi'' ex_ctx
     = (Inr \<lparr> hr_text = ''<b>*hi*</b>!'', hr_metadata = [(''parseMode'', ''html''), (''a'', ''1'')] \<rparr>,
        [(''ERROR'', ''Plugin '' @ [CHR 0x27] @ ''broken'' @ [CHR 0x27] @ '' transformOutgoing error: boom'')])"
  "fst (runOutgoingHooks [ex_markdown, ex_broken, ex_html, ex_shout] ''hi'' ex_ctx)
     = fst (runOutgoingHooks [ex_markdown, ex_html, ex_shout] ''hi'' ex_ctx)"
  by (simp_all add: eval_hooks)
section \<open>Properties of the dispatcher\<close>

subsection \<open>What each step leaves alone\<close>

lemma db_emitEvent [simp]: "db (emitEvent t w) = db w"
  and logs_emitEvent [simp]: "logs (emitEvent t w) = logs w"
  and conversations_emitEvent [simp]: "conversations (emitEvent t w) = conversations w"
  and invocations_emitEvent [simp]: "invocations (emitEvent t w) = invocations w"
  by (simp_all add: emitEvent_def)

lemma db_log_line [simp]: "db (log_line l t w) = db w"
  and logs_log_line [simp]: "logs (log_line l t w) = logs w @ [(l, t)]"
  and conversations_log_line [simp]: "conversations (log_line l t w) = conversations w"
  and invocations_log_line [simp]: "invocations (log_line l t w) = invocations w"
  by (simp_all add: log_line_def)

lemma db_store_conversation [simp]: "db (store_conversation c w) = db w"
  and logs_store_conversation [simp]: "logs (store_conversation c w) = logs w"
  and invocations_store_conversation [simp]: "invocations (store_conversation c w) = invocations w"
  and conversations_store_conversation [simp]:
    "conversations (store_conversation c w) = AList.update (conv_id c) c (conversations w)"
  by (simp_all add: store_conversation_def)

lemma messages_enqueueResponse [simp]:
  "messages (snd (enqueueResponse data now d)) = messages d"
  by (simp add: enqueueResponse_def Let_def)

lemma responses_completeMessage [simp]:
  "responses (completeMessage rid now d) = responses d"
  by (simp add: completeMessage_def)

lemma messages_completeMessage:
  "messages (completeMessage rid now d) =
     update_where (\<lambda>r. rowid r = rid) (\<lambda>r. r\<lparr> status := Completed, updated_at := now \<rparr>) (messages d)"
  by (simp add: completeMessage_def)

lemma fst_invoke_step:
  "fst (invoke_step e cfg aid p r w) =
     (case invokeAgent (env_invoker e) cfg aid p (env_workspacePath e) r of
        Inr out \<Rightarrow> out | Inl err \<Rightarrow> apology)"
  by (simp add: invoke_step_def Let_def split: sum.splits)

lemma db_invoke_step [simp]: "db (snd (invoke_step e cfg aid p r w)) = db w"
  and conversations_invoke_step [simp]:
    "conversations (snd (invoke_step e cfg aid p r w)) = conversations w"
  and invocations_invoke_step [simp]:
    "invocations (snd (invoke_step e cfg aid p r w)) = invocations w @ [(aid, p, r)]"
  and logs_invoke_step [simp]:
    "logs (snd (invoke_step e cfg aid p r w)) = logs w @ invoke_log e cfg aid p r"
  by (simp_all add: invoke_step_def invoke_log_def Let_def split: sum.splits)

lemma completion_hooks_pending [simp]:
  "completion_hooks e (c\<lparr> pending := n \<rparr>) = completion_hooks e c"
  by (simp add: completion_hooks_def)

lemma messages_completeConversation [simp]:
    "messages (db (completeConversation e c now w)) = messages (db w)"
  and invocations_completeConversation [simp]:
    "invocations (completeConversation e c now w) = invocations w"
  and logs_completeConversation [simp]:
    "logs (completeConversation e c now w) = logs w @ snd (completion_hooks e c)"
  by (simp_all add: completeConversation_def completion_hooks_def Let_def split_beta
      split: prod.splits sum.splits)

text \<open>A completion whose hooks return removes the conversation and enqueues one response.\<close>

lemma completeConversation_returns:
  assumes "fst (completion_hooks e c) = Inr h"
  shows "conversations (completeConversation e c now w) = AList.delete (conv_id c) (conversations w)"
    and "\<exists>row. responses (db (completeConversation e c now w)) = responses (db w) @ [row] \<and>
               r_message_id row = conv_messageId c \<and> r_message row = hr_text h \<and>
               r_status row = RPending"
  using assms
  by (auto simp: completeConversation_def completion_hooks_def Let_def split_beta enqueueResponse_def
      split: prod.splits sum.splits)

lemma team_context_of_events [simp]:
  "team_context_of e (emitEvent t w) dbMsg aid r = team_context_of e w dbMsg aid r"
  by (simp add: team_context_of_def)

subsection \<open>A failed invocation\<close>

lemma runCommand_nonzero:
  assumes "spawn command args (case cwd of None \<Rightarrow> sd | Some c \<Rightarrow> if c = [] then sd else c)
             = Closes code out err"
    and "code \<noteq> Some 0"
  shows "runCommand spawn sd command args cwd =
           Inl (if trim err \<noteq> [] then trim err
                else ''Command exited with code '' @ show_code code)"
  using assms by (simp add: runCommand_def Let_def)

lemma invoke_step_failed:
  assumes "invokeAgent (env_invoker e) cfg aid p (env_workspacePath e) r = Inl err"
  shows "fst (invoke_step e cfg aid p r w) = apology"
    and "(''ERROR'', providerLabel cfg @ '' error (agent: '' @ aid @ ''): '' @ err)
           \<in> set (logs (snd (invoke_step e cfg aid p r w)))"
  using assms by (simp_all add: fst_invoke_step invoke_log_def)

text \<open>
  A failed call of the agent in a message without a team context, when the
  outgoing hooks return on the apology: the error is logged, the response
  enqueued is made from the apology, and the message is completed.
\<close>

lemma processMessage_failed_invocation:
  assumes res: "resolve_agent e dbMsg = Inr (aid, cfg, p0, t)"
    and prep: "prepare_invocation e dbMsg aid p0
                 (if \<not> isInternal dbMsg
                  then emitEvent ''agent_routed'' (emitEvent ''message_received'' w) else w)
               = Inr (p, r, w3)"
    and fail: "invokeAgent (env_invoker e) cfg aid p (env_workspacePath e) r = Inl err"
    and notc: "team_context_of e w dbMsg aid t = None"
    and hooks: "fst (reply_hooks e dbMsg apology) = Inr h"
  shows "invocations (processMessage e dbMsg now w) = invocations w @ [(aid, p, r)]"
    and "messages (db (processMessage e dbMsg now w))
           = messages (completeMessage (rowid dbMsg) now (db w))"
    and "(''ERROR'', providerLabel cfg @ '' error (agent: '' @ aid @ ''): '' @ err)
           \<in> set (logs (processMessage e dbMsg now w))"
    and "\<exists>row. responses (db (processMessage e dbMsg now w)) = responses (db w) @ [row] \<and>
               r_message row =
                 fst (env_handleLongResponse e (hr_text h)
                        (add_all [] (env_collectFiles e (trim apology)))) \<and>
               r_message_id row = message_id dbMsg \<and> r_agent row = Some aid \<and>
               r_status row = RPending"
proof -
  define w1 where "w1 = (if \<not> isInternal dbMsg
             then emitEvent ''agent_routed'' (emitEvent ''message_received'' w) else w)"
  define iv where "iv = invoke_step e cfg aid p r w3"
  have w1: "db w1 = db w" "invocations w1 = invocations w"
    by (simp_all add: w1_def)
  have tc: "team_context_of e w1 dbMsg aid t = None"
    using notc by (simp add: w1_def)
  have prep1: "prepare_invocation e dbMsg aid p0 w1 = Inr (p, r, w3)"
    using prep by (simp only: w1_def)
  have w3: "db w3 = db w" "invocations w3 = invocations w"
    using prep1 w1
    by (auto simp: prepare_invocation_def Let_def split: prod.splits sum.splits if_splits)
  have iv1: "fst iv = apology" using invoke_step_failed(1) [OF fail] by (simp add: iv_def)
  have ivl: "(''ERROR'', providerLabel cfg @ '' error (agent: '' @ aid @ ''): '' @ err)
               \<in> set (logs (snd iv))"
    using invoke_step_failed(2) [OF fail] by (simp add: iv_def)
  have ivf: "db (snd iv) = db w" "invocations (snd iv) = invocations w @ [(aid, p, r)]"
    by (simp_all add: iv_def w3)
  obtain hl where rh: "reply_hooks e dbMsg apology = (Inr h, hl)"
    using hooks by (cases "reply_hooks e dbMsg apology") simp
  have w0: "(if \<not> isInternal dbMsg then emitEvent ''agent_routed''
               (if \<not> isInternal dbMsg then emitEvent ''message_received'' w else w)
             else (if \<not> isInternal dbMsg then emitEvent ''message_received'' w else w)) = w1"
    by (simp add: w1_def)
  have body: "processMessage_body e dbMsg now w = direct_reply e dbMsg aid (fst iv) now (snd iv)"
    unfolding processMessage_body_def Let_def res sum.case prod.case w0 tc prep1 option.case
    by (simp add: iv_def split_beta)
  obtain w' where dr: "direct_reply e dbMsg aid apology now (snd iv) = Inr w'"
    and drm: "messages (db w') = messages (completeMessage (rowid dbMsg) now (db (snd iv)))"
    and dri: "invocations w' = invocations (snd iv)"
    and drl: "set (logs (snd iv)) \<subseteq> set (logs w')"
    and drr: "\<exists>row. responses (db w') = responses (db (snd iv)) @ [row] \<and>
               r_message row =
                 fst (env_handleLongResponse e (hr_text h)
                        (add_all [] (env_collectFiles e (trim apology)))) \<and>
               r_message_id row = message_id dbMsg \<and> r_agent row = Some aid \<and>
               r_status row = RPending"
    using rh
    by (simp add: direct_reply_def reply_hooks_def Let_def split_beta enqueueResponse_def
        completeMessage_def)
  have pm: "processMessage e dbMsg now w = w'"
    by (simp add: processMessage_def body iv1 dr)
  show "invocations (processMessage e dbMsg now w) = invocations w @ [(aid, p, r)]"
    by (simp add: pm dri ivf)
  show "messages (db (processMessage e dbMsg now w))
           = messages (completeMessage (rowid dbMsg) now (db w))"
    by (simp add: pm drm ivf completeMessage_def)
  show "(''ERROR'', providerLabel cfg @ '' error (agent: '' @ aid @ ''): '' @ err)
           \<in> set (logs (processMessage e dbMsg now w))"
    using ivl drl by (auto simp: pm)
  show "\<exists>row. responses (db (processMessage e dbMsg now w)) = responses (db w) @ [row] \<and>
               r_message row =
                 fst (env_handleLongResponse e (hr_text h)
                        (add_all [] (env_collectFiles e (trim apology)))) \<and>
               r_message_id row = message_id dbMsg \<and> r_agent row = Some aid \<and>
               r_status row = RPending"
    using drr by (simp add: pm ivf)
qed

subsection \<open>The bound on the messages of a conversation\<close>

lemma get_or_create_conversation_frame:
  assumes "get_or_create_conversation e dbMsg tc now w = (c, w1)"
  shows "db w1 = db w" and "set (logs w) \<subseteq> set (logs w1)" and "invocations w1 = invocations w"
  using assms
  by (auto simp: get_or_create_conversation_def Let_def split: option.splits)

lemma team_reply_cap_reached:
  assumes goc: "get_or_create_conversation e dbMsg tc now w = (c, w1)"
    and ment: "env_extractTeammateMentions e response agentId (fst (teamContext c))
                 (env_teams e) (env_agents e) \<noteq> []"
    and cap: "maxMessages c \<le> totalMessages c + 1"
  shows "\<exists>w'. team_reply e dbMsg agentId response tc now w = Inr w' \<and>
           messages (db w') = messages (completeMessage (rowid dbMsg) now (db w)) \<and>
           (''WARN'', max_messages_warning (record_response e c agentId response)) \<in> set (logs w') \<and>
           (pending c \<noteq> 1 \<longrightarrow>
              map_of (conversations w') (conv_id c) =
                Some ((record_response e c agentId response)\<lparr> pending := pending c - 1 \<rparr>) \<and>
              responses (db w') = responses (db w)) \<and>
           (pending c = 1 \<and>
            (\<exists>h. fst (completion_hooks e (record_response e c agentId response)) = Inr h) \<longrightarrow>
              map_of (conversations w') (conv_id c) = None \<and>
              (\<exists>row. responses (db w') = responses (db w) @ [row] \<and>
                     r_message_id row = conv_messageId c))"
proof -
  define c1 where "c1 = record_response e c agentId response"
  define c3 where "c3 = c1\<lparr> pending := pending c - 1 \<rparr>"
  define w2 where "w2 = log_line ''WARN'' (max_messages_warning c1) w1"
  define w3 where "w3 = store_conversation c3 w2"
  define w4 where "w4 = (if pending c = 1 then completeConversation e c3 now w3 else w3)"
  have c1: "teamContext c1 = teamContext c" "totalMessages c1 = totalMessages c + 1"
    "maxMessages c1 = maxMessages c" "pending c1 = pending c" "conv_id c1 = conv_id c"
    "conv_messageId c1 = conv_messageId c"
    by (simp_all add: c1_def record_response_def)
  have nolt: "\<not> totalMessages c1 < maxMessages c1" using cap c1 by simp
  have ment1: "env_extractTeammateMentions e response agentId (fst (teamContext c1))
                 (env_teams e) (env_agents e) \<noteq> []"
    using ment c1 by simp
  have dp: "decrementPending c1 = (pending c = 1, c3)"
    by (auto simp: decrementPending_def Let_def c3_def c1)
  have tr: "team_reply e dbMsg agentId response tc now w =
            Inr (w4\<lparr> db := completeMessage (rowid dbMsg) now (db w4) \<rparr>)"
    unfolding team_reply_def goc Let_def prod.case c1_def [symmetric]
    using nolt ment1 dp
    by (simp add: w2_def w3_def w4_def)
  have db1: "db w1 = db w" using get_or_create_conversation_frame(1) [OF goc] .
  have m4: "messages (db w4) = messages (db w)"
    by (simp add: w4_def w3_def w2_def db1)
  have l4: "(''WARN'', max_messages_warning c1) \<in> set (logs w4)"
    by (simp add: w4_def w3_def w2_def)
  have c3id: "conv_id c3 = conv_id c" "conv_messageId c3 = conv_messageId c"
    by (simp_all add: c3_def c1)
  have keep: "pending c \<noteq> 1 \<Longrightarrow>
      map_of (conversations w4) (conv_id c) = Some c3 \<and> responses (db w4) = responses (db w)"
    using c3id by (simp add: w4_def w3_def w2_def db1 update_conv')
  have fin: "map_of (conversations w4) (conv_id c) = None \<and>
      (\<exists>row. responses (db w4) = responses (db w) @ [row] \<and> r_message_id row = conv_messageId c)"
    if one: "pending c = 1" and hk: "fst (completion_hooks e c1) = Inr h" for h
  proof -
    have hk3: "fst (completion_hooks e c3) = Inr h" using hk by (simp add: c3_def)
    have "map_of (conversations w4) (conv_id c) = None"
      using c3id one by (simp add: w4_def completeConversation_returns(1) [OF hk3] delete_conv')
    moreover from completeConversation_returns(2) [OF hk3, of now w3]
    obtain row where "responses (db (completeConversation e c3 now w3)) = responses (db w3) @ [row]"
      "r_message_id row = conv_messageId c3" by blast
    then have "responses (db w4) = responses (db w) @ [row] \<and> r_message_id row = conv_messageId c"
      using one c3id by (simp add: w4_def w3_def w2_def db1)
    ultimately show ?thesis by blast
  qed
  let ?w' = "w4\<lparr> db := completeMessage (rowid dbMsg) now (db w4) \<rparr>"
  have "messages (db ?w') = messages (completeMessage (rowid dbMsg) now (db w))"
    using m4 by (simp add: messages_completeMessage)
  moreover have "(''WARN'', max_messages_warning c1) \<in> set (logs ?w')" using l4 by simp
  moreover have "pending c \<noteq> 1 \<longrightarrow>
      map_of (conversations ?w') (conv_id c) = Some c3 \<and> responses (db ?w') = responses (db w)"
    using keep by simp
  moreover have "pending c = 1 \<and> (\<exists>h. fst (completion_hooks e c1) = Inr h) \<longrightarrow>
      map_of (conversations ?w') (conv_id c) = None \<and>
      (\<exists>row. responses (db ?w') = responses (db w) @ [row] \<and> r_message_id row = conv_messageId c)"
    using fin by auto
  ultimately show ?thesis unfolding tr c1_def [symmetric] c3_def [symmetric] by blast
qed
section \<open>Properties of the queue processor with the file queue\<close>

lemmas eval_file_queue = processMessage_file_queue_def processMessage_try_def easter_egg_reply_def
  call_provider_def write_response_def lookup_agent_def inherited_value_def truthy_def
  path_join_def path_isAbsolute_def getAgentResetFlag_def runCommand_def
  resolveClaudeModel_def resolveCodexModel_def resolve_model_def arg_truthy_def
  CLAUDE_MODEL_IDS_def CODEX_MODEL_IDS_def add_all_def
  ex_fq_env_def ex_message_data_def ex_file_queue_def

text \<open>
  When the message is not routed by the channel client and the detection finds
  two targets or more, \<^verbatim>\<open>processMessage\<close> replies without a subprocess: the
  message file leaves \<^verbatim>\<open>incoming\<close> and does not stay in \<^verbatim>\<open>processing\<close>, one
  response file is written, under the base name of the message file, with the
  text that lists the targets, and nothing else changes.
\<close>

lemma processMessage_file_queue_multi_target:
  assumes inc: "map_of (incoming w) f = Some (Holds messageData)"
    and pre: "\<not> (truthy (md_agent messageData) \<and> has_key (fq_agents e) (the (md_agent messageData)))"
    and multi: "length (detectMultipleTeams (fq_toLowerCase e) (md_message messageData) (fq_agents e)) > 1"
  shows "processMessage_file_queue e f now1 now2 w =
           w\<lparr> incoming := AList.delete f (incoming w),
              processing := AList.delete f (processing w),
              outgoing := AList.update f
                \<lparr> rd_channel = md_channel messageData,
                  rd_sender = md_sender messageData,
                  rd_message =
                    multi_team_message
                      (detectMultipleTeams (fq_toLowerCase e) (md_message messageData) (fq_agents e)),
                  rd_originalMessage = md_message messageData,
                  rd_timestamp = now1,
                  rd_messageId = md_messageId messageData,
                  rd_agent = None,
                  rd_files = None \<rparr>
                (outgoing w) \<rparr>"
proof -
  have r: "parseAgentRouting (fq_toLowerCase e) (md_message messageData) (fq_agents e) =
           (''error'', multi_team_message
              (detectMultipleTeams (fq_toLowerCase e) (md_message messageData) (fq_agents e)))"
    using multi by (simp add: parseAgentRouting_def Let_def)
  have d: "AList.delete f (AList.update f c xs) = AList.delete f xs" for c and xs :: "(string \<times> queue_file) list"
    by (induction xs) auto
  have route: "(if truthy (md_agent messageData) \<and> has_key (fq_agents e) (the (md_agent messageData))
            then (the (md_agent messageData), md_message messageData)
            else parseAgentRouting (fq_toLowerCase e) (md_message messageData) (fq_agents e)) =
           (''error'', multi_team_message
              (detectMultipleTeams (fq_toLowerCase e) (md_message messageData) (fq_agents e)))"
    using pre r by (simp only: if_not_P if_False)
  have "processMessage_try e f now1 now2 w =
          Inr (easter_egg_reply f messageData
                 (multi_team_message
                    (detectMultipleTeams (fq_toLowerCase e) (md_message messageData) (fq_agents e)))
                 now1
                 (w\<lparr> incoming := AList.delete f (incoming w),
                     processing := AList.update f (Holds messageData) (processing w) \<rparr>))"
    unfolding processMessage_try_def inc option.case Let_def queue_file.case route prod.case
    by simp
  then show ?thesis
    by (simp add: processMessage_file_queue_def easter_egg_reply_def d)
qed

lemma processMessage_file_queue_multi_target_spawned:
  assumes "map_of (incoming w) f = Some (Holds messageData)"
    and "\<not> (truthy (md_agent messageData) \<and> has_key (fq_agents e) (the (md_agent messageData)))"
    and "length (detectMultipleTeams (fq_toLowerCase e) (md_message messageData) (fq_agents e)) > 1"
  shows "spawned (processMessage_file_queue e f now1 now2 w) = spawned w"
  by (simp add: processMessage_file_queue_multi_target [OF assms])
section \<open>The claims on the two queue processors\<close>

lemmas eval_process =
  dispatch_def processMessage_def processMessage_body_def resolve_agent_def team_context_of_def
  findTeamForAgent_def prepare_invocation_def getAgentResetFlag_def path_join_def pending_note_def
  isInternal_def truthy_def invoke_step_def invokeAgent_def runCommand_def path_isAbsolute_def
  resolveClaudeModel_def resolveCodexModel_def resolveOpenCodeModel_def resolve_model_def
  arg_truthy_def lookup_agent_def inherited_value_def
  CLAUDE_MODEL_IDS_def CODEX_MODEL_IDS_def OPENCODE_MODEL_IDS_def providerLabel_def
  direct_reply_def add_all_def runIncomingHooks_def runOutgoingHooks_def hook_step_def
  emitEvent_def log_line_def legacy_routing_def
  ex_env_def ex_invoker_def ex_world_def ex_queue_def ex_incoming_def empty_db_def
  ex_routed_queue_def
  enqueueMessage_def enqueueResponse_def next_rowid_def claimNextMessage_def select_oldest_def
  claim_where_def update_where_def completeMessage_def failMessage_def show_code_def

lemmas eval_team = eval_process team_reply_def get_or_create_conversation_def record_response_def
  incrementPending_def decrementPending_def store_conversation_def enqueueInternalMessage_def
  completeConversation_def max_messages_warning_def ex_team_env_def ex_team_agents_def
  ex_dev_team_def ex_fanout_text_def ex_agent_def has_key_iff nl_def

lemma show_vals:
  "show_int 1 = ''1''" "show_int 2 = ''2''" "show_int 3 = ''3''" "show_int 2000 = ''2000''"
  "show_int 2001 = ''2001''" "show_nat 20 = ''20''"
  by (simp_all add: show_int_def show_nat.simps)

text \<open>
  Claim C6, on the code. The registry holds the agents \<^verbatim>\<open>coder\<close> and
  \<^verbatim>\<open>writer\<close>. For the text \<^verbatim>\<open>@coder @writer please coordinate\<close> the queue
  processor does as the claim says: two targets are detected, no subprocess is
  started, one response with the text that lists them is written, and the
  message file leaves the queue. A token that names nothing does not count:
  \<^verbatim>\<open>@coder @nobody hi\<close> has one target and goes to \<^verbatim>\<open>coder\<close>. But
  \<^verbatim>\<open>constructor\<close> names a property that the registry inherits, so that
  \<^verbatim>\<open>agents[teamId]\<close> is truthy for it: \<^verbatim>\<open>@coder @constructor hi\<close> has one
  configured target and is answered as if it had two, without a call of
  \<^verbatim>\<open>coder\<close>.
\<close>

theorem multi_target_counts_inherited_name:
  "detectMultipleTeams ascii_toLowerCase ''@coder @writer please coordinate'' ex_agents
     = [''coder'', ''writer''] \<and>
   processMessage_file_queue (ex_fq_env (Closes (Some 0) ''ok'' [])) ''telegram_m1.json'' 2000 2001
       (ex_file_queue ''@coder @writer please coordinate'')
     = \<lparr> incoming = [], processing = [],
         outgoing = [(''telegram_m1.json'',
                      \<lparr> rd_channel = ''telegram'', rd_sender = ''Alice'',
                        rd_message = multi_team_message [''coder'', ''writer''],
                        rd_originalMessage = ''@coder @writer please coordinate'',
                        rd_timestamp = 2000, rd_messageId = ''m1'', rd_agent = None,
                        rd_files = None \<rparr>)],
         existing = [], fq_logs = [], spawned = [] \<rparr> \<and>
   detectMultipleTeams ascii_toLowerCase ''@coder @nobody hi'' ex_agents = [''coder''] \<and>
   processMessage_file_queue (ex_fq_env (Closes (Some 0) ''ok'' [])) ''telegram_m1.json'' 2000 2001
       (ex_file_queue ''@coder @nobody hi'')
     = \<lparr> incoming = [], processing = [],
         outgoing = [(''telegram_m1_2001.json'',
                      \<lparr> rd_channel = ''telegram'', rd_sender = ''Alice'',
                        rd_message = ''ok'',
                        rd_originalMessage = ''@coder @nobody hi'',
                        rd_timestamp = 2000, rd_messageId = ''m1'', rd_agent = Some ''coder'',
                        rd_files = None \<rparr>)],
         existing = [''/ws/coder''], fq_logs = [],
         spawned = [(''claude'',
                     [Str ''--dangerously-skip-permissions'', Str ''--model'', Str ''claude-sonnet-4-5'',
                      Str ''-c'', Str ''-p'', Str ''@nobody hi''],
                     ''/ws/coder'')] \<rparr> \<and>
   detectMultipleTeams ascii_toLowerCase ''@coder @constructor hi'' ex_agents
     = [''coder'', ''constructor''] \<and>
   processMessage_file_queue (ex_fq_env (Closes (Some 0) ''ok'' [])) ''telegram_m1.json'' 2000 2001
       (ex_file_queue ''@coder @constructor hi'')
     = \<lparr> incoming = [], processing = [],
         outgoing = [(''telegram_m1.json'',
                      \<lparr> rd_channel = ''telegram'', rd_sender = ''Alice'',
                        rd_message = multi_team_message [''coder'', ''constructor''],
                        rd_originalMessage = ''@coder @constructor hi'',
                        rd_timestamp = 2000, rd_messageId = ''m1'', rd_agent = None,
                        rd_files = None \<rparr>)],
         existing = [], fq_logs = [], spawned = [] \<rparr>"
proof -
  have d: "detectMultipleTeams ascii_toLowerCase ''@coder @writer please coordinate'' ex_agents
             = [''coder'', ''writer'']"
    "detectMultipleTeams ascii_toLowerCase ''@coder @nobody hi'' ex_agents = [''coder'']"
    "detectMultipleTeams ascii_toLowerCase ''@coder @constructor hi'' ex_agents
       = [''coder'', ''constructor'']"
    by (simp_all add: eval_routing)
  have r: "parseAgentRouting ascii_toLowerCase ''@coder @writer please coordinate'' ex_agents
             = (''error'', multi_team_message [''coder'', ''writer''])"
    "parseAgentRouting ascii_toLowerCase ''@coder @constructor hi'' ex_agents
       = (''error'', multi_team_message [''coder'', ''constructor''])"
    by (simp_all add: parseAgentRouting_def d)
  have r2: "parseAgentRouting ascii_toLowerCase ''@coder @nobody hi'' ex_agents
             = (''coder'', ''@nobody hi'')"
    by (simp add: eval_routing)
  have k: "has_key ex_agents ''coder''" "lookup_agent ex_agents ''coder'' = Some (ex_agent ''Code Monkey'')"
    by (simp_all add: has_key_iff lookup_agent_def ex_agents_def)
  have t: "trim ''ok'' = ''ok''" by (simp add: trim_def eval_strings)
  have p1: "processMessage_file_queue (ex_fq_env (Closes (Some 0) ''ok'' [])) ''telegram_m1.json'' 2000 2001
       (ex_file_queue ''@coder @writer please coordinate'')
     = \<lparr> incoming = [], processing = [],
         outgoing = [(''telegram_m1.json'',
                      \<lparr> rd_channel = ''telegram'', rd_sender = ''Alice'',
                        rd_message = multi_team_message [''coder'', ''writer''],
                        rd_originalMessage = ''@coder @writer please coordinate'',
                        rd_timestamp = 2000, rd_messageId = ''m1'', rd_agent = None,
                        rd_files = None \<rparr>)],
         existing = [], fq_logs = [], spawned = [] \<rparr>"
    by (simp add: processMessage_file_queue_def processMessage_try_def easter_egg_reply_def
        ex_fq_env_def ex_message_data_def ex_file_queue_def truthy_def r)
  have p3: "processMessage_file_queue (ex_fq_env (Closes (Some 0) ''ok'' [])) ''telegram_m1.json'' 2000 2001
       (ex_file_queue ''@coder @constructor hi'')
     = \<lparr> incoming = [], processing = [],
         outgoing = [(''telegram_m1.json'',
                      \<lparr> rd_channel = ''telegram'', rd_sender = ''Alice'',
                        rd_message = multi_team_message [''coder'', ''constructor''],
                        rd_originalMessage = ''@coder @constructor hi'',
                        rd_timestamp = 2000, rd_messageId = ''m1'', rd_agent = None,
                        rd_files = None \<rparr>)],
         existing = [], fq_logs = [], spawned = [] \<rparr>"
    by (simp add: processMessage_file_queue_def processMessage_try_def easter_egg_reply_def
        ex_fq_env_def ex_message_data_def ex_file_queue_def truthy_def r)
  have p2: "processMessage_file_queue (ex_fq_env (Closes (Some 0) ''ok'' [])) ''telegram_m1.json'' 2000 2001
       (ex_file_queue ''@coder @nobody hi'')
     = \<lparr> incoming = [], processing = [],
         outgoing = [(''telegram_m1_2001.json'',
                      \<lparr> rd_channel = ''telegram'', rd_sender = ''Alice'',
                        rd_message = ''ok'',
                        rd_originalMessage = ''@coder @nobody hi'',
                        rd_timestamp = 2000, rd_messageId = ''m1'', rd_agent = Some ''coder'',
                        rd_files = None \<rparr>)],
         existing = [''/ws/coder''], fq_logs = [],
         spawned = [(''claude'',
                     [Str ''--dangerously-skip-permissions'', Str ''--model'', Str ''claude-sonnet-4-5'',
                      Str ''-c'', Str ''-p'', Str ''@nobody hi''],
                     ''/ws/coder'')] \<rparr>"
    by (simp add: processMessage_file_queue_def processMessage_try_def
        call_provider_def write_response_def truthy_def path_join_def path_isAbsolute_def
        getAgentResetFlag_def runCommand_def resolveClaudeModel_def resolve_model_def arg_truthy_def
        CLAUDE_MODEL_IDS_def add_all_def ex_fq_env_def ex_message_data_def ex_file_queue_def
        ex_agent_def r2 k t show_vals Let_def)
  from d p1 p2 p3 show ?thesis by (simp only: simp_thms)
qed

text \<open>
  Claim C7, on the code. A subprocess that ends with a code other than zero
  makes \<^verbatim>\<open>runCommand\<close> reject with the trimmed stderr, or with the text about
  the exit code when nothing is left of stderr after trimming. For a message
  that the channel client has routed to \<^verbatim>\<open>coder\<close>, the dispatcher
  then logs the error, takes the apology as the response and completes the
  message, as the claim says. But with a plugin whose outgoing hook rejects with
  \<^verbatim>\<open>undefined\<close>, the run of the hooks on the apology throws in its \<^verbatim>\<open>catch\<close>
  block: no response is enqueued and the message is failed, to be tried again.
\<close>

theorem failed_invocation_with_rejecting_hook:
  "runCommand (\<lambda>command args cwd. Closes (Some 1) [] (''  boom'' @ nl))
     ''/opt/tinyclaw'' ''claude'' [Str ''-p'', Str ''hi''] None = Inl ''boom'' \<and>
   runCommand (\<lambda>command args cwd. Closes (Some 3) ''partial output'' ([CHR 0xC2, CHR 0xA0] @ nl))
     ''/opt/tinyclaw'' ''claude'' [Str ''-p'', Str ''hi''] None = Inl ''Command exited with code 3'' \<and>
   invocations (dispatch (ex_env (Closes (Some 1) [] (''  boom'' @ nl)))
                  ''coder'' 2000 (ex_world ex_routed_queue))
     = [(''coder'', ''fix the login bug'', False)] \<and>
   logs (dispatch (ex_env (Closes (Some 1) [] (''  boom'' @ nl)))
                  ''coder'' 2000 (ex_world ex_routed_queue))
     = [(''ERROR'', ''Claude error (agent: coder): boom'')] \<and>
   map r_message (responses (db (dispatch (ex_env (Closes (Some 1) [] (''  boom'' @ nl)))
                  ''coder'' 2000 (ex_world ex_routed_queue))))
     = [apology] \<and>
   map (\<lambda>r. (status r, retry_count r, last_error r))
       (messages (db (dispatch (ex_env (Closes (Some 1) [] (''  boom'' @ nl)))
                  ''coder'' 2000 (ex_world ex_routed_queue))))
     = [(Completed, 0, None)] \<and>
   invocations (dispatch ((ex_env (Closes (Some 1) [] (''  boom'' @ nl)))\<lparr> env_plugins := [ex_rejecting] \<rparr>)
                  ''coder'' 2000 (ex_world ex_routed_queue))
     = [(''coder'', ''fix the login bug'', False)] \<and>
   logs (dispatch ((ex_env (Closes (Some 1) [] (''  boom'' @ nl)))\<lparr> env_plugins := [ex_rejecting] \<rparr>)
                  ''coder'' 2000 (ex_world ex_routed_queue))
     = [(''ERROR'', ''Claude error (agent: coder): boom''),
        (''ERROR'', ''Processing error: '' @ undefined_message_error)] \<and>
   responses (db (dispatch ((ex_env (Closes (Some 1) [] (''  boom'' @ nl)))\<lparr> env_plugins := [ex_rejecting] \<rparr>)
                  ''coder'' 2000 (ex_world ex_routed_queue)))
     = [] \<and>
   map (\<lambda>r. (status r, retry_count r, last_error r))
       (messages (db (dispatch ((ex_env (Closes (Some 1) [] (''  boom'' @ nl)))\<lparr> env_plugins := [ex_rejecting] \<rparr>)
                  ''coder'' 2000 (ex_world ex_routed_queue))))
     = [(Pending, 1, Some undefined_message_error)]"
proof -
  have rc: "runCommand (\<lambda>command args cwd. Closes (Some 1) [] (''  boom'' @ nl))
     ''/opt/tinyclaw'' ''claude'' [Str ''-p'', Str ''hi''] None = Inl ''boom''"
    "runCommand (\<lambda>command args cwd. Closes (Some 3) ''partial output'' ([CHR 0xC2, CHR 0xA0] @ nl))
     ''/opt/tinyclaw'' ''claude'' [Str ''-p'', Str ''hi''] None = Inl ''Command exited with code 3''"
    by (simp_all add: runCommand_def trim_def eval_strings show_code_def show_vals)
  have tr: "trim apology = apology"
    "trim [CHR '' '', CHR '' '', CHR ''b'', CHR ''o'', CHR ''o'', CHR ''m'', CHR 0x0A] = ''boom''"
    unfolding apology_def by (simp_all add: trim_def eval_strings)
  have plain:
    "invocations (dispatch (ex_env (Closes (Some 1) [] (''  boom'' @ nl)))
                  ''coder'' 2000 (ex_world ex_routed_queue))
     = [(''coder'', ''fix the login bug'', False)]"
    "logs (dispatch (ex_env (Closes (Some 1) [] (''  boom'' @ nl)))
                  ''coder'' 2000 (ex_world ex_routed_queue))
     = [(''ERROR'', ''Claude error (agent: coder): boom'')]"
    "map r_message (responses (db (dispatch (ex_env (Closes (Some 1) [] (''  boom'' @ nl)))
                  ''coder'' 2000 (ex_world ex_routed_queue))))
     = [apology]"
    "map (\<lambda>r. (status r, retry_count r, last_error r))
       (messages (db (dispatch (ex_env (Closes (Some 1) [] (''  boom'' @ nl)))
                  ''coder'' 2000 (ex_world ex_routed_queue))))
     = [(Completed, 0, None)]"
    by (simp_all add: eval_process eval_routing tr)
  have hooked:
    "invocations (dispatch ((ex_env (Closes (Some 1) [] (''  boom'' @ nl)))\<lparr> env_plugins := [ex_rejecting] \<rparr>)
                  ''coder'' 2000 (ex_world ex_routed_queue))
     = [(''coder'', ''fix the login bug'', False)]"
    "logs (dispatch ((ex_env (Closes (Some 1) [] (''  boom'' @ nl)))\<lparr> env_plugins := [ex_rejecting] \<rparr>)
                  ''coder'' 2000 (ex_world ex_routed_queue))
     = [(''ERROR'', ''Claude error (agent: coder): boom''),
        (''ERROR'', ''Processing error: '' @ undefined_message_error)]"
    "responses (db (dispatch ((ex_env (Closes (Some 1) [] (''  boom'' @ nl)))\<lparr> env_plugins := [ex_rejecting] \<rparr>)
                  ''coder'' 2000 (ex_world ex_routed_queue)))
     = []"
    "map (\<lambda>r. (status r, retry_count r, last_error r))
       (messages (db (dispatch ((ex_env (Closes (Some 1) [] (''  boom'' @ nl)))\<lparr> env_plugins := [ex_rejecting] \<rparr>)
                  ''coder'' 2000 (ex_world ex_routed_queue))))
     = [(Pending, 1, Some undefined_message_error)]"
    by (simp_all add: eval_process eval_routing tr ex_rejecting_def MAX_RETRIES_def)
  from rc plain hooked show ?thesis by (simp only: simp_thms)
qed

text \<open>
  Claim C8, on the code. A hook that throws an error with a message is logged
  and passed over, and the hooks after it run on the text before it, as the
  claim and the documentation of the plugins say. A hook that rejects with
  \<^verbatim>\<open>undefined\<close> is not: reading the message of what was caught throws in the
  \<^verbatim>\<open>catch\<close> block, the run of the hooks rejects without calling the hooks that
  follow, and the message that carries the text is failed. On the way out the
  response of the agent is lost; on the way in the agent is not called. The
  message is one that the channel client has routed to \<^verbatim>\<open>coder\<close>.
\<close>

theorem rejecting_hook_fails_message:
  "runOutgoingHooks [ex_markdown, ex_broken, ex_html, ex_shout] ''hi'' ex_ctx
     = (Inr \<lparr> hr_text = ''<b>*hi*</b>!'', hr_metadata = [(''parseMode'', ''html''), (''a'', ''1'')] \<rparr>,
        [(''ERROR'', ''Plugin '' @ [CHR 0x27] @ ''broken'' @ [CHR 0x27] @ '' transformOutgoing error: boom'')]) \<and>
   runOutgoingHooks [ex_markdown, ex_rejecting, ex_shout] ''hi'' ex_ctx
     = (Inl undefined_message_error, []) \<and>
   runIncomingHooks [ex_shout, ex_rejecting_in, ex_markdown] ''hi'' ex_ctx
     = (Inl undefined_message_error, []) \<and>
   map r_message (responses (db (dispatch ((ex_env (Closes (Some 0) ''ok'' []))\<lparr> env_plugins := [ex_broken] \<rparr>)
                  ''coder'' 2000 (ex_world ex_routed_queue))))
     = [''ok''] \<and>
   map (\<lambda>r. (status r, retry_count r, last_error r))
       (messages (db (dispatch ((ex_env (Closes (Some 0) ''ok'' []))\<lparr> env_plugins := [ex_broken] \<rparr>)
                  ''coder'' 2000 (ex_world ex_routed_queue))))
     = [(Completed, 0, None)] \<and>
   invocations (dispatch ((ex_env (Closes (Some 0) ''ok'' []))\<lparr> env_plugins := [ex_rejecting] \<rparr>)
                  ''coder'' 2000 (ex_world ex_routed_queue))
     = [(''coder'', ''fix the login bug'', False)] \<and>
   responses (db (dispatch ((ex_env (Closes (Some 0) ''ok'' []))\<lparr> env_plugins := [ex_rejecting] \<rparr>)
                  ''coder'' 2000 (ex_world ex_routed_queue)))
     = [] \<and>
   map (\<lambda>r. (status r, retry_count r, last_error r))
       (messages (db (dispatch ((ex_env (Closes (Some 0) ''ok'' []))\<lparr> env_plugins := [ex_rejecting] \<rparr>)
                  ''coder'' 2000 (ex_world ex_routed_queue))))
     = [(Pending, 1, Some undefined_message_error)] \<and>
   invocations (dispatch ((ex_env (Closes (Some 0) ''ok'' []))\<lparr> env_plugins := [ex_rejecting_in] \<rparr>)
                  ''coder'' 2000 (ex_world ex_routed_queue))
     = [] \<and>
   map (\<lambda>r. (status r, retry_count r, last_error r))
       (messages (db (dispatch ((ex_env (Closes (Some 0) ''ok'' []))\<lparr> env_plugins := [ex_rejecting_in] \<rparr>)
                  ''coder'' 2000 (ex_world ex_routed_queue))))
     = [(Pending, 1, Some undefined_message_error)]"
proof -
  have runs:
    "runOutgoingHooks [ex_markdown, ex_broken, ex_html, ex_shout] ''hi'' ex_ctx
     = (Inr \<lparr> hr_text = ''<b>*hi*</b>!'', hr_metadata = [(''parseMode'', ''html''), (''a'', ''1'')] \<rparr>,
        [(''ERROR'', ''Plugin '' @ [CHR 0x27] @ ''broken'' @ [CHR 0x27] @ '' transformOutgoing error: boom'')])"
    "runOutgoingHooks [ex_markdown, ex_rejecting, ex_shout] ''hi'' ex_ctx
     = (Inl undefined_message_error, [])"
    "runIncomingHooks [ex_shout, ex_rejecting_in, ex_markdown] ''hi'' ex_ctx
     = (Inl undefined_message_error, [])"
    by (simp_all add: eval_hooks)
  have tr: "trim ''ok'' = ''ok''" by (simp add: trim_def eval_strings)
  have broken:
    "map r_message (responses (db (dispatch ((ex_env (Closes (Some 0) ''ok'' []))\<lparr> env_plugins := [ex_broken] \<rparr>)
                  ''coder'' 2000 (ex_world ex_routed_queue))))
     = [''ok'']"
    "map (\<lambda>r. (status r, retry_count r, last_error r))
       (messages (db (dispatch ((ex_env (Closes (Some 0) ''ok'' []))\<lparr> env_plugins := [ex_broken] \<rparr>)
                  ''coder'' 2000 (ex_world ex_routed_queue))))
     = [(Completed, 0, None)]"
    by (simp_all add: eval_process eval_routing tr ex_broken_def)
  have out:
    "invocations (dispatch ((ex_env (Closes (Some 0) ''ok'' []))\<lparr> env_plugins := [ex_rejecting] \<rparr>)
                  ''coder'' 2000 (ex_world ex_routed_queue))
     = [(''coder'', ''fix the login bug'', False)]"
    "responses (db (dispatch ((ex_env (Closes (Some 0) ''ok'' []))\<lparr> env_plugins := [ex_rejecting] \<rparr>)
                  ''coder'' 2000 (ex_world ex_routed_queue)))
     = []"
    "map (\<lambda>r. (status r, retry_count r, last_error r))
       (messages (db (dispatch ((ex_env (Closes (Some 0) ''ok'' []))\<lparr> env_plugins := [ex_rejecting] \<rparr>)
                  ''coder'' 2000 (ex_world ex_routed_queue))))
     = [(Pending, 1, Some undefined_message_error)]"
    by (simp_all add: eval_process eval_routing tr ex_rejecting_def MAX_RETRIES_def)
  have inc:
    "invocations (dispatch ((ex_env (Closes (Some 0) ''ok'' []))\<lparr> env_plugins := [ex_rejecting_in] \<rparr>)
                  ''coder'' 2000 (ex_world ex_routed_queue))
     = []"
    "map (\<lambda>r. (status r, retry_count r, last_error r))
       (messages (db (dispatch ((ex_env (Closes (Some 0) ''ok'' []))\<lparr> env_plugins := [ex_rejecting_in] \<rparr>)
                  ''coder'' 2000 (ex_world ex_routed_queue))))
     = [(Pending, 1, Some undefined_message_error)]"
    by (simp_all add: eval_process eval_routing ex_rejecting_in_def MAX_RETRIES_def)
  from runs broken out inc show ?thesis by (simp only: simp_thms)
qed

text \<open>
  Claim C9, as stated, on the code. The sample team fans out: every response
  mentions the two teammates of the agent that gave it. After the user's
  message and twenty internal ones have been processed, the counter of the
  conversation is 21 and its bound 20: the bound is tested only before new
  mentions are enqueued, and the messages that were already waiting are still
  processed and counted.
\<close>

theorem conversation_exceeds_max_messages:
  "map (\<lambda>(k, c). (totalMessages c, maxMessages c))
     (conversations (dispatch_all ex_team_env ex_steps 2000 (ex_world (ex_queue ''@coder build it''))))
   = [(21, 20)]"
  by code_simp

text \<open>
  Claim C9, amended. When the response of an agent mentions teammates and
  the counter of the conversation, this response counted, has reached the bound,
  the team path enqueues no message (the messages table afterwards is what
  \<^verbatim>\<open>completeMessage\<close> alone makes of it), logs the warning, and stores the
  conversation with the response counted and \<^verbatim>\<open>pending\<close> one less, not more; if
  that was the last pending branch and the outgoing hooks return on the composed
  reply, the conversation is completed: it leaves the map and one response to
  the user's message is enqueued. The counter itself is still incremented.
\<close>

theorem mentions_ignored_at_max_messages:
  assumes "get_or_create_conversation e dbMsg tc now w = (c, w1)"
    and "env_extractTeammateMentions e response agentId (fst (teamContext c))
           (env_teams e) (env_agents e) \<noteq> []"
    and "maxMessages c \<le> totalMessages c + 1"
  shows "\<exists>w'. team_reply e dbMsg agentId response tc now w = Inr w' \<and>
           messages (db w') = messages (completeMessage (rowid dbMsg) now (db w)) \<and>
           (''WARN'', max_messages_warning (record_response e c agentId response)) \<in> set (logs w') \<and>
           totalMessages (record_response e c agentId response) = totalMessages c + 1 \<and>
           (pending c \<noteq> 1 \<longrightarrow>
              map_of (conversations w') (conv_id c) =
                Some ((record_response e c agentId response)\<lparr> pending := pending c - 1 \<rparr>) \<and>
              responses (db w') = responses (db w)) \<and>
           (pending c = 1 \<and>
            (\<exists>h. fst (completion_hooks e (record_response e c agentId response)) = Inr h) \<longrightarrow>
              map_of (conversations w') (conv_id c) = None \<and>
              (\<exists>row. responses (db w') = responses (db w) @ [row] \<and>
                     r_message_id row = conv_messageId c))"
proof -
  have t: "totalMessages (record_response e c agentId response) = totalMessages c + 1"
    by (simp add: record_response_def)
  from team_reply_cap_reached [OF assms]
  obtain w' where w': "team_reply e dbMsg agentId response tc now w = Inr w'"
    "messages (db w') = messages (completeMessage (rowid dbMsg) now (db w))"
    "(''WARN'', max_messages_warning (record_response e c agentId response)) \<in> set (logs w')"
    "pending c \<noteq> 1 \<longrightarrow>
              map_of (conversations w') (conv_id c) =
                Some ((record_response e c agentId response)\<lparr> pending := pending c - 1 \<rparr>) \<and>
              responses (db w') = responses (db w)"
    "pending c = 1 \<and>
     (\<exists>h. fst (completion_hooks e (record_response e c agentId response)) = Inr h) \<longrightarrow>
              map_of (conversations w') (conv_id c) = None \<and>
              (\<exists>row. responses (db w') = responses (db w) @ [row] \<and>
                     r_message_id row = conv_messageId c)"
    by blast
  show ?thesis
    apply (rule exI [of _ w'])
    apply (intro conjI)
         apply (rule w'(1))
        apply (rule w'(2))
       apply (rule w'(3))
      apply (rule t)
     apply (rule w'(4))
    apply (rule w'(5))
    done
qed

theorem mentions_ignored_at_max_messages_witness:
  "get_or_create_conversation ex_team_env ex_internal (''dev'', ex_dev_team) 2003 ex_team_world
     = (ex_conv, ex_team_world) \<and>
   env_extractTeammateMentions ex_team_env ex_fanout_text ''writer'' (fst (teamContext ex_conv))
     (env_teams ex_team_env) (env_agents ex_team_env) = [(''coder'', ''go''), (''reviewer'', ''go'')] \<and>
   maxMessages ex_conv \<le> totalMessages ex_conv + 1 \<and>
   (\<exists>w'. team_reply ex_team_env ex_internal ''writer'' ex_fanout_text (''dev'', ex_dev_team) 2003
            ex_team_world = Inr w' \<and>
      map message_id (messages (db w')) = [''m1_2000_writer_i''] \<and>
      map status (messages (db w')) = [Completed] \<and>
      (''WARN'', ''Conversation m1_2000 hit max messages (20) '' @ [CHR 0xE2, CHR 0x80, CHR 0x94] @
                 '' not enqueuing further mentions'') \<in> set (logs w') \<and>
      map (\<lambda>(k, c). (totalMessages c, pending c)) (conversations w') = [(20, 2)] \<and>
      responses (db w') = []) \<and>
   get_or_create_conversation ex_team_env ex_internal (''dev'', ex_dev_team) 2003 ex_last_world
     = (ex_conv\<lparr> pending := 1 \<rparr>, ex_last_world) \<and>
   (\<exists>h. fst (completion_hooks ex_team_env
             (record_response ex_team_env (ex_conv\<lparr> pending := 1 \<rparr>) ''writer'' ex_fanout_text)) = Inr h) \<and>
   (\<exists>w'. team_reply ex_team_env ex_internal ''writer'' ex_fanout_text (''dev'', ex_dev_team) 2003
            ex_last_world = Inr w' \<and>
      map status (messages (db w')) = [Completed] \<and>
      map_of (conversations w') ''m1_2000'' = None \<and>
      map r_message_id (responses (db w')) = [''m1''])"
proof -
  have h1: "get_or_create_conversation ex_team_env ex_internal (''dev'', ex_dev_team) 2003 ex_team_world
     = (ex_conv, ex_team_world)"
    by (simp add: get_or_create_conversation_def isInternal_def truthy_def ex_internal_def
          ex_team_world_def ex_conv_def)
  have h2: "env_extractTeammateMentions ex_team_env ex_fanout_text ''writer'' (fst (teamContext ex_conv))
     (env_teams ex_team_env) (env_agents ex_team_env) = [(''coder'', ''go''), (''reviewer'', ''go'')]"
    by (simp add: ex_team_env_def)
  have h3: "maxMessages ex_conv \<le> totalMessages ex_conv + 1"
    by (simp add: ex_conv_def)
  have p: "pending ex_conv \<noteq> 1" by (simp add: ex_conv_def)
  from mentions_ignored_at_max_messages [OF h1 _ h3, of ex_fanout_text "''writer''"] h2 p
  obtain w' where w': "team_reply ex_team_env ex_internal ''writer'' ex_fanout_text (''dev'', ex_dev_team) 2003
            ex_team_world = Inr w'"
    "messages (db w') = messages (completeMessage (rowid ex_internal) 2003 (db ex_team_world))"
    "(''WARN'', max_messages_warning (record_response ex_team_env ex_conv ''writer'' ex_fanout_text))
        \<in> set (logs w')"
    "map_of (conversations w') (conv_id ex_conv) =
        Some ((record_response ex_team_env ex_conv ''writer'' ex_fanout_text)\<lparr> pending := pending ex_conv - 1 \<rparr>)"
    "responses (db w') = responses (db ex_team_world)"
    by auto
  have m: "map message_id (messages (completeMessage (rowid ex_internal) 2003 (db ex_team_world)))
             = [''m1_2000_writer_i'']"
    "map status (messages (completeMessage (rowid ex_internal) 2003 (db ex_team_world))) = [Completed]"
    by (simp_all add: completeMessage_def update_where_def ex_internal_def ex_row_def ex_team_world_def)
  have wn: "max_messages_warning (record_response ex_team_env ex_conv ''writer'' ex_fanout_text)
            = ''Conversation m1_2000 hit max messages (20) '' @ [CHR 0xE2, CHR 0x80, CHR 0x94] @
                 '' not enqueuing further mentions''"
    by (simp add: max_messages_warning_def record_response_def ex_conv_def show_vals)
  have cs: "map (\<lambda>(k, c). (totalMessages c, pending c)) (conversations w') = [(20, 2)]"
    using w'(1)
    by (auto simp add: eval_team eval_routing show_vals ex_team_world_def ex_conv_def
          ex_internal_def ex_row_def simp del: show_int_def)
  have r: "responses (db ex_team_world) = []" by (simp add: ex_team_world_def)
  have first: "\<exists>w'. team_reply ex_team_env ex_internal ''writer'' ex_fanout_text (''dev'', ex_dev_team) 2003
            ex_team_world = Inr w' \<and>
      map message_id (messages (db w')) = [''m1_2000_writer_i''] \<and>
      map status (messages (db w')) = [Completed] \<and>
      (''WARN'', ''Conversation m1_2000 hit max messages (20) '' @ [CHR 0xE2, CHR 0x80, CHR 0x94] @
                 '' not enqueuing further mentions'') \<in> set (logs w') \<and>
      map (\<lambda>(k, c). (totalMessages c, pending c)) (conversations w') = [(20, 2)] \<and>
      responses (db w') = []"
    using w'(1) w'(2) w'(3) w'(5) m wn cs r by simp
  have g1: "get_or_create_conversation ex_team_env ex_internal (''dev'', ex_dev_team) 2003 ex_last_world
     = (ex_conv\<lparr> pending := 1 \<rparr>, ex_last_world)"
    by (simp add: get_or_create_conversation_def isInternal_def truthy_def ex_internal_def
          ex_last_world_def ex_team_world_def ex_conv_def)
  have g2: "env_extractTeammateMentions ex_team_env ex_fanout_text ''writer''
     (fst (teamContext (ex_conv\<lparr> pending := 1 \<rparr>)))
     (env_teams ex_team_env) (env_agents ex_team_env) \<noteq> []"
    by (simp add: ex_team_env_def)
  have g3: "maxMessages (ex_conv\<lparr> pending := 1 \<rparr>) \<le> totalMessages (ex_conv\<lparr> pending := 1 \<rparr>) + 1"
    by (simp add: ex_conv_def)
  have g4: "\<exists>h. fst (completion_hooks ex_team_env
             (record_response ex_team_env (ex_conv\<lparr> pending := 1 \<rparr>) ''writer'' ex_fanout_text)) = Inr h"
    by (simp add: completion_hooks_def ex_team_env_def ex_env_def)
  have ids: "conv_id (ex_conv\<lparr> pending := 1 \<rparr>) = ''m1_2000''"
    "conv_messageId (ex_conv\<lparr> pending := 1 \<rparr>) = ''m1''" "pending (ex_conv\<lparr> pending := 1 \<rparr>) = 1"
    by (simp_all add: ex_conv_def)
  have r2: "responses (db ex_last_world) = []" "rowid ex_internal = 7"
    "db ex_last_world = db ex_team_world"
    by (simp_all add: ex_last_world_def ex_team_world_def ex_internal_def ex_row_def)
  from mentions_ignored_at_max_messages [OF g1 g2 g3] g4 ids
  obtain w2 where w2: "team_reply ex_team_env ex_internal ''writer'' ex_fanout_text (''dev'', ex_dev_team) 2003
            ex_last_world = Inr w2"
    "messages (db w2) = messages (completeMessage (rowid ex_internal) 2003 (db ex_last_world))"
    "map_of (conversations w2) ''m1_2000'' = None"
    "\<exists>row. responses (db w2) = responses (db ex_last_world) @ [row] \<and> r_message_id row = ''m1''"
    by auto
  have second: "\<exists>w'. team_reply ex_team_env ex_internal ''writer'' ex_fanout_text (''dev'', ex_dev_team) 2003
            ex_last_world = Inr w' \<and>
      map status (messages (db w')) = [Completed] \<and>
      map_of (conversations w') ''m1_2000'' = None \<and>
      map r_message_id (responses (db w')) = [''m1'']"
    using w2 m(2) r2 by auto
  from h1 h2 h3 first g1 g4 second show ?thesis by (simp only: simp_thms)
qed
end
